(* ===== verification/Prelude.thy ===== *)
theory Prelude
  imports Main
begin

text \<open>
  Shared ground of the development: effectful Python code as state-passing
  functions with exceptions as values, the rules that push a two-state relation
  through such code, and the list lemmas about keyed tables that every
  repository uses.
\<close>

named_theorems run_simps \<open>how a program acts on a state\<close>
named_theorems op_run \<open>what one repository operation returns and stores\<close>
named_theorems world_defs \<open>definitions of the parts of a well-formed database\<close>

section \<open>Programs: state passing with exceptions\<close>

text \<open>
  A coroutine of the source takes the state, may change it, and either returns
  or raises. A change made before an exception stays: a committed row is not
  undone by a later raise. The four combinators are the returns, the raises, the
  sequencing and the \<open>try/except\<close> of the source.
\<close>

type_synonym ('s, 'e, 'a) prog = "'s \<Rightarrow> ('e + 'a) \<times> 's"

definition pure :: "'a \<Rightarrow> ('s, 'e, 'a) prog" where
  "pure x = (\<lambda>s. (Inr x, s))"

definition raise :: "'e \<Rightarrow> ('s, 'e, 'a) prog" where
  "raise e = (\<lambda>s. (Inl e, s))"

definition and_then ::
  "('s, 'e, 'a) prog \<Rightarrow> ('a \<Rightarrow> ('s, 'e, 'b) prog) \<Rightarrow> ('s, 'e, 'b) prog" where
  "and_then m f = (\<lambda>s. case m s of (Inl e, s') \<Rightarrow> (Inl e, s') | (Inr x, s') \<Rightarrow> f x s')"

text \<open>
  The handler of \<open>try_except\<close> returns \<open>None\<close> for an exception it does not
  catch, which then propagates.
\<close>

definition try_except ::
  "('s, 'e, 'a) prog \<Rightarrow> ('e \<Rightarrow> ('s, 'e, 'a) prog option) \<Rightarrow> ('s, 'e, 'a) prog" where
  "try_except m h = (\<lambda>s. case m s of
     (Inl e, s') \<Rightarrow> (case h e of None \<Rightarrow> (Inl e, s') | Some k \<Rightarrow> k s')
   | (Inr x, s') \<Rightarrow> (Inr x, s'))"

text \<open>A read of the state that changes nothing.\<close>

definition reads :: "('s \<Rightarrow> 'a) \<Rightarrow> ('s, 'e, 'a) prog" where
  "reads f = (\<lambda>s. (Inr (f s), s))"

definition returned :: "('e + 'a) \<times> 's \<Rightarrow> 'a option" where
  "returned r = (case fst r of Inl _ \<Rightarrow> None | Inr x \<Rightarrow> Some x)"

definition raised :: "('e + 'a) \<times> 's \<Rightarrow> 'e option" where
  "raised r = (case fst r of Inl e \<Rightarrow> Some e | Inr _ \<Rightarrow> None)"

lemma pure_run [run_simps]: "pure x s = (Inr x, s)"
  by (simp add: pure_def)

lemma raise_run [run_simps]: "raise e s = (Inl e, s)"
  by (simp add: raise_def)

lemma reads_run [run_simps]: "reads f s = (Inr (f s), s)"
  by (simp add: reads_def)

lemma and_then_run [run_simps]:
  "and_then m f s = (case m s of (Inl e, s') \<Rightarrow> (Inl e, s') | (Inr x, s') \<Rightarrow> f x s')"
  by (simp add: and_then_def)

lemma try_except_run [run_simps]:
  "try_except m h s = (case m s of
     (Inl e, s') \<Rightarrow> (case h e of None \<Rightarrow> (Inl e, s') | Some k \<Rightarrow> k s')
   | (Inr x, s') \<Rightarrow> (Inr x, s'))"
  by (simp add: try_except_def)

lemma and_then_Inr: "m s = (Inr x, s') \<Longrightarrow> and_then m f s = f x s'"
  by (simp add: run_simps)

lemma and_then_Inl: "m s = (Inl e, s') \<Longrightarrow> and_then m f s = (Inl e, s')"
  by (simp add: run_simps)

lemma and_then_pure [simp]: "and_then (pure x) f = f x"
  by (rule ext) (simp add: run_simps)

lemma pure_and_then [simp]: "and_then m pure = m"
  by (rule ext) (simp add: run_simps split: prod.splits sum.splits)

lemma and_then_assoc: "and_then (and_then m f) g = and_then m (\<lambda>x. and_then (f x) g)"
  by (rule ext) (simp add: run_simps split: prod.splits sum.splits)

lemma returned_simps [simp]:
  "returned (Inr x, s) = Some x" "returned (Inl e, s) = None"
  "raised (Inl e, s) = Some e" "raised (Inr x, s) = None"
  by (simp_all add: returned_def raised_def)

section \<open>Two-state relations along a program\<close>

text \<open>
  \<open>obeys R m\<close>: whatever the program returns or raises, \<open>R\<close> relates the state
  before to the state after. Invariants, frames (a table is untouched) and
  histories (a log only grows) are all of this form. For a reflexive and
  transitive \<open>R\<close> the combinators compose.
\<close>

definition obeys :: "('s \<Rightarrow> 's \<Rightarrow> bool) \<Rightarrow> ('s, 'e, 'a) prog \<Rightarrow> bool" where
  "obeys R m = (\<forall>s. R s (snd (m s)))"

lemma obeysI: "(\<And>s r s'. m s = (r, s') \<Longrightarrow> R s s') \<Longrightarrow> obeys R m"
  by (simp add: obeys_def prod_eq_iff)

lemma obeysD: "obeys R m \<Longrightarrow> m s = (r, s') \<Longrightarrow> R s s'"
  by (metis obeys_def snd_conv)

lemma obeys_snd: "obeys R m \<Longrightarrow> R s (snd (m s))"
  by (simp add: obeys_def)

lemma obeys_mono: "obeys R m \<Longrightarrow> (\<And>s t. R s t \<Longrightarrow> Q s t) \<Longrightarrow> obeys Q m"
  by (simp add: obeys_def)

locale history =
  fixes R :: "'s \<Rightarrow> 's \<Rightarrow> bool"
  assumes refl: "R s s"
    and trans: "R s t \<Longrightarrow> R t u \<Longrightarrow> R s u"
begin

lemma pure: "obeys R (Prelude.pure x)"
  by (simp add: obeys_def run_simps refl)

lemma raise: "obeys R (Prelude.raise e)"
  by (simp add: obeys_def run_simps refl)

lemma reads: "obeys R (Prelude.reads f)"
  by (simp add: obeys_def run_simps refl)

lemma and_then: "obeys R m \<Longrightarrow> (\<And>x. obeys R (f x)) \<Longrightarrow> obeys R (Prelude.and_then m f)"
  by (auto simp: obeys_def run_simps split: prod.splits sum.splits)
    (metis snd_conv trans)+

lemma try_except:
  "obeys R m \<Longrightarrow> (\<And>e k. h e = Some k \<Longrightarrow> obeys R k) \<Longrightarrow> obeys R (Prelude.try_except m h)"
  by (auto simp: obeys_def run_simps split: prod.splits sum.splits option.splits)
    (metis snd_conv trans)+

lemma cond: "(b \<Longrightarrow> obeys R m) \<Longrightarrow> (\<not> b \<Longrightarrow> obeys R n) \<Longrightarrow> obeys R (if b then m else n)"
  by simp

lemma opt:
  "obeys R m \<Longrightarrow> (\<And>x. obeys R (f x)) \<Longrightarrow>
   obeys R (case v of None \<Rightarrow> m | Some x \<Rightarrow> f x)"
  by (simp split: option.splits)

lemma let_bound: "obeys R (f v) \<Longrightarrow> obeys R (let x = v in f x)"
  by simp

lemmas rules = pure raise reads and_then try_except cond opt let_bound

end

text \<open>The three relations used throughout: an invariant, a frame, and a growing log.\<close>

definition keeps :: "('s \<Rightarrow> bool) \<Rightarrow> 's \<Rightarrow> 's \<Rightarrow> bool" where
  "keeps I s t = (I s \<longrightarrow> I t)"

definition same :: "('s \<Rightarrow> 'a) \<Rightarrow> 's \<Rightarrow> 's \<Rightarrow> bool" where
  "same f s t = (f t = f s)"

definition grows :: "('s \<Rightarrow> 'a list) \<Rightarrow> 's \<Rightarrow> 's \<Rightarrow> bool" where
  "grows f s t = (take (length (f s)) (f t) = f s)"

lemma grows_iff: "grows f s t \<longleftrightarrow> (\<exists>xs. f t = f s @ xs)"
  by (metis append_eq_conv_conj append_take_drop_id grows_def)

interpretation keeping: history "keeps I" for I :: "'s \<Rightarrow> bool"
  by unfold_locales (auto simp: keeps_def)

interpretation framing: history "same f" for f :: "'s \<Rightarrow> 'a"
  by unfold_locales (auto simp: same_def)

interpretation growing: history "grows f" for f :: "'s \<Rightarrow> 'a list"
  by unfold_locales (auto simp: grows_iff)

lemma obeys_keepsD: "obeys (keeps I) m \<Longrightarrow> I s \<Longrightarrow> I (snd (m s))"
  by (simp add: obeys_def keeps_def)

lemma obeys_sameD: "obeys (same f) m \<Longrightarrow> f (snd (m s)) = f s"
  by (simp add: obeys_def same_def)

lemma obeys_same_run: "obeys (same f) m \<Longrightarrow> m s = (r, s') \<Longrightarrow> f s' = f s"
  by (metis obeys_sameD snd_conv)

lemma obeys_growsD: "obeys (grows f) m \<Longrightarrow> \<exists>xs. f (snd (m s)) = f s @ xs"
  by (simp add: obeys_def grows_iff)

section \<open>Tables as lists of rows with a key\<close>

lemma distinct_map_eqD:
  "distinct (map k xs) \<Longrightarrow> x \<in> set xs \<Longrightarrow> y \<in> set xs \<Longrightarrow> k x = k y \<Longrightarrow> x = y"
  by (meson distinct_map inj_onD)

lemma filter_key:
  assumes "distinct (map k xs)"
  shows "filter (\<lambda>x. k x = v) xs =
    (case find (\<lambda>x. k x = v) xs of None \<Rightarrow> [] | Some x \<Rightarrow> [x])"
  using assms
proof (induction xs)
  case Nil
  then show ?case by simp
next
  case (Cons a xs)
  have "filter (\<lambda>x. k x = v) xs = []" if "k a = v"
    unfolding filter_empty_conv
  proof
    fix x
    assume "x \<in> set xs"
    then have "k x \<noteq> k a" using Cons.prems by (metis distinct.simps(2) image_eqI list.set_map list.simps(9))
    with that show "k x \<noteq> v" by simp
  qed
  with Cons show ?case by (cases "k a = v") simp_all
qed

lemma find_key_Some:
  "find (\<lambda>x. k x = v) xs = Some x \<Longrightarrow> x \<in> set xs \<and> k x = v"
  by (auto simp: find_Some_iff)

lemma find_key_unique:
  assumes "distinct (map k xs)" and "x \<in> set xs"
  shows "find (\<lambda>y. k y = k x) xs = Some x"
proof (cases "find (\<lambda>y. k y = k x) xs")
  case None
  with assms(2) show ?thesis by (auto simp: find_None_iff)
next
  case (Some y)
  from find_key_Some [OF this] show ?thesis
    using assms Some distinct_map_eqD by fastforce
qed

lemma find_key_None: "find (\<lambda>x. k x = v) xs = None \<longleftrightarrow> v \<notin> k ` set xs"
  by (auto simp: find_None_iff)

text \<open>Deleting the row found by one key deletes exactly the rows with its other key.\<close>

lemma filter_id_key:
  assumes "distinct (map i xs)" and "distinct (map k xs)" and "x \<in> set xs"
  shows "filter (\<lambda>y. i y \<noteq> i x) xs = filter (\<lambda>y. k y \<noteq> k x) xs"
  by (rule filter_cong [OF refl]) (metis assms distinct_map_eqD)

lemma filter_no_key: "v \<notin> k ` set xs \<Longrightarrow> filter (\<lambda>x. k x \<noteq> v) xs = xs"
  by (auto simp: filter_id_conv)

lemma key_in: "x \<in> set xs \<Longrightarrow> k x = v \<Longrightarrow> v \<in> k ` set xs"
  by blast

lemma filter_key_none: "v \<notin> k ` set xs \<Longrightarrow> filter (\<lambda>x. k x = v) xs = []"
  unfolding filter_empty_conv by blast

lemma find_append:
  "find P (xs @ ys) = (case find P xs of None \<Rightarrow> find P ys | Some x \<Rightarrow> Some x)"
  by (induction xs) auto

lemma distinct_map_snoc:
  "distinct (map k (xs @ [x])) \<longleftrightarrow> distinct (map k xs) \<and> k x \<notin> k ` set xs"
  by auto

text \<open>An UPDATE: the rows that satisfy the condition are changed in place.\<close>

definition update_where :: "('r \<Rightarrow> bool) \<Rightarrow> ('r \<Rightarrow> 'r) \<Rightarrow> 'r list \<Rightarrow> 'r list" where
  "update_where P f rows = map (\<lambda>r. if P r then f r else r) rows"

lemma update_where_set:
  "set (update_where P f rows) = f ` {r \<in> set rows. P r} \<union> {r \<in> set rows. \<not> P r}"
  by (auto simp: update_where_def)

lemma update_where_map:
  "(\<And>r. r \<in> set rows \<Longrightarrow> P r \<Longrightarrow> k (f r) = k r) \<Longrightarrow>
   map k (update_where P f rows) = map k rows"
  by (simp add: update_where_def)

lemma length_update_where [simp]: "length (update_where P f rows) = length rows"
  by (simp add: update_where_def)

lemma update_where_none:
  "(\<And>r. r \<in> set rows \<Longrightarrow> \<not> P r) \<Longrightarrow> update_where P f rows = rows"
  by (simp add: update_where_def map_idI)

lemma find_update_where:
  assumes "\<And>r. k (f r) = k r"
  shows "find (\<lambda>r. k r = v) (update_where P f rows) =
    map_option (\<lambda>r. if P r then f r else r) (find (\<lambda>r. k r = v) rows)"
  using assms by (induction rows) (auto simp: update_where_def)

section \<open>Sorting by a comparison\<close>

text \<open>
  ORDER BY with the database's own comparison. SQL leaves the order of tied rows
  open; the model keeps them in table order, and no theorem about an order
  depends on that.
\<close>

fun insert_by :: "('r \<Rightarrow> 'r \<Rightarrow> bool) \<Rightarrow> 'r \<Rightarrow> 'r list \<Rightarrow> 'r list" where
  "insert_by le x [] = [x]"
| "insert_by le x (y # ys) = (if le x y then x # y # ys else y # insert_by le x ys)"

definition order_by :: "('r \<Rightarrow> 'r \<Rightarrow> bool) \<Rightarrow> 'r list \<Rightarrow> 'r list" where
  "order_by le xs = foldr (insert_by le) xs []"

lemma set_insert_by [simp]: "set (insert_by le x ys) = insert x (set ys)"
  by (induction ys) auto

lemma length_insert_by [simp]: "length (insert_by le x ys) = Suc (length ys)"
  by (induction ys) auto

lemma distinct_insert_by [simp]:
  "distinct (insert_by le x ys) \<longleftrightarrow> x \<notin> set ys \<and> distinct ys"
  by (induction ys) auto

lemma set_order_by [simp]: "set (order_by le xs) = set xs"
  by (induction xs) (auto simp: order_by_def)

lemma length_order_by [simp]: "length (order_by le xs) = length xs"
  by (induction xs) (auto simp: order_by_def)

lemma distinct_order_by [simp]: "distinct (order_by le xs) \<longleftrightarrow> distinct xs"
proof (induction xs)
  case Nil
  then show ?case by (simp add: order_by_def)
next
  case (Cons x xs)
  then show ?case using set_order_by [of le xs] by (simp add: order_by_def)
qed

lemma sorted_wrt_insert_by:
  assumes total: "\<And>a b. le a b \<or> le b a" and trans: "\<And>a b c. le a b \<Longrightarrow> le b c \<Longrightarrow> le a c"
  shows "sorted_wrt le ys \<Longrightarrow> sorted_wrt le (insert_by le x ys)"
proof (induction ys)
  case Nil
  then show ?case by simp
next
  case (Cons y ys)
  show ?case
  proof (cases "le x y")
    case True
    with Cons.prems show ?thesis by (auto intro: trans)
  next
    case False
    with total have "le y x" by blast
    with False Cons show ?thesis by auto
  qed
qed

lemma sorted_order_by:
  assumes "\<And>a b. le a b \<or> le b a" and "\<And>a b c. le a b \<Longrightarrow> le b c \<Longrightarrow> le a c"
  shows "sorted_wrt le (order_by le xs)"
  by (induction xs) (auto simp: order_by_def intro: sorted_wrt_insert_by [OF assms])

end
