(* ===== verification/Python.thy ===== *)
theory Python
  imports Prelude "HOL-Library.Word"
begin

text \<open>
  What the source uses of Python itself: string methods, \<open>int(s, 16)\<close>,
  \<open>str(uuid)\<close> and \<open>uuid.UUID(s)\<close>, and instants with \<open>timedelta\<close>. A string is a
  list of code points below 256 (\<open>char\<close>), on which the methods are exact.
\<close>

section \<open>String methods\<close>

definition lower_char :: "char \<Rightarrow> char" where
  "lower_char c = (let n = (of_char c :: nat) in
     if 65 \<le> n \<and> n \<le> 90 \<or> 192 \<le> n \<and> n \<le> 222 \<and> n \<noteq> 215 then char_of (n + 32) else c)"

definition py_lower :: "string \<Rightarrow> string" where
  "py_lower s = map lower_char s"

definition is_space :: "char \<Rightarrow> bool" where
  "is_space c = (let n = (of_char c :: nat) in
     9 \<le> n \<and> n \<le> 13 \<or> 28 \<le> n \<and> n \<le> 32 \<or> n = 133 \<or> n = 160)"

definition strip_where :: "(char \<Rightarrow> bool) \<Rightarrow> string \<Rightarrow> string" where
  "strip_where P s = rev (dropWhile P (rev (dropWhile P s)))"

definition py_strip :: "string \<Rightarrow> string" where
  "py_strip s = strip_where is_space s"

definition py_startswith :: "string \<Rightarrow> string \<Rightarrow> bool" where
  "py_startswith s p = (take (length p) s = p)"

definition py_removeprefix :: "string \<Rightarrow> string \<Rightarrow> string" where
  "py_removeprefix s p = (if py_startswith s p then drop (length p) s else s)"

text \<open>\<open>s.replace(p, '')\<close>: every occurrence of a non-empty \<open>p\<close> is cut, from the left.\<close>

function py_cut :: "string \<Rightarrow> string \<Rightarrow> string" where
  "py_cut p [] = []"
| "py_cut p (c # cs) =
     (if p \<noteq> [] \<and> py_startswith (c # cs) p then py_cut p (drop (length p) (c # cs))
      else c # py_cut p cs)"
  by pat_completeness auto
termination
  by (relation "measure (\<lambda>(p, s). length s)") auto

lemma lower_char_idem: "lower_char (lower_char c) = lower_char c"
  by (auto simp: lower_char_def Let_def)

lemma py_lower_idem [simp]: "py_lower (py_lower s) = py_lower s"
  by (simp add: py_lower_def lower_char_idem)

lemma length_py_lower [simp]: "length (py_lower s) = length s"
  by (simp add: py_lower_def)

lemma py_removeprefix_append [simp]: "py_removeprefix (p @ s) p = s"
  by (simp add: py_removeprefix_def py_startswith_def)

lemma py_startswith_append [simp]: "py_startswith (p @ s) p"
  by (simp add: py_startswith_def)

lemma strip_where_id:
  assumes "s \<noteq> []" and "\<not> P (hd s)" and "\<not> P (last s)"
  shows "strip_where P s = s"
proof -
  have d: "dropWhile P t = t" if "t \<noteq> []" "\<not> P (hd t)" for t
    using that by (cases t) auto
  from assms show ?thesis by (simp add: strip_where_def d hd_rev)
qed

lemma py_cut_absent: "c \<notin> set s \<Longrightarrow> py_cut (c # p) s = s"
  by (induction s) (auto simp: py_startswith_def)

lemma py_cut_char: "py_cut [c] s = filter (\<lambda>x. x \<noteq> c) s"
  by (induction s) (auto simp: py_startswith_def)

section \<open>Hexadecimal integers\<close>

definition hex_value :: "char \<Rightarrow> nat option" where
  "hex_value c = (let n = (of_char c :: nat) in
     if 48 \<le> n \<and> n \<le> 57 then Some (n - 48)
     else if 97 \<le> n \<and> n \<le> 102 then Some (n - 87)
     else if 65 \<le> n \<and> n \<le> 70 then Some (n - 55)
     else None)"

definition hex_digit :: "nat \<Rightarrow> char" where
  "hex_digit d = (if d < 10 then char_of (48 + d) else char_of (87 + d))"

text \<open>
  Digits with single underscores between them; the flag says whether the
  character before was a digit.
\<close>

fun hex_digits :: "nat \<Rightarrow> bool \<Rightarrow> string \<Rightarrow> nat option" where
  "hex_digits acc prev [] = (if prev then Some acc else None)"
| "hex_digits acc prev (c # cs) =
     (if c = CHR ''_'' then (if prev then hex_digits acc False cs else None)
      else case hex_value c of
        None \<Rightarrow> None
      | Some d \<Rightarrow> hex_digits (acc * 16 + d) True cs)"

text \<open>\<open>int(s, 16)\<close>; \<open>None\<close> is the ValueError.\<close>

definition unsigned16 :: "string \<Rightarrow> nat option" where
  "unsigned16 s =
     (if py_startswith s ''0x'' \<or> py_startswith s ''0X''
      then hex_digits 0 False (py_removeprefix (drop 2 s) ''_'')
      else hex_digits 0 False s)"

definition int_base16 :: "string \<Rightarrow> int option" where
  "int_base16 s = (case py_strip s of
     [] \<Rightarrow> None
   | c # cs \<Rightarrow>
       if c = CHR ''-'' then map_option (\<lambda>n. - int n) (unsigned16 cs)
       else if c = CHR ''+'' then map_option int (unsigned16 cs)
       else map_option int (unsigned16 (c # cs)))"

lemma hex_value_digit: "d < 16 \<Longrightarrow> hex_value (hex_digit d) = Some d"
  by (auto simp: hex_value_def hex_digit_def Let_def)

lemma hex_digit_code:
  "d < 16 \<Longrightarrow> (of_char (hex_digit d) :: nat) = (if d < 10 then 48 + d else 87 + d)"
  by (simp add: hex_digit_def)

lemma hex_digit_neq:
  assumes "d < 16" and "(of_char c :: nat) < 48 \<or> 57 < (of_char c :: nat) \<and> (of_char c :: nat) < 97 \<or> 102 < (of_char c :: nat)"
  shows "hex_digit d \<noteq> c"
  using hex_digit_code [OF assms(1)] assms by (auto split: if_splits)

definition hex_string :: "nat \<Rightarrow> nat \<Rightarrow> string" where
  "hex_string k n = map (\<lambda>i. hex_digit ((n div 16 ^ i) mod 16)) (rev [0..<k])"

lemma length_hex_string [simp]: "length (hex_string k n) = k"
  by (simp add: hex_string_def)

lemma hex_string_chars: "c \<in> set (hex_string k n) \<Longrightarrow> \<exists>d<16. c = hex_digit d"
  unfolding hex_string_def by (metis (no_types, lifting) imageE list.set_map mod_less_divisor zero_less_numeral)

lemma hex_string_lacks:
  "(of_char c :: nat) < 48 \<or> 57 < (of_char c :: nat) \<and> (of_char c :: nat) < 97 \<or> 102 < (of_char c :: nat)
   \<Longrightarrow> c \<notin> set (hex_string k n)"
  using hex_digit_neq hex_string_chars by metis

lemma hex_digits_string:
  "0 < k \<or> prev \<Longrightarrow> hex_digits acc prev (hex_string k n) = Some (acc * 16 ^ k + n mod 16 ^ k)"
proof (induction k arbitrary: acc prev)
  case 0
  then show ?case by (simp add: hex_string_def)
next
  case (Suc k)
  let ?d = "(n div 16 ^ k) mod 16"
  have "hex_digits acc prev (hex_string (Suc k) n) =
      hex_digits acc prev (hex_digit ?d # hex_string k n)"
    by (simp add: hex_string_def)
  also have "\<dots> = hex_digits (acc * 16 + ?d) True (hex_string k n)"
    using hex_digit_neq [of ?d "CHR ''_''"] by (simp add: hex_value_digit)
  also have "\<dots> = Some ((acc * 16 + ?d) * 16 ^ k + n mod 16 ^ k)"
    using Suc.IH by simp
  also have "(acc * 16 + ?d) * 16 ^ k + n mod 16 ^ k = acc * 16 ^ Suc k + n mod 16 ^ Suc k"
    using mod_mult2_eq [of n "16 ^ k" 16] by (simp add: algebra_simps)
  finally show ?case .
qed

section \<open>UUIDs\<close>

type_synonym uuid = "128 word"

text \<open>\<open>str(u)\<close>: 32 lower-case hexadecimal digits in groups of 8, 4, 4, 4 and 12.\<close>

definition uuid_str :: "uuid \<Rightarrow> string" where
  "uuid_str u = (let h = hex_string 32 (unat u) in
     take 8 h @ ''-'' @ take 4 (drop 8 h) @ ''-'' @ take 4 (drop 12 h) @ ''-'' @
     take 4 (drop 16 h) @ ''-'' @ drop 20 h)"

text \<open>\<open>uuid.UUID(s)\<close>; \<open>None\<close> is the ValueError.\<close>

definition uuid_of_string :: "string \<Rightarrow> uuid option" where
  "uuid_of_string s =
     (let h = py_cut ''-'' (strip_where (\<lambda>c. c \<in> {CHR ''{'', CHR ''}''})
                (py_cut ''uuid:'' (py_cut ''urn:'' s)))
      in if length h \<noteq> 32 then None
         else case int_base16 h of
           None \<Rightarrow> None
         | Some n \<Rightarrow> if 0 \<le> n \<and> n < 2 ^ 128 then Some (word_of_int n) else None)"

lemma uuid_str_set: "c \<in> set (uuid_str u) \<Longrightarrow> c = CHR ''-'' \<or> c \<in> set (hex_string 32 (unat u))"
  by (auto simp: uuid_str_def Let_def dest!: in_set_takeD in_set_dropD)

lemma hex_string_not_space: "c \<in> set (hex_string k n) \<Longrightarrow> \<not> is_space c"
  by (auto dest!: hex_string_chars simp: is_space_def Let_def hex_digit_code split: if_splits)

lemma rejoin: "m + a = b \<Longrightarrow> take m (drop a h) @ drop b h = drop a h"
  by (metis append_take_drop_id drop_drop)

lemma uuid_str_digits: "filter (\<lambda>x. x \<noteq> CHR ''-'') (uuid_str u) = hex_string 32 (unat u)"
proof -
  let ?h = "hex_string 32 (unat u)"
  have keep: "filter (\<lambda>x. x \<noteq> CHR ''-'') t = t" if "set t \<subseteq> set ?h" for t
    using that hex_string_lacks [of "CHR ''-''" 32 "unat u"] by (auto simp: filter_id_conv)
  have "filter (\<lambda>x. x \<noteq> CHR ''-'') (uuid_str u) =
      take 8 ?h @ take 4 (drop 8 ?h) @ take 4 (drop 12 ?h) @ take 4 (drop 16 ?h) @ drop 20 ?h"
    by (simp add: uuid_str_def Let_def keep set_take_subset set_drop_subset
        order_trans [OF set_take_subset set_drop_subset])
  also have "\<dots> = ?h"
    by (simp add: rejoin)
  finally show ?thesis .
qed

lemma hex_string_hd_last:
  assumes "0 < k"
  shows "hd (hex_string k n) \<in> set (hex_string k n)" and "last (hex_string k n) \<in> set (hex_string k n)"
  using assms by (metis hd_in_set length_hex_string less_numeral_extra(3) list.size(3),
      metis last_in_set length_hex_string less_numeral_extra(3) list.size(3))

lemma int_base16_hex_string:
  assumes "0 < k"
  shows "int_base16 (hex_string k n) = Some (int (n mod 16 ^ k))"
proof -
  let ?h = "hex_string k n"
  have ne: "?h \<noteq> []" using assms length_hex_string by (metis list.size(3) less_numeral_extra(3))
  have "py_strip ?h = ?h"
    unfolding py_strip_def
    using ne hex_string_not_space [OF hex_string_hd_last(1) [OF assms]]
      hex_string_not_space [OF hex_string_hd_last(2) [OF assms]]
    by (intro strip_where_id) simp_all
  moreover have "unsigned16 ?h = Some (n mod 16 ^ k)"
  proof -
    have "CHR ''x'' \<notin> set ?h" and "CHR ''X'' \<notin> set ?h"
      by (rule hex_string_lacks, simp)+
    then have "\<not> py_startswith ?h ''0x''" and "\<not> py_startswith ?h ''0X''"
      unfolding py_startswith_def by (metis in_set_takeD list.set_intros(1,2))+
    then show ?thesis using assms by (simp add: unsigned16_def hex_digits_string)
  qed
  moreover have "hd ?h \<noteq> CHR ''-''" and "hd ?h \<noteq> CHR ''+''"
    using hex_string_hd_last(1) [OF assms, of n] hex_string_lacks [of "CHR ''-''" k n]
      hex_string_lacks [of "CHR ''+''" k n] by auto
  ultimately show ?thesis
    using ne by (cases ?h) (simp_all add: int_base16_def)
qed

text \<open>Printing a UUID and parsing it back gives the same UUID.\<close>

lemma uuid_str_chars:
  "c \<noteq> CHR ''-'' \<Longrightarrow> c \<notin> set (hex_string 32 (unat u)) \<Longrightarrow> c \<notin> set (uuid_str u)"
  using uuid_str_set by blast

lemma uuid_str_ends:
  "hd (uuid_str u) \<in> set (hex_string 32 (unat u))" "last (uuid_str u) \<in> set (hex_string 32 (unat u))"
proof -
  let ?h = "hex_string 32 (unat u)"
  have "take 8 ?h \<noteq> []" and "drop 20 ?h \<noteq> []"
    by (metis length_hex_string length_take list.size(3) min_def numeral_le_iff semiring_norm(69) zero_neq_numeral take_eq_Nil,
        simp)
  then show "hd (uuid_str u) \<in> set ?h" and "last (uuid_str u) \<in> set ?h"
    by (auto simp: uuid_str_def Let_def intro: in_set_takeD in_set_dropD
        dest: hd_in_set last_in_set)
qed

lemma uuid_str_nonempty: "uuid_str u \<noteq> []"
  by (simp add: uuid_str_def Let_def)

lemma uuid_str_strip: "py_strip (uuid_str u) = uuid_str u"
proof -
  have "\<not> is_space c" if "c \<in> set (hex_string 32 (unat u))" for c
    using hex_string_lacks [of c 32 "unat u"] that by (auto simp: is_space_def Let_def)
  with uuid_str_ends show ?thesis
    unfolding py_strip_def by (intro strip_where_id uuid_str_nonempty) auto
qed

lemma uuid_round_trip: "uuid_of_string (uuid_str u) = Some u"
proof -
  let ?s = "uuid_str u"
  have "CHR ''u'' \<notin> set ?s" and br: "CHR ''{'' \<notin> set ?s" "CHR ''}'' \<notin> set ?s"
    by (intro uuid_str_chars hex_string_lacks; simp)+
  then have cuts: "py_cut ''uuid:'' (py_cut ''urn:'' ?s) = ?s"
    by (simp add: py_cut_absent)
  have strip: "strip_where (\<lambda>c. c \<in> {CHR ''{'', CHR ''}''}) ?s = ?s"
    using uuid_str_nonempty br by (intro strip_where_id) (metis hd_in_set last_in_set insertE singletonD)+
  have "unat u < 2 ^ LENGTH(128)"
    by (rule unsigned_less)
  then have "unat u < 2 ^ 128" by simp
  then have bound: "unat u mod 16 ^ 32 = unat u"
    by (intro mod_less) simp
  have small: "int (unat u) < 2 ^ 128"
    using \<open>unat u < 2 ^ 128\<close> by (metis of_nat_less_iff of_nat_numeral of_nat_power)
  have "py_cut ''-'' ?s = hex_string 32 (unat u)"
    by (simp only: py_cut_char uuid_str_digits)
  moreover have "int_base16 (hex_string 32 (unat u)) = Some (int (unat u))"
    by (subst int_base16_hex_string, simp) (simp only: bound)
  ultimately show ?thesis
    unfolding uuid_of_string_def Let_def cuts strip using small by simp
qed

section \<open>Instants\<close>

text \<open>
  A timezone-aware UTC datetime is its number of microseconds since the epoch.
  \<open>int_timestamp\<close> is \<open>int(t.timestamp())\<close>, which truncates towards zero.
\<close>

type_synonym datetime = int

definition seconds :: "int \<Rightarrow> int" where
  "seconds n = n * 1000000"

definition days :: "int \<Rightarrow> int" where
  "days n = seconds (n * 86400)"

definition int_timestamp :: "datetime \<Rightarrow> int" where
  "int_timestamp t = (if 0 \<le> t then t div 1000000 else - ((- t) div 1000000))"

end
