(* ===== verification/Database.thy ===== *)
theory Database
  imports Python
begin

text \<open>
  The state of the service: the nine tables of \<open>app/domain/models\<close> as lists of
  rows in insertion order, the constraints PostgreSQL enforces on an INSERT into
  each, the exceptions of the three layers, and the environment, which gathers
  everything the code calls that is not part of the repository.
\<close>

section \<open>Exceptions\<close>

text \<open>
  \<open>sql_error\<close> are the SQLAlchemy exceptions that reach the code: a violated
  constraint, a value too long for its column, more than one row for
  \<open>scalar_one_or_none\<close>, and a \<open>session.refresh\<close> of a row that is gone. The other types are the classes of the source, with
  their message.
\<close>

datatype sql_error = IntegrityError | DataError | MultipleResultsFound | InvalidRequestError

datatype repository_error =
    DuplicateEmailError string
  | DuplicateRoleNameError string
  | DuplicateRoleAssignmentError string
  | DuplicateRolePermissionError string
  | DuplicateOrganizationNameError string
  | DuplicateMembershipError string

datatype domain_error =
    EmailAlreadyExistsError string
  | InvalidCredentialsError string
  | InactiveUserError string
  | InvalidRefreshTokenError string
  | RoleNotFoundError string
  | PermissionNotFoundError string
  | RoleNameAlreadyExistsError string
  | RoleAlreadyAssignedError string
  | PermissionAlreadyAssignedError string
  | OrganizationNotFoundError string
  | OrganizationNameAlreadyExistsError string
  | UserNotFoundError string
  | RoleOrganizationMismatchError string
  | UserNotOrganizationMemberError string
  | OrganizationMembershipAlreadyExistsError string

datatype python_error = KeyError | ValueError | TypeError | AttributeError

datatype exn =
    Sql sql_error
  | Repository repository_error
  | Domain domain_error
  | TokenValidationError string
  | Python python_error
  | HTTPException nat string

section \<open>Values and configuration\<close>

text \<open>JSON values, as far as audit metadata and token claims use them.\<close>

datatype json = JStr string | JBool bool | JInt int | JNull

type_synonym dict = "(string \<times> json) list"

record settings =
  app_name :: string
  environment :: string
  database_url :: string
  jwt_secret_key :: string
  jwt_algorithm :: string
  jwt_issuer :: string
  access_token_ttl_minutes :: int
  refresh_token_ttl_days :: int
  argon2_time_cost :: int
  argon2_memory_cost_kib :: int
  argon2_parallelism :: int

text \<open>The defaults of the class, for the three values that have none.\<close>

definition default_settings :: "string \<Rightarrow> string \<Rightarrow> settings" where
  "default_settings db key = \<lparr>
     app_name = ''SecureIAM'', environment = ''development'', database_url = db,
     jwt_secret_key = key, jwt_algorithm = ''HS256'', jwt_issuer = ''secureiam'',
     access_token_ttl_minutes = 15, refresh_token_ttl_days = 14,
     argon2_time_cost = 3, argon2_memory_cost_kib = 65536, argon2_parallelism = 4\<rparr>"

datatype argon2_error = VerifyMismatchError | VerificationError | InvalidHash

text \<open>
  The environment: the settings, the clocks, the random sources and the
  third-party functions. Random sources and clocks are indexed by the number of
  draws the run has made so far. \<open>jwt_decode\<close> takes the token, the key, the
  accepted algorithms, the issuer, the required claims and the current time, and
  is \<open>None\<close> where PyJWT raises a \<open>PyJWTError\<close>. \<open>collate\<close> is the database's string
  comparison, \<open>email_str\<close> the email validator's: the normalised address, or
  \<open>None\<close> where it rejects.
\<close>

record env =
  config :: settings
  gen_random_uuid :: "nat \<Rightarrow> uuid"
  db_now :: "nat \<Rightarrow> datetime"
  utc_clock :: "nat \<Rightarrow> datetime"
  uuid4 :: "nat \<Rightarrow> uuid"
  token_urlsafe :: "nat \<Rightarrow> string"
  sha256_hexdigest :: "string \<Rightarrow> string"
  argon2_hash :: "int \<times> int \<times> int \<Rightarrow> nat \<Rightarrow> string \<Rightarrow> string"
  argon2_verify :: "string \<Rightarrow> string \<Rightarrow> argon2_error + bool"
  jwt_encode :: "dict \<Rightarrow> string \<Rightarrow> string \<Rightarrow> string"
  jwt_decode :: "string \<Rightarrow> string \<Rightarrow> string list \<Rightarrow> string \<Rightarrow> string list \<Rightarrow> datetime \<Rightarrow> dict option"
  collate :: "string \<Rightarrow> string \<Rightarrow> bool"
  email_str :: "string \<Rightarrow> string option"

section \<open>Rows\<close>

record user =
  usr_id :: uuid
  usr_email :: string
  usr_password_hash :: string
  usr_is_active :: bool
  usr_is_email_verified :: bool
  usr_created_at :: datetime
  usr_updated_at :: datetime
  usr_last_login_at :: "datetime option"

record refresh_token =
  rt_id :: uuid
  rt_user_id :: uuid
  rt_token_hash :: string
  rt_issued_at :: datetime
  rt_expires_at :: datetime
  rt_revoked_at :: "datetime option"
  rt_replaced_by :: "uuid option"

record role =
  role_id :: uuid
  role_name :: string
  role_description :: "string option"
  role_is_system_role :: bool
  role_organization_id :: "uuid option"
  role_created_at :: datetime

record permission =
  perm_id :: uuid
  perm_resource :: string
  perm_action :: string
  perm_description :: "string option"

record role_permission =
  rp_role_id :: uuid
  rp_permission_id :: uuid

record user_role =
  ur_id :: uuid
  ur_user_id :: uuid
  ur_role_id :: uuid
  ur_organization_id :: "uuid option"
  ur_assigned_at :: datetime

record organization =
  org_id :: uuid
  org_name :: string
  org_created_at :: datetime

record organization_membership =
  mem_id :: uuid
  mem_user_id :: uuid
  mem_organization_id :: uuid
  mem_joined_at :: datetime

record audit_log =
  log_id :: uuid
  log_occurred_at :: datetime
  log_actor_user_id :: "uuid option"
  log_action :: string
  log_target_type :: "string option"
  log_target_id :: "uuid option"
  log_organization_id :: "uuid option"
  log_event_metadata :: "dict option"

record world =
  users :: "user list"
  refresh_tokens :: "refresh_token list"
  roles :: "role list"
  permissions :: "permission list"
  role_permissions :: "role_permission list"
  user_roles :: "user_role list"
  organizations :: "organization list"
  organization_memberships :: "organization_membership list"
  audit_logs :: "audit_log list"
  draws :: nat

text \<open>Updates of different tables commute; the simplifier keeps them in one order.\<close>

lemma world_update_order [simp]:
  fixes w :: world
  shows
  "users_update f1 (draws_update g1 w) = draws_update g1 (users_update f1 w)"
  "refresh_tokens_update f2 (draws_update g2 w) = draws_update g2 (refresh_tokens_update f2 w)"
  "roles_update f3 (draws_update g3 w) = draws_update g3 (roles_update f3 w)"
  "permissions_update f4 (draws_update g4 w) = draws_update g4 (permissions_update f4 w)"
  "role_permissions_update f5 (draws_update g5 w) = draws_update g5 (role_permissions_update f5 w)"
  "user_roles_update f6 (draws_update g6 w) = draws_update g6 (user_roles_update f6 w)"
  "organizations_update f7 (draws_update g7 w) = draws_update g7 (organizations_update f7 w)"
  "organization_memberships_update f8 (draws_update g8 w) = draws_update g8 (organization_memberships_update f8 w)"
  "audit_logs_update f9 (draws_update g9 w) = draws_update g9 (audit_logs_update f9 w)"
  "users_update f10 (audit_logs_update g10 w) = audit_logs_update g10 (users_update f10 w)"
  "refresh_tokens_update f11 (audit_logs_update g11 w) = audit_logs_update g11 (refresh_tokens_update f11 w)"
  "roles_update f12 (audit_logs_update g12 w) = audit_logs_update g12 (roles_update f12 w)"
  "permissions_update f13 (audit_logs_update g13 w) = audit_logs_update g13 (permissions_update f13 w)"
  "role_permissions_update f14 (audit_logs_update g14 w) = audit_logs_update g14 (role_permissions_update f14 w)"
  "user_roles_update f15 (audit_logs_update g15 w) = audit_logs_update g15 (user_roles_update f15 w)"
  "organizations_update f16 (audit_logs_update g16 w) = audit_logs_update g16 (organizations_update f16 w)"
  "organization_memberships_update f17 (audit_logs_update g17 w) = audit_logs_update g17 (organization_memberships_update f17 w)"
  "refresh_tokens_update f18 (users_update g18 w) = users_update g18 (refresh_tokens_update f18 w)"
  by (cases w; simp)+

type_synonym 'a py = "(world, exn, 'a) prog"

definition empty_world :: world where
  "empty_world = \<lparr>users = [], refresh_tokens = [], roles = [], permissions = [],
     role_permissions = [], user_roles = [], organizations = [],
     organization_memberships = [], audit_logs = [], draws = 0\<rparr>"

section \<open>Statements\<close>

text \<open>One value from a random source or a clock.\<close>

definition draw :: "(nat \<Rightarrow> 'a) \<Rightarrow> 'a py" where
  "draw source = (\<lambda>w. (Inr (source (draws w)), w\<lparr>draws := Suc (draws w)\<rparr>))"

text \<open>\<open>result.scalar_one_or_none()\<close> of the rows a query selects.\<close>

definition scalar_one_or_none :: "(world \<Rightarrow> 'r list) \<Rightarrow> 'r option py" where
  "scalar_one_or_none query = (\<lambda>w. case query w of
     [] \<Rightarrow> (Inr None, w)
   | [r] \<Rightarrow> (Inr (Some r), w)
   | _ \<Rightarrow> (Inl (Sql MultipleResultsFound), w))"

text \<open>\<open>session.refresh(row)\<close>: the row as it is stored now.\<close>

definition session_refresh :: "(world \<Rightarrow> 'r list) \<Rightarrow> 'r py" where
  "session_refresh query = (\<lambda>w. case query w of
     [] \<Rightarrow> (Inl (Sql InvalidRequestError), w)
   | r # _ \<Rightarrow> (Inr r, w))"

text \<open>
  INSERT and commit: a value too long for its column is a DataError, a violated
  primary key, unique index or foreign key is an IntegrityError; either way no
  row is stored.
\<close>

definition insert_row ::
  "('r \<Rightarrow> bool) \<Rightarrow> (world \<Rightarrow> 'r \<Rightarrow> bool) \<Rightarrow> ('r \<Rightarrow> world \<Rightarrow> world) \<Rightarrow> 'r \<Rightarrow> 'r py" where
  "insert_row fits consistent store r = (\<lambda>w.
     if \<not> fits r then (Inl (Sql DataError), w)
     else if \<not> consistent w r then (Inl (Sql IntegrityError), w)
     else (Inr r, store r w))"

text \<open>
  The INSERT of a row whose id and timestamp are the server defaults
  \<open>gen_random_uuid()\<close> and \<open>now()\<close>.
\<close>

definition insert_new ::
  "env \<Rightarrow> (uuid \<Rightarrow> datetime \<Rightarrow> 'r) \<Rightarrow> ('r \<Rightarrow> bool) \<Rightarrow> (world \<Rightarrow> 'r \<Rightarrow> bool) \<Rightarrow>
   ('r \<Rightarrow> world \<Rightarrow> world) \<Rightarrow> 'r py" where
  "insert_new X mk fits consistent store =
     and_then (draw (gen_random_uuid X)) (\<lambda>i.
     and_then (draw (db_now X)) (\<lambda>t.
     insert_row fits consistent store (mk i t)))"

text \<open>
  A unit of work with one commit at its end: an exception on the way leaves the
  tables as they were (the random sources have moved on).
\<close>

definition transaction :: "'a py \<Rightarrow> 'a py" where
  "transaction m = (\<lambda>w. case m w of
     (Inl e, w') \<Rightarrow> (Inl e, w\<lparr>draws := draws w'\<rparr>)
   | (Inr x, w') \<Rightarrow> (Inr x, w'))"

lemma draw_run [run_simps]: "draw f w = (Inr (f (draws w)), w\<lparr>draws := Suc (draws w)\<rparr>)"
  by (simp add: draw_def)

lemma scalar_one_or_none_state [simp]: "snd (scalar_one_or_none q w) = w"
  by (simp add: scalar_one_or_none_def split: list.splits)

lemma scalar_one_or_none_key:
  assumes "distinct (map k (rows w))"
  shows "scalar_one_or_none (\<lambda>w. filter (\<lambda>r. k r = v) (rows w)) w =
    (Inr (find (\<lambda>r. k r = v) (rows w)), w)"
  using filter_key [OF assms] by (simp add: scalar_one_or_none_def split: option.splits)

lemma insert_row_ok:
  "fits r \<Longrightarrow> consistent w r \<Longrightarrow> insert_row fits consistent store r w = (Inr r, store r w)"
  by (simp add: insert_row_def)

lemma insert_row_inconsistent:
  "fits r \<Longrightarrow> \<not> consistent w r \<Longrightarrow>
   insert_row fits consistent store r w = (Inl (Sql IntegrityError), w)"
  by (simp add: insert_row_def)

lemma insert_row_cases:
  assumes "insert_row fits consistent store r w = (x, w')"
  obtains (stored) "x = Inr r" "w' = store r w" "fits r" "consistent w r"
  | (rejected) e where "x = Inl (Sql e)" "w' = w" "e \<in> {IntegrityError, DataError}"
  using assms by (auto simp: insert_row_def split: if_splits)

lemma insert_new_run:
  "insert_new X mk fits consistent store w =
     insert_row fits consistent store (mk (gen_random_uuid X (draws w)) (db_now X (Suc (draws w))))
       (w\<lparr>draws := Suc (Suc (draws w))\<rparr>)"
  by (simp add: insert_new_def run_simps)

section \<open>Constraints of the tables\<close>

definition ids :: "('r \<Rightarrow> uuid) \<Rightarrow> 'r list \<Rightarrow> uuid set" where
  "ids k rows = k ` set rows"

lemma ids_simps [simp]:
  "ids k [] = {}" "ids k (rows @ rows') = ids k rows \<union> ids k rows'"
  "ids k (r # rows) = insert (k r) (ids k rows)"
  by (auto simp: ids_def)

text \<open>A nullable foreign key.\<close>

fun refers :: "uuid option \<Rightarrow> uuid set \<Rightarrow> bool" where
  "refers None S = True"
| "refers (Some i) S = (i \<in> S)"

definition user_fits :: "user \<Rightarrow> bool" where
  "user_fits u = (length (usr_email u) \<le> 255 \<and> length (usr_password_hash u) \<le> 255)"

definition user_consistent :: "world \<Rightarrow> user \<Rightarrow> bool" where
  "user_consistent w u =
     (usr_id u \<notin> ids usr_id (users w) \<and> usr_email u \<notin> usr_email ` set (users w))"

definition refresh_token_fits :: "refresh_token \<Rightarrow> bool" where
  "refresh_token_fits t = (length (rt_token_hash t) \<le> 64)"

definition refresh_token_consistent :: "world \<Rightarrow> refresh_token \<Rightarrow> bool" where
  "refresh_token_consistent w t =
     (rt_id t \<notin> ids rt_id (refresh_tokens w) \<and>
      rt_user_id t \<in> ids usr_id (users w) \<and>
      refers (rt_replaced_by t) (ids rt_id (refresh_tokens w)))"

definition role_fits :: "role \<Rightarrow> bool" where
  "role_fits r = (length (role_name r) \<le> 100)"

definition role_consistent :: "world \<Rightarrow> role \<Rightarrow> bool" where
  "role_consistent w r =
     (role_id r \<notin> ids role_id (roles w) \<and>
      role_name r \<notin> role_name ` set (roles w) \<and>
      refers (role_organization_id r) (ids org_id (organizations w)))"

definition permission_fits :: "permission \<Rightarrow> bool" where
  "permission_fits p = (length (perm_resource p) \<le> 100 \<and> length (perm_action p) \<le> 100)"

definition permission_consistent :: "world \<Rightarrow> permission \<Rightarrow> bool" where
  "permission_consistent w p =
     (perm_id p \<notin> ids perm_id (permissions w) \<and>
      (perm_resource p, perm_action p) \<notin>
        (\<lambda>q. (perm_resource q, perm_action q)) ` set (permissions w))"

definition role_permission_consistent :: "world \<Rightarrow> role_permission \<Rightarrow> bool" where
  "role_permission_consistent w m =
     ((rp_role_id m, rp_permission_id m) \<notin>
        (\<lambda>n. (rp_role_id n, rp_permission_id n)) ` set (role_permissions w) \<and>
      rp_role_id m \<in> ids role_id (roles w) \<and>
      rp_permission_id m \<in> ids perm_id (permissions w))"

text \<open>
  The two partial unique indexes of \<open>user_roles\<close>: one over the global
  assignments, one over the organization-scoped ones.
\<close>

definition uq_user_roles_user_role_global :: "world \<Rightarrow> user_role \<Rightarrow> bool" where
  "uq_user_roles_user_role_global w a =
     (ur_organization_id a = None \<longrightarrow>
      (\<forall>b \<in> set (user_roles w). ur_organization_id b = None \<longrightarrow>
        (ur_user_id b, ur_role_id b) \<noteq> (ur_user_id a, ur_role_id a)))"

definition uq_user_roles_user_role_org :: "world \<Rightarrow> user_role \<Rightarrow> bool" where
  "uq_user_roles_user_role_org w a =
     (ur_organization_id a \<noteq> None \<longrightarrow>
      (\<forall>b \<in> set (user_roles w). ur_organization_id b \<noteq> None \<longrightarrow>
        (ur_user_id b, ur_role_id b, ur_organization_id b) \<noteq>
        (ur_user_id a, ur_role_id a, ur_organization_id a)))"

definition user_role_consistent :: "world \<Rightarrow> user_role \<Rightarrow> bool" where
  "user_role_consistent w a =
     (ur_id a \<notin> ids ur_id (user_roles w) \<and>
      uq_user_roles_user_role_global w a \<and>
      uq_user_roles_user_role_org w a \<and>
      ur_user_id a \<in> ids usr_id (users w) \<and>
      ur_role_id a \<in> ids role_id (roles w) \<and>
      refers (ur_organization_id a) (ids org_id (organizations w)))"

definition organization_fits :: "organization \<Rightarrow> bool" where
  "organization_fits g = (length (org_name g) \<le> 255)"

definition organization_consistent :: "world \<Rightarrow> organization \<Rightarrow> bool" where
  "organization_consistent w g =
     (org_id g \<notin> ids org_id (organizations w) \<and>
      org_name g \<notin> org_name ` set (organizations w))"

definition membership_consistent :: "world \<Rightarrow> organization_membership \<Rightarrow> bool" where
  "membership_consistent w m =
     (mem_id m \<notin> ids mem_id (organization_memberships w) \<and>
      (mem_user_id m, mem_organization_id m) \<notin>
        (\<lambda>n. (mem_user_id n, mem_organization_id n)) ` set (organization_memberships w) \<and>
      mem_user_id m \<in> ids usr_id (users w) \<and>
      mem_organization_id m \<in> ids org_id (organizations w))"

fun opt_length_le :: "string option \<Rightarrow> nat \<Rightarrow> bool" where
  "opt_length_le None n = True"
| "opt_length_le (Some s) n = (length s \<le> n)"

definition audit_log_fits :: "audit_log \<Rightarrow> bool" where
  "audit_log_fits l = (length (log_action l) \<le> 100 \<and> opt_length_le (log_target_type l) 100)"

definition audit_log_consistent :: "world \<Rightarrow> audit_log \<Rightarrow> bool" where
  "audit_log_consistent w l =
     (log_id l \<notin> ids log_id (audit_logs w) \<and>
      refers (log_actor_user_id l) (ids usr_id (users w)) \<and>
      refers (log_organization_id l) (ids org_id (organizations w)))"

text \<open>\<open>f"{organization_id}"\<close> of an optional id.\<close>

fun opt_uuid_str :: "uuid option \<Rightarrow> string" where
  "opt_uuid_str None = ''None''"
| "opt_uuid_str (Some u) = uuid_str u"

section \<open>Well-formed databases\<close>

text \<open>
  \<open>keys_unique\<close>: every primary key and unique index holds. \<open>refs_ok\<close>: every
  foreign key refers to a row.
\<close>

definition assignment_key :: "user_role \<Rightarrow> uuid \<times> uuid \<times> uuid option" where
  "assignment_key a = (ur_user_id a, ur_role_id a, ur_organization_id a)"

definition membership_key :: "organization_membership \<Rightarrow> uuid \<times> uuid" where
  "membership_key m = (mem_user_id m, mem_organization_id m)"

definition grant_key :: "role_permission \<Rightarrow> uuid \<times> uuid" where
  "grant_key m = (rp_role_id m, rp_permission_id m)"

definition permission_key :: "permission \<Rightarrow> string \<times> string" where
  "permission_key p = (perm_resource p, perm_action p)"

definition keys_unique :: "world \<Rightarrow> bool" where
  "keys_unique w =
     (distinct (map usr_id (users w)) \<and> distinct (map usr_email (users w)) \<and>
      distinct (map rt_id (refresh_tokens w)) \<and>
      distinct (map role_id (roles w)) \<and> distinct (map role_name (roles w)) \<and>
      distinct (map perm_id (permissions w)) \<and> distinct (map permission_key (permissions w)) \<and>
      distinct (map grant_key (role_permissions w)) \<and>
      distinct (map ur_id (user_roles w)) \<and> distinct (map assignment_key (user_roles w)) \<and>
      distinct (map org_id (organizations w)) \<and> distinct (map org_name (organizations w)) \<and>
      distinct (map mem_id (organization_memberships w)) \<and>
      distinct (map membership_key (organization_memberships w)) \<and>
      distinct (map log_id (audit_logs w)))"

definition refs_ok :: "world \<Rightarrow> bool" where
  "refs_ok w =
     ((\<forall>t \<in> set (refresh_tokens w). rt_user_id t \<in> ids usr_id (users w) \<and>
         refers (rt_replaced_by t) (ids rt_id (refresh_tokens w))) \<and>
      (\<forall>r \<in> set (roles w). refers (role_organization_id r) (ids org_id (organizations w))) \<and>
      (\<forall>m \<in> set (role_permissions w). rp_role_id m \<in> ids role_id (roles w) \<and>
         rp_permission_id m \<in> ids perm_id (permissions w)) \<and>
      (\<forall>a \<in> set (user_roles w). ur_user_id a \<in> ids usr_id (users w) \<and>
         ur_role_id a \<in> ids role_id (roles w) \<and>
         refers (ur_organization_id a) (ids org_id (organizations w))) \<and>
      (\<forall>m \<in> set (organization_memberships w). mem_user_id m \<in> ids usr_id (users w) \<and>
         mem_organization_id m \<in> ids org_id (organizations w)) \<and>
      (\<forall>l \<in> set (audit_logs w). refers (log_actor_user_id l) (ids usr_id (users w)) \<and>
         refers (log_organization_id l) (ids org_id (organizations w))))"

text \<open>
  \<open>ids_drawn\<close>: every id of the database was handed out by the id source, so
  the source's next values are new as long as it does not repeat itself
  (\<open>collision_free\<close>, for the first \<open>n\<close> draws).
\<close>

definition world_ids :: "world \<Rightarrow> uuid set" where
  "world_ids w = ids usr_id (users w) \<union> ids rt_id (refresh_tokens w) \<union> ids role_id (roles w) \<union>
     ids perm_id (permissions w) \<union> ids ur_id (user_roles w) \<union> ids org_id (organizations w) \<union>
     ids mem_id (organization_memberships w) \<union> ids log_id (audit_logs w)"

definition ids_drawn :: "env \<Rightarrow> world \<Rightarrow> bool" where
  "ids_drawn X w = (world_ids w \<subseteq> gen_random_uuid X ` {..<draws w})"

definition collision_free :: "env \<Rightarrow> nat \<Rightarrow> bool" where
  "collision_free X n =
     (inj_on (gen_random_uuid X) {..<n} \<and>
      inj_on (\<lambda>i. sha256_hexdigest X (token_urlsafe X i)) {..<n})"

lemma collision_free_mono: "collision_free X n \<Longrightarrow> m \<le> n \<Longrightarrow> collision_free X m"
  unfolding collision_free_def by (meson inj_on_subset lessThan_subset_iff)

lemma fresh_id:
  assumes "ids_drawn X w" and "collision_free X n" and "draws w \<le> k" and "k < n"
  shows "gen_random_uuid X k \<notin> world_ids w"
proof
  assume "gen_random_uuid X k \<in> world_ids w"
  with assms(1) obtain j where "j < draws w" and "gen_random_uuid X k = gen_random_uuid X j"
    by (auto simp: ids_drawn_def)
  moreover have "inj_on (gen_random_uuid X) {..<n}"
    using assms(2) by (simp add: collision_free_def)
  ultimately show False
    using assms(3,4) by (metis inj_onD leD lessThan_iff order.strict_trans2 less_le_trans order_less_imp_le)
qed

end
