(* ===== verification/Security.thy ===== *)
theory Security
  imports Database
begin

text \<open>
  \<open>app/core/security.py\<close>, \<open>app/core/time.py\<close> and the action names of
  \<open>app/domain/audit_actions.py\<close>: hashing and verifying passwords, issuing and
  decoding access tokens, generating and hashing refresh tokens, lifetimes.
\<close>

section \<open>Clock, passwords, tokens\<close>

definition utc_now :: "env \<Rightarrow> datetime py" where
  "utc_now X = draw (utc_clock X)"

definition password_hasher :: "env \<Rightarrow> int \<times> int \<times> int" where
  "password_hasher X =
     (argon2_time_cost (config X), argon2_memory_cost_kib (config X), argon2_parallelism (config X))"

definition hash_password :: "env \<Rightarrow> string \<Rightarrow> string py" where
  "hash_password X password = draw (\<lambda>salt. argon2_hash X (password_hasher X) salt password)"

definition verify_password :: "env \<Rightarrow> string \<Rightarrow> string \<Rightarrow> bool" where
  "verify_password X password password_hash =
     (case argon2_verify X password_hash password of
        Inr ok \<Rightarrow> ok
      | Inl VerifyMismatchError \<Rightarrow> False
      | Inl VerificationError \<Rightarrow> False
      | Inl InvalidHash \<Rightarrow> False)"

definition access_token_payload :: "env \<Rightarrow> string \<Rightarrow> datetime \<Rightarrow> uuid \<Rightarrow> dict" where
  "access_token_payload X user_id now jti =
     [(''sub'', JStr user_id),
      (''type'', JStr ''access''),
      (''iat'', JInt (int_timestamp now)),
      (''exp'', JInt (int_timestamp (now + seconds (access_token_ttl_minutes (config X) * 60)))),
      (''jti'', JStr (uuid_str jti)),
      (''iss'', JStr (jwt_issuer (config X)))]"

definition create_access_token :: "env \<Rightarrow> string \<Rightarrow> string py" where
  "create_access_token X user_id =
     and_then (utc_now X) (\<lambda>now.
     and_then (draw (uuid4 X)) (\<lambda>jti.
     pure (jwt_encode X (access_token_payload X user_id now jti)
             (jwt_secret_key (config X)) (jwt_algorithm (config X)))))"

definition required_claims :: "string list" where
  "required_claims = [''exp'', ''iat'', ''sub'', ''iss'', ''jti'', ''type'']"

definition decode_access_token :: "env \<Rightarrow> string \<Rightarrow> dict py" where
  "decode_access_token X token =
     and_then (utc_now X) (\<lambda>now.
     case jwt_decode X token (jwt_secret_key (config X)) [jwt_algorithm (config X)]
            (jwt_issuer (config X)) required_claims now of
       None \<Rightarrow> raise (TokenValidationError ''Invalid or expired token'')
     | Some payload \<Rightarrow> pure payload)"

definition generate_refresh_token :: "env \<Rightarrow> string py" where
  "generate_refresh_token X = draw (token_urlsafe X)"

definition hash_refresh_token :: "env \<Rightarrow> string \<Rightarrow> string" where
  "hash_refresh_token X token = sha256_hexdigest X token"

definition access_token_ttl_seconds :: "env \<Rightarrow> int" where
  "access_token_ttl_seconds X = access_token_ttl_minutes (config X) * 60"

definition refresh_token_expiry :: "env \<Rightarrow> datetime py" where
  "refresh_token_expiry X =
     and_then (utc_now X) (\<lambda>now. pure (now + days (refresh_token_ttl_days (config X))))"

lemma verify_password_iff:
  "verify_password X password h \<longleftrightarrow> argon2_verify X h password = Inr True"
  by (auto simp: verify_password_def split: sum.splits argon2_error.splits)

text \<open>The assumptions on the hash functions: the lengths and the verification Argon2 promises.\<close>

definition argon2_ok :: "env \<Rightarrow> bool" where
  "argon2_ok X = (\<forall>salt p. length (argon2_hash X (password_hasher X) salt p) \<le> 255 \<and>
     argon2_verify X (argon2_hash X (password_hasher X) salt p) p = Inr True)"

definition sha256_ok :: "env \<Rightarrow> bool" where
  "sha256_ok X = (\<forall>s. length (sha256_hexdigest X s) = 64)"

text \<open>
  What PyJWT promises of a token it has signed and that has not expired: decoding
  succeeds and returns the subject.
\<close>

definition jwt_accepts :: "env \<Rightarrow> dict \<Rightarrow> datetime \<Rightarrow> bool" where
  "jwt_accepts X payload now =
     (\<exists>decoded. jwt_decode X
        (jwt_encode X payload (jwt_secret_key (config X)) (jwt_algorithm (config X)))
        (jwt_secret_key (config X)) [jwt_algorithm (config X)] (jwt_issuer (config X))
        required_claims now = Some decoded \<and>
      map_of decoded ''sub'' = map_of payload ''sub'')"

section \<open>Audit action names\<close>

definition USER_REGISTERED :: string where "USER_REGISTERED = ''user.registered''"
definition USER_REGISTRATION_FAILED :: string where
  "USER_REGISTRATION_FAILED = ''user.registration_failed''"
definition USER_LOGIN_SUCCEEDED :: string where "USER_LOGIN_SUCCEEDED = ''user.login_succeeded''"
definition USER_LOGIN_FAILED :: string where "USER_LOGIN_FAILED = ''user.login_failed''"
definition USER_LOGOUT :: string where "USER_LOGOUT = ''user.logout''"
definition REFRESH_TOKEN_ROTATED :: string where
  "REFRESH_TOKEN_ROTATED = ''refresh_token.rotated''"
definition REFRESH_TOKEN_REJECTED :: string where
  "REFRESH_TOKEN_REJECTED = ''refresh_token.rejected''"
definition REFRESH_TOKEN_REUSE_DETECTED :: string where
  "REFRESH_TOKEN_REUSE_DETECTED = ''refresh_token.reuse_detected''"
definition REFRESH_TOKEN_FAMILY_REVOKED :: string where
  "REFRESH_TOKEN_FAMILY_REVOKED = ''refresh_token.family_revoked''"
definition ROLE_CREATED :: string where "ROLE_CREATED = ''role.created''"
definition ROLE_ASSIGNED :: string where "ROLE_ASSIGNED = ''role.assigned''"
definition ROLE_REVOKED :: string where "ROLE_REVOKED = ''role.revoked''"
definition PERMISSION_ASSIGNED_TO_ROLE :: string where
  "PERMISSION_ASSIGNED_TO_ROLE = ''permission.assigned_to_role''"
definition PERMISSION_REMOVED_FROM_ROLE :: string where
  "PERMISSION_REMOVED_FROM_ROLE = ''permission.removed_from_role''"
definition ORGANIZATION_CREATED :: string where "ORGANIZATION_CREATED = ''organization.created''"
definition ORGANIZATION_MEMBER_ADDED :: string where
  "ORGANIZATION_MEMBER_ADDED = ''organization.member_added''"
definition ORGANIZATION_MEMBER_REMOVED :: string where
  "ORGANIZATION_MEMBER_REMOVED = ''organization.member_removed''"

lemmas audit_action_defs =
  USER_REGISTERED_def USER_REGISTRATION_FAILED_def USER_LOGIN_SUCCEEDED_def USER_LOGIN_FAILED_def
  USER_LOGOUT_def REFRESH_TOKEN_ROTATED_def REFRESH_TOKEN_REJECTED_def
  REFRESH_TOKEN_REUSE_DETECTED_def REFRESH_TOKEN_FAMILY_REVOKED_def ROLE_CREATED_def
  ROLE_ASSIGNED_def ROLE_REVOKED_def PERMISSION_ASSIGNED_TO_ROLE_def
  PERMISSION_REMOVED_FROM_ROLE_def ORGANIZATION_CREATED_def ORGANIZATION_MEMBER_ADDED_def
  ORGANIZATION_MEMBER_REMOVED_def

section \<open>What drawing from the environment changes\<close>

text \<open>
  \<open>quiet\<close>: the program reads the tables and draws values, no more. Every
  security function is quiet, so whatever is said of the tables survives it.
\<close>

definition tables :: "world \<Rightarrow> world" where
  "tables w = w\<lparr>draws := 0\<rparr>"

definition quiet :: "world \<Rightarrow> world \<Rightarrow> bool" where
  "quiet w w' = (tables w' = tables w \<and> draws w \<le> draws w')"

interpretation quieting: history quiet
  by unfold_locales (auto simp: quiet_def)

lemma quiet_iff: "quiet w w' \<longleftrightarrow> (\<exists>n \<ge> draws w. w' = w\<lparr>draws := n\<rparr>)"
proof
  assume "quiet w w'"
  then have "w' = w\<lparr>draws := draws w'\<rparr>" and "draws w \<le> draws w'"
    by (cases w; cases w'; simp add: quiet_def tables_def)+
  then show "\<exists>n \<ge> draws w. w' = w\<lparr>draws := n\<rparr>" by blast
qed (auto simp: quiet_def tables_def)

lemma draw_quiet: "obeys quiet (draw f)"
  by (auto simp: obeys_def quiet_def tables_def run_simps)

lemma utc_now_quiet: "obeys quiet (utc_now X)"
  by (simp add: utc_now_def draw_quiet)

lemma hash_password_quiet: "obeys quiet (hash_password X p)"
  by (simp add: hash_password_def draw_quiet)

lemma create_access_token_quiet: "obeys quiet (create_access_token X u)"
  unfolding create_access_token_def
  by (intro quieting.rules utc_now_quiet draw_quiet)

lemma decode_access_token_quiet: "obeys quiet (decode_access_token X t)"
  unfolding decode_access_token_def
  by (intro quieting.rules utc_now_quiet)

lemma generate_refresh_token_quiet: "obeys quiet (generate_refresh_token X)"
  by (simp add: generate_refresh_token_def draw_quiet)

lemma refresh_token_expiry_quiet: "obeys quiet (refresh_token_expiry X)"
  unfolding refresh_token_expiry_def
  by (intro quieting.rules utc_now_quiet)

lemmas security_quiet = draw_quiet utc_now_quiet hash_password_quiet create_access_token_quiet
  decode_access_token_quiet generate_refresh_token_quiet refresh_token_expiry_quiet

lemma scalar_one_or_none_quiet: "obeys quiet (scalar_one_or_none q)"
  by (simp add: obeys_def quieting.refl)

lemma reads_quiet: "obeys quiet (reads f)"
  by (rule quieting.reads)

end
