(* ===== verification/Integrity.thy ===== *)
theory Integrity
  imports Security
begin

text \<open>
  \<open>db_ok\<close>: the integrity of the database (unique keys, foreign keys, ids from the
  id source) and the rule by which a statement is shown to keep it: an INSERT
  keeps it because of the constraints PostgreSQL checks, a DELETE because the
  deleted rows are referred to by nothing.
\<close>

definition db_ok :: "env \<Rightarrow> world \<Rightarrow> bool" where
  "db_ok X w = (keys_unique w \<and> refs_ok w \<and> ids_drawn X w)"

lemma db_okI: "keys_unique w \<Longrightarrow> refs_ok w \<Longrightarrow> ids_drawn X w \<Longrightarrow> db_ok X w"
  by (simp add: db_ok_def)

lemma db_ok_keys: "db_ok X w \<Longrightarrow> keys_unique w"
  by (simp add: db_ok_def)

section \<open>Inserting one row\<close>

lemma insert_new_obeys:
  fixes R :: "world \<Rightarrow> world \<Rightarrow> bool"
  assumes R: "\<And>w. R w w" "\<And>s t u. R s t \<Longrightarrow> R t u \<Longrightarrow> R s u"
    and q: "\<And>w n. draws w \<le> n \<Longrightarrow> R w (w\<lparr>draws := n\<rparr>)"
    and st: "\<And>w i t. i \<in> gen_random_uuid X ` {..<draws w} \<Longrightarrow> fits (mk i t) \<Longrightarrow>
      consistent w (mk i t) \<Longrightarrow> R w (store (mk i t) w)"
  shows "obeys R (insert_new X mk fits consistent store)"
proof (rule obeysI)
  fix w :: world and res w'
  let ?w1 = "w\<lparr>draws := Suc (Suc (draws w))\<rparr>"
  let ?i = "gen_random_uuid X (draws w)"
  assume "insert_new X mk fits consistent store w = (res, w')"
  then have ins: "insert_row fits consistent store (mk ?i (db_now X (Suc (draws w)))) ?w1 = (res, w')"
    by (simp only: insert_new_run)
  have q1: "R w ?w1" by (rule q) simp
  have i: "?i \<in> gen_random_uuid X ` {..<draws ?w1}" by simp
  show "R w w'"
    using ins
  proof (cases rule: insert_row_cases)
    case stored
    with st [OF i] q1 R(2) show ?thesis by blast
  next
    case rejected
    with q1 show ?thesis by simp
  qed
qed

lemmas insert_new_keeps =
  insert_new_obeys [where R = "keeps I" for I, OF keeping.refl keeping.trans]
lemmas insert_new_same = insert_new_obeys [where R = "same f" for f, OF framing.refl framing.trans]
lemmas insert_new_grows = insert_new_obeys [where R = "grows f" for f, OF growing.refl growing.trans]

text \<open>
  The INSERT of the repositories: an IntegrityError becomes the repository's own
  exception, every other exception passes.
\<close>

definition insert_reporting ::
  "env \<Rightarrow> (uuid \<Rightarrow> datetime \<Rightarrow> 'r) \<Rightarrow> ('r \<Rightarrow> bool) \<Rightarrow> (world \<Rightarrow> 'r \<Rightarrow> bool) \<Rightarrow>
   ('r \<Rightarrow> world \<Rightarrow> world) \<Rightarrow> repository_error \<Rightarrow> 'r py" where
  "insert_reporting X mk fits consistent store err =
     try_except (insert_new X mk fits consistent store)
       (\<lambda>e. if e = Sql IntegrityError then Some (raise (Repository err)) else None)"

lemma insert_reporting_run:
  assumes "\<And>r n. consistent (w\<lparr>draws := n\<rparr>) r = consistent w r"
  shows "insert_reporting X mk fits consistent store err w =
    (let r = mk (gen_random_uuid X (draws w)) (db_now X (Suc (draws w)));
         w1 = w\<lparr>draws := Suc (Suc (draws w))\<rparr>
     in if \<not> fits r then (Inl (Sql DataError), w1)
        else if \<not> consistent w r then (Inl (Repository err), w1)
        else (Inr r, store r w1))"
  using assms
  by (simp add: insert_reporting_def try_except_run insert_new_run insert_row_def raise_run Let_def)

lemma insert_reporting_cases:
  assumes "insert_reporting X mk fits consistent store err w = (res, w')"
    and "\<And>r n. consistent (w\<lparr>draws := n\<rparr>) r = consistent w r"
  obtains (stored) r where "res = Inr r" "w' = store r (w\<lparr>draws := Suc (Suc (draws w))\<rparr>)"
      "r = mk (gen_random_uuid X (draws w)) (db_now X (Suc (draws w)))" "consistent w r"
  | (rejected) e where "res = Inl e" "w' = w\<lparr>draws := Suc (Suc (draws w))\<rparr>"
      "e \<in> {Repository err, Sql DataError}"
  using assms(1) that unfolding insert_reporting_run [OF assms(2)]
  by (auto simp: Let_def split: if_splits)

lemma insert_reporting_obeys:
  assumes "history R" and "obeys R (insert_new X mk fits consistent store)"
  shows "obeys R (insert_reporting X mk fits consistent store err)"
  unfolding insert_reporting_def
  by (rule history.try_except [OF assms(1,2)])
    (auto intro: history.raise [OF assms(1)] split: if_splits)

lemma insert_reporting_keeps:
  assumes "\<And>w n. draws w \<le> n \<Longrightarrow> I w \<Longrightarrow> I (w\<lparr>draws := n\<rparr>)"
    and "\<And>w i t. i \<in> gen_random_uuid X ` {..<draws w} \<Longrightarrow> consistent w (mk i t) \<Longrightarrow> I w \<Longrightarrow>
      I (store (mk i t) w)"
  shows "obeys (keeps I) (insert_reporting X mk fits consistent store err)"
  by (rule insert_reporting_obeys [OF keeping.history_axioms], rule insert_new_keeps)
    (use assms in \<open>simp_all add: keeps_def\<close>)

lemma insert_reporting_same:
  assumes "\<And>w n. f (w\<lparr>draws := n\<rparr>) = f w" and "\<And>w r. f (store r w) = f w"
  shows "obeys (same f) (insert_reporting X mk fits consistent store err)"
  by (rule insert_reporting_obeys [OF framing.history_axioms], rule insert_new_same)
    (use assms in \<open>simp_all add: same_def\<close>)

lemma db_ok_draws: "draws w \<le> n \<Longrightarrow> db_ok X w \<Longrightarrow> db_ok X (w\<lparr>draws := n\<rparr>)"
proof -
  assume n: "draws w \<le> n" and ok: "db_ok X w"
  have "gen_random_uuid X ` {..<draws w} \<subseteq> gen_random_uuid X ` {..<n}"
    using n by (intro image_mono) simp
  moreover have "world_ids (w\<lparr>draws := n\<rparr>) = world_ids w"
    by (simp add: world_ids_def)
  ultimately have "ids_drawn X (w\<lparr>draws := n\<rparr>)"
    using ok by (auto simp: db_ok_def ids_drawn_def)
  with ok show "db_ok X (w\<lparr>draws := n\<rparr>)"
    by (simp add: db_ok_def keys_unique_def refs_ok_def)
qed

lemma db_ok_quiet: "quiet w w' \<Longrightarrow> db_ok X w \<Longrightarrow> db_ok X w'"
  by (auto simp: quiet_iff db_ok_draws)

lemma quiet_keeps_db_ok: "obeys quiet m \<Longrightarrow> obeys (keeps (db_ok X)) m"
  by (erule obeys_mono) (simp add: keeps_def db_ok_quiet)

lemma quiet_same: "obeys quiet m \<Longrightarrow> (\<And>w n. f (w\<lparr>draws := n\<rparr>) = f w) \<Longrightarrow> obeys (same f) m"
  by (erule obeys_mono) (auto simp: same_def quiet_iff)

lemma quiet_grows: "obeys quiet m \<Longrightarrow> (\<And>w n. f (w\<lparr>draws := n\<rparr>) = f w) \<Longrightarrow> obeys (grows f) m"
  by (erule obeys_mono) (auto simp: grows_def quiet_iff)

text \<open>Widening the set a reference may point into keeps it valid.\<close>

lemma refers_mono: "refers v S \<Longrightarrow> S \<subseteq> T \<Longrightarrow> refers v T"
  by (cases v) auto

lemma db_ok_insert_user:
  assumes ok: "db_ok X w" and c: "user_consistent w u"
    and i: "usr_id u \<in> gen_random_uuid X ` {..<draws w}"
  shows "db_ok X (w\<lparr>users := users w @ [u]\<rparr>)"
proof (rule db_okI)
  show "keys_unique (w\<lparr>users := users w @ [u]\<rparr>)"
    using ok c by (auto simp: db_ok_def keys_unique_def user_consistent_def ids_def)
  show "refs_ok (w\<lparr>users := users w @ [u]\<rparr>)"
    using ok by (auto simp: db_ok_def refs_ok_def intro: refers_mono)
  show "ids_drawn X (w\<lparr>users := users w @ [u]\<rparr>)"
    using ok i by (auto simp: db_ok_def ids_drawn_def world_ids_def)
qed

lemma db_ok_insert_token:
  assumes ok: "db_ok X w" and c: "refresh_token_consistent w t"
    and i: "rt_id t \<in> gen_random_uuid X ` {..<draws w}"
  shows "db_ok X (w\<lparr>refresh_tokens := refresh_tokens w @ [t]\<rparr>)"
proof (rule db_okI)
  show "keys_unique (w\<lparr>refresh_tokens := refresh_tokens w @ [t]\<rparr>)"
    using ok c by (auto simp: db_ok_def keys_unique_def refresh_token_consistent_def ids_def)
  show "refs_ok (w\<lparr>refresh_tokens := refresh_tokens w @ [t]\<rparr>)"
    using ok c by (auto simp: db_ok_def refs_ok_def refresh_token_consistent_def intro: refers_mono)
  show "ids_drawn X (w\<lparr>refresh_tokens := refresh_tokens w @ [t]\<rparr>)"
    using ok i by (auto simp: db_ok_def ids_drawn_def world_ids_def)
qed

lemma db_ok_insert_role:
  assumes ok: "db_ok X w" and c: "role_consistent w r"
    and i: "role_id r \<in> gen_random_uuid X ` {..<draws w}"
  shows "db_ok X (w\<lparr>roles := roles w @ [r]\<rparr>)"
proof (rule db_okI)
  show "keys_unique (w\<lparr>roles := roles w @ [r]\<rparr>)"
    using ok c by (auto simp: db_ok_def keys_unique_def role_consistent_def ids_def)
  show "refs_ok (w\<lparr>roles := roles w @ [r]\<rparr>)"
    using ok c by (auto simp: db_ok_def refs_ok_def role_consistent_def)
  show "ids_drawn X (w\<lparr>roles := roles w @ [r]\<rparr>)"
    using ok i by (auto simp: db_ok_def ids_drawn_def world_ids_def)
qed

lemma db_ok_insert_permission:
  assumes ok: "db_ok X w" and c: "permission_consistent w p"
    and i: "perm_id p \<in> gen_random_uuid X ` {..<draws w}"
  shows "db_ok X (w\<lparr>permissions := permissions w @ [p]\<rparr>)"
proof (rule db_okI)
  show "keys_unique (w\<lparr>permissions := permissions w @ [p]\<rparr>)"
    using ok c by (auto simp: db_ok_def keys_unique_def permission_consistent_def permission_key_def ids_def)
  show "refs_ok (w\<lparr>permissions := permissions w @ [p]\<rparr>)"
    using ok by (auto simp: db_ok_def refs_ok_def)
  show "ids_drawn X (w\<lparr>permissions := permissions w @ [p]\<rparr>)"
    using ok i by (auto simp: db_ok_def ids_drawn_def world_ids_def)
qed

lemma db_ok_insert_role_permission:
  assumes ok: "db_ok X w" and c: "role_permission_consistent w m"
  shows "db_ok X (w\<lparr>role_permissions := role_permissions w @ [m]\<rparr>)"
proof (rule db_okI)
  show "keys_unique (w\<lparr>role_permissions := role_permissions w @ [m]\<rparr>)"
    using ok c by (auto simp: db_ok_def keys_unique_def role_permission_consistent_def grant_key_def)
  show "refs_ok (w\<lparr>role_permissions := role_permissions w @ [m]\<rparr>)"
    using ok c by (auto simp: db_ok_def refs_ok_def role_permission_consistent_def)
  show "ids_drawn X (w\<lparr>role_permissions := role_permissions w @ [m]\<rparr>)"
    using ok by (auto simp: db_ok_def ids_drawn_def world_ids_def)
qed

text \<open>The two partial indexes together make the whole assignment key unique.\<close>

lemma partial_indexes_key:
  "uq_user_roles_user_role_global w a \<and> uq_user_roles_user_role_org w a \<longleftrightarrow>
   assignment_key a \<notin> assignment_key ` set (user_roles w)"
  unfolding uq_user_roles_user_role_global_def uq_user_roles_user_role_org_def assignment_key_def
  by (auto simp: image_iff) (metis option.exhaust)+

lemma db_ok_insert_user_role:
  assumes ok: "db_ok X w" and c: "user_role_consistent w a"
    and i: "ur_id a \<in> gen_random_uuid X ` {..<draws w}"
  shows "db_ok X (w\<lparr>user_roles := user_roles w @ [a]\<rparr>)"
proof (rule db_okI)
  have "assignment_key a \<notin> assignment_key ` set (user_roles w)"
    using c by (simp add: user_role_consistent_def flip: partial_indexes_key)
  then show "keys_unique (w\<lparr>user_roles := user_roles w @ [a]\<rparr>)"
    using ok c by (auto simp: db_ok_def keys_unique_def user_role_consistent_def ids_def)
  show "refs_ok (w\<lparr>user_roles := user_roles w @ [a]\<rparr>)"
    using ok c by (auto simp: db_ok_def refs_ok_def user_role_consistent_def)
  show "ids_drawn X (w\<lparr>user_roles := user_roles w @ [a]\<rparr>)"
    using ok i by (auto simp: db_ok_def ids_drawn_def world_ids_def)
qed

lemma db_ok_insert_organization:
  assumes ok: "db_ok X w" and c: "organization_consistent w g"
    and i: "org_id g \<in> gen_random_uuid X ` {..<draws w}"
  shows "db_ok X (w\<lparr>organizations := organizations w @ [g]\<rparr>)"
proof (rule db_okI)
  show "keys_unique (w\<lparr>organizations := organizations w @ [g]\<rparr>)"
    using ok c by (auto simp: db_ok_def keys_unique_def organization_consistent_def ids_def)
  show "refs_ok (w\<lparr>organizations := organizations w @ [g]\<rparr>)"
    using ok by (auto simp: db_ok_def refs_ok_def intro: refers_mono)
  show "ids_drawn X (w\<lparr>organizations := organizations w @ [g]\<rparr>)"
    using ok i by (auto simp: db_ok_def ids_drawn_def world_ids_def)
qed

lemma db_ok_insert_membership:
  assumes ok: "db_ok X w" and c: "membership_consistent w m"
    and i: "mem_id m \<in> gen_random_uuid X ` {..<draws w}"
  shows "db_ok X (w\<lparr>organization_memberships := organization_memberships w @ [m]\<rparr>)"
proof (rule db_okI)
  show "keys_unique (w\<lparr>organization_memberships := organization_memberships w @ [m]\<rparr>)"
    using ok c by (auto simp: db_ok_def keys_unique_def membership_consistent_def membership_key_def ids_def)
  show "refs_ok (w\<lparr>organization_memberships := organization_memberships w @ [m]\<rparr>)"
    using ok c by (auto simp: db_ok_def refs_ok_def membership_consistent_def)
  show "ids_drawn X (w\<lparr>organization_memberships := organization_memberships w @ [m]\<rparr>)"
    using ok i by (auto simp: db_ok_def ids_drawn_def world_ids_def)
qed

lemma db_ok_insert_audit_log:
  assumes ok: "db_ok X w" and c: "audit_log_consistent w l"
    and i: "log_id l \<in> gen_random_uuid X ` {..<draws w}"
  shows "db_ok X (w\<lparr>audit_logs := audit_logs w @ [l]\<rparr>)"
proof (rule db_okI)
  show "keys_unique (w\<lparr>audit_logs := audit_logs w @ [l]\<rparr>)"
    using ok c by (auto simp: db_ok_def keys_unique_def audit_log_consistent_def ids_def)
  show "refs_ok (w\<lparr>audit_logs := audit_logs w @ [l]\<rparr>)"
    using ok c by (auto simp: db_ok_def refs_ok_def audit_log_consistent_def)
  show "ids_drawn X (w\<lparr>audit_logs := audit_logs w @ [l]\<rparr>)"
    using ok i by (auto simp: db_ok_def ids_drawn_def world_ids_def)
qed

section \<open>Deleting and updating rows\<close>

lemma ids_filter: "ids k (filter P rows) \<subseteq> ids k rows"
  by (auto simp: ids_def)

lemma db_ok_delete_role_permission:
  "db_ok X w \<Longrightarrow> db_ok X (w\<lparr>role_permissions := filter P (role_permissions w)\<rparr>)"
  by (auto simp: db_ok_def keys_unique_def refs_ok_def ids_drawn_def world_ids_def
      distinct_map_filter)

lemma db_ok_delete_user_role:
  "db_ok X w \<Longrightarrow> db_ok X (w\<lparr>user_roles := filter P (user_roles w)\<rparr>)"
  using ids_filter [of ur_id P "user_roles w"]
  by (auto simp: db_ok_def keys_unique_def refs_ok_def ids_drawn_def world_ids_def
      distinct_map_filter)

lemma db_ok_delete_membership:
  "db_ok X w \<Longrightarrow>
   db_ok X (w\<lparr>organization_memberships := filter P (organization_memberships w)\<rparr>)"
  using ids_filter [of mem_id P "organization_memberships w"]
  by (auto simp: db_ok_def keys_unique_def refs_ok_def ids_drawn_def world_ids_def
      distinct_map_filter)

lemma db_ok_update_users:
  assumes ok: "db_ok X w" and k: "\<And>u. usr_id (f u) = usr_id u" "\<And>u. usr_email (f u) = usr_email u"
  shows "db_ok X (w\<lparr>users := update_where P f (users w)\<rparr>)"
proof -
  have m: "map usr_id (update_where P f (users w)) = map usr_id (users w)"
    "map usr_email (update_where P f (users w)) = map usr_email (users w)"
    using k by (auto intro!: update_where_map)
  have s: "ids usr_id (update_where P f (users w)) = ids usr_id (users w)"
    using m(1) by (metis ids_def list.set_map)
  from ok show ?thesis
    by (simp add: db_ok_def keys_unique_def refs_ok_def ids_drawn_def world_ids_def m s)
qed

end
