(* ===== verification/Interfaces.thy ===== *)
theory Interfaces
  imports Integrity
begin

text \<open>
  The contracts between repositories and services, as locales over the state:
  an entity table with a natural key (users by email, organizations and roles by
  name) and a link table that is a set of keys (memberships, role assignments,
  role permissions). The repositories interpret them; the services' proofs use
  the facts derived here once.
\<close>

section \<open>Entities with a natural key\<close>

locale entity_store =
  fixes create :: "'d \<Rightarrow> 'r py"
    and lookup :: "'k \<Rightarrow> 'r option py"
    and rows :: "world \<Rightarrow> 'r list"
    and key :: "'r \<Rightarrow> 'k"
    and key_of :: "'d \<Rightarrow> 'k"
    and norm :: "'k \<Rightarrow> 'k"
  assumes create_cases: "create d w = (res, w') \<Longrightarrow>
      (\<exists>r. res = Inr r \<and> rows w' = rows w @ [r] \<and> key r = norm (key_of d) \<and>
           key r \<notin> key ` set (rows w)) \<or>
      (\<exists>e. res = Inl e \<and> rows w' = rows w)"
    and lookup_run: "distinct (map key (rows w)) \<Longrightarrow>
      lookup k w = (Inr (find (\<lambda>r. key r = norm k) (rows w)), w)"
begin

lemma create_ok:
  "create d w = (Inr r, w') \<Longrightarrow>
   rows w' = rows w @ [r] \<and> key r = norm (key_of d) \<and> key r \<notin> key ` set (rows w)"
  using create_cases by fastforce

lemma create_failed: "create d w = (Inl e, w') \<Longrightarrow> rows w' = rows w"
  using create_cases by fastforce

lemma create_keeps_distinct: "obeys (keeps (\<lambda>w. distinct (map key (rows w)))) (create d)"
  by (rule obeysI) (auto simp: keeps_def dest!: create_cases)

lemma lookup_created:
  assumes "distinct (map key (rows w))" and "create d w = (Inr r, w')"
    and "norm k = norm (key_of d)"
  shows "lookup k w' = (Inr (Some r), w')"
proof -
  from create_ok [OF assms(2)] assms(1) have d: "distinct (map key (rows w'))" and
    r: "r \<in> set (rows w')" and k: "key r = norm k"
    using assms(3) by auto
  from find_key_unique [OF d r] k show ?thesis
    by (simp add: lookup_run [OF d])
qed

lemma lookup_other:
  assumes "distinct (map key (rows w))" and "create d w = (res, w')"
    and "norm k \<noteq> norm (key_of d)"
  shows "fst (lookup k w') = fst (lookup k w)"
proof -
  from obeysD [OF create_keeps_distinct assms(2)] assms(1)
  have d: "distinct (map key (rows w'))" by (simp add: keeps_def)
  from create_cases [OF assms(2)] assms(3) show ?thesis
    by (auto simp: lookup_run [OF d] lookup_run [OF assms(1)] find_append split: option.splits)
qed

lemma create_taken:
  assumes "norm (key_of d) \<in> key ` set (rows w)"
  shows "returned (create d w) = None"
proof (cases "create d w")
  case (Pair res w')
  with create_cases [OF Pair] assms show ?thesis by auto
qed

lemma create_twice:
  assumes "create d w = (Inr r, w')" and "norm (key_of d') = norm (key_of d)"
  shows "returned (create d' w') = None"
  using create_ok [OF assms(1)] assms(2) by (intro create_taken) auto

lemma lookup_none_iff:
  "distinct (map key (rows w)) \<Longrightarrow>
   lookup k w = (Inr None, w) \<longleftrightarrow> norm k \<notin> key ` set (rows w)"
  by (simp add: lookup_run find_None_iff image_iff) metis

end

section \<open>Links as a set of keys\<close>

locale link_store =
  fixes add :: "'k \<Rightarrow> 'x py"
    and remove :: "'k \<Rightarrow> bool py"
    and rows :: "world \<Rightarrow> 'r list"
    and key :: "'r \<Rightarrow> 'k"
    and good :: "world \<Rightarrow> bool"
  assumes good_distinct: "good w \<Longrightarrow> distinct (map key (rows w))"
    and add_keeps: "obeys (keeps good) (add k)"
    and remove_keeps: "obeys (keeps good) (remove k)"
    and add_cases: "add k w = (res, w') \<Longrightarrow>
      (\<exists>x r. res = Inr x \<and> rows w' = rows w @ [r] \<and> key r = k \<and> k \<notin> key ` set (rows w)) \<or>
      (\<exists>e. res = Inl e \<and> rows w' = rows w)"
    and remove_run: "good w \<Longrightarrow>
      fst (remove k w) = Inr (k \<in> key ` set (rows w)) \<and>
      rows (snd (remove k w)) = filter (\<lambda>r. key r \<noteq> k) (rows w)"
begin

lemma add_ok:
  assumes "add k w = (Inr x, w')"
  shows "\<exists>r. rows w' = rows w @ [r] \<and> key r = k \<and> k \<notin> key ` set (rows w)"
  using add_cases [OF assms] by auto

lemma add_failed: "add k w = (Inl e, w') \<Longrightarrow> rows w' = rows w"
  using add_cases by fastforce

lemma add_links:
  "add k w = (Inr x, w') \<Longrightarrow> key ` set (rows w') = insert k (key ` set (rows w))"
  by (auto dest!: add_ok)

lemma remove_links:
  assumes "good w"
  shows "key ` set (rows (snd (remove k w))) = key ` set (rows w) - {k}"
  using remove_run [OF assms, of k] by auto

lemma add_present: "k \<in> key ` set (rows w) \<Longrightarrow> returned (add k w) = None"
  using add_cases [of k w "fst (add k w)" "snd (add k w)"]
  by (auto simp: returned_def split: sum.splits)

lemma remove_returns:
  "good w \<Longrightarrow> returned (remove k w) = Some (k \<in> key ` set (rows w))"
  using remove_run by (simp add: returned_def)

text \<open>A link store is a set of keys: \<open>add\<close> inserts, \<open>remove\<close> deletes.\<close>

lemma good_after_remove: "good w \<Longrightarrow> good (snd (remove k w))"
  using obeys_keepsD [OF remove_keeps] .

text \<open>Adding a link and removing it again restores the table.\<close>

lemma add_remove:
  assumes "good w" and "add k w = (Inr x, w')"
  shows "returned (remove k w') = Some True \<and> rows (snd (remove k w')) = rows w"
proof -
  from add_ok [OF assms(2)] obtain r where
    r: "rows w' = rows w @ [r]" "key r = k" "k \<notin> key ` set (rows w)" by auto
  have d: "good w'" using obeysD [OF add_keeps assms(2)] assms(1) by (simp add: keeps_def)
  have "filter (\<lambda>q. key q \<noteq> k) (rows w) = rows w"
    using r(3) by (auto simp: filter_id_conv)
  with remove_run [OF d, of k] r show ?thesis by (simp add: returned_def)
qed

text \<open>A second removal finds nothing and changes nothing.\<close>

lemma remove_twice:
  assumes "good w"
  shows "returned (remove k (snd (remove k w))) = Some False \<and>
    rows (snd (remove k (snd (remove k w)))) = rows (snd (remove k w))"
proof -
  let ?w = "snd (remove k w)"
  have d: "good ?w" using obeys_keepsD [OF remove_keeps assms] .
  from remove_run [OF assms, of k] have "k \<notin> key ` set (rows ?w)" by auto
  moreover from this have "filter (\<lambda>q. key q \<noteq> k) (rows ?w) = rows ?w"
    by (auto simp: filter_id_conv)
  ultimately show ?thesis using remove_run [OF d, of k] by (simp add: returned_def)
qed

lemma remove_others:
  assumes "good w" and "key r \<noteq> k"
  shows "r \<in> set (rows (snd (remove k w))) \<longleftrightarrow> r \<in> set (rows w)"
  using remove_run [OF assms(1), of k] assms(2) by simp

end

text \<open>A link table that also answers membership questions.\<close>

locale queried_link_store = link_store +
  fixes member :: "'a \<Rightarrow> bool py"
  assumes member_run: "good w \<Longrightarrow>
      member k w = (Inr (k \<in> key ` set (rows w)), w)"
begin

lemma member_added:
  assumes "good w" and "add k w = (Inr x, w')"
  shows "returned (member k w') = Some True"
proof -
  have d: "good w'"
    using obeysD [OF add_keeps assms(2)] assms(1) by (simp add: keeps_def)
  with add_links [OF assms(2)] show ?thesis by (simp add: member_run)
qed

lemma member_removed:
  assumes "good w"
  shows "returned (member k (snd (remove k w))) = Some False"
proof -
  have "good (snd (remove k w))"
    using obeys_keepsD [OF remove_keeps] assms by blast
  with remove_links [OF assms] show ?thesis by (simp add: member_run)
qed

lemma member_other:
  assumes "good w" and "add k w = (res, w')" and "j \<noteq> k"
  shows "returned (member j w') = returned (member j w)"
proof -
  have "good w'"
    using obeysD [OF add_keeps assms(2)] assms(1) by (simp add: keeps_def)
  with add_cases [OF assms(2)] assms(1,3) show ?thesis by (auto simp: member_run)
qed

end

end
