(* ===== verification/User_Repository.thy ===== *)
theory User_Repository
  imports Interfaces
begin

text \<open>
  \<open>app/repositories/user_repository.py\<close>: creating a user under a lower-cased
  email, the two lookups, and the stamp of the last login.
\<close>

definition new_user :: "string \<Rightarrow> string \<Rightarrow> uuid \<Rightarrow> datetime \<Rightarrow> user" where
  "new_user email password_hash i t =
     \<lparr>usr_id = i, usr_email = email, usr_password_hash = password_hash, usr_is_active = True,
      usr_is_email_verified = False, usr_created_at = t, usr_updated_at = t,
      usr_last_login_at = None\<rparr>"

definition store_user :: "user \<Rightarrow> world \<Rightarrow> world" where
  "store_user u w = w\<lparr>users := users w @ [u]\<rparr>"

definition create_user :: "env \<Rightarrow> string \<Rightarrow> string \<Rightarrow> user py" where
  "create_user X email password_hash =
     insert_reporting X (new_user (py_lower email) password_hash) user_fits user_consistent
       store_user (DuplicateEmailError (''Email already registered: '' @ py_lower email))"

lemma user_consistent_draws [simp]: "user_consistent (w\<lparr>draws := n\<rparr>) u = user_consistent w u"
  by (simp add: user_consistent_def)

definition user_get_by_email :: "string \<Rightarrow> user option py" where
  "user_get_by_email email =
     scalar_one_or_none (\<lambda>w. filter (\<lambda>u. usr_email u = py_lower email) (users w))"

definition user_get_by_id :: "uuid \<Rightarrow> user option py" where
  "user_get_by_id user_id =
     scalar_one_or_none (\<lambda>w. filter (\<lambda>u. usr_id u = user_id) (users w))"

text \<open>The UPDATE also fires the \<open>onupdate=func.now()\<close> of \<open>updated_at\<close>.\<close>

definition update_last_login :: "env \<Rightarrow> user \<Rightarrow> user py" where
  "update_last_login X u =
     and_then (utc_now X) (\<lambda>t.
     and_then (draw (db_now X)) (\<lambda>now.
     let stamp = (\<lambda>v. v\<lparr>usr_last_login_at := Some t, usr_updated_at := now\<rparr>) in
     (\<lambda>w. (Inr (stamp u), w\<lparr>users := update_where (\<lambda>v. usr_id v = usr_id u) stamp (users w)\<rparr>))))"

section \<open>What the operations do\<close>

lemma create_user_run [op_run]:
  assumes "db_ok X w" and "collision_free X n" and "draws w < n"
    and "length email \<le> 255" and "length password_hash \<le> 255"
  shows "create_user X email password_hash w =
    (let u = new_user (py_lower email) password_hash (gen_random_uuid X (draws w)) (db_now X (Suc (draws w)))
     in if py_lower email \<in> usr_email ` set (users w)
        then (Inl (Repository (DuplicateEmailError (''Email already registered: '' @ py_lower email))),
              w\<lparr>draws := Suc (Suc (draws w))\<rparr>)
        else (Inr u, w\<lparr>users := users w @ [u], draws := Suc (Suc (draws w))\<rparr>))"
proof -
  have "gen_random_uuid X (draws w) \<notin> ids usr_id (users w)"
    using fresh_id [of X w n "draws w"] assms(1-3) by (auto simp: db_ok_def world_ids_def)
  with assms(4,5) show ?thesis
    by (simp add: create_user_def insert_reporting_run user_fits_def user_consistent_def
        new_user_def store_user_def Let_def)
qed

lemma create_user_cases:
  assumes "create_user X email password_hash w = (res, w')"
  obtains (stored) u where "res = Inr u" "w' = w\<lparr>users := users w @ [u], draws := Suc (Suc (draws w))\<rparr>"
      "u = new_user (py_lower email) password_hash (gen_random_uuid X (draws w)) (db_now X (Suc (draws w)))"
      "user_consistent w u"
  | (rejected) e where "res = Inl e" "w' = w\<lparr>draws := Suc (Suc (draws w))\<rparr>"
      "e \<in> {Repository (DuplicateEmailError (''Email already registered: '' @ py_lower email)),
            Sql DataError}"
  using assms unfolding create_user_def
  by (cases rule: insert_reporting_cases) (auto simp: store_user_def intro: that)

lemma user_get_by_email_run [op_run]:
  "db_ok X w \<Longrightarrow> user_get_by_email email w =
    (Inr (find (\<lambda>u. usr_email u = py_lower email) (users w)), w)"
  unfolding user_get_by_email_def
  by (rule scalar_one_or_none_key) (simp add: db_ok_def keys_unique_def)

lemma user_get_by_id_run [op_run]:
  "db_ok X w \<Longrightarrow> user_get_by_id i w = (Inr (find (\<lambda>u. usr_id u = i) (users w)), w)"
  unfolding user_get_by_id_def
  by (rule scalar_one_or_none_key) (simp add: db_ok_def keys_unique_def)

lemma update_last_login_run [op_run]:
  "update_last_login X u w =
    (let stamp = (\<lambda>v. v\<lparr>usr_last_login_at := Some (utc_clock X (draws w)),
                        usr_updated_at := db_now X (Suc (draws w))\<rparr>)
     in (Inr (stamp u),
         w\<lparr>users := update_where (\<lambda>v. usr_id v = usr_id u) stamp (users w),
           draws := Suc (Suc (draws w))\<rparr>))"
  by (simp add: update_last_login_def utc_now_def run_simps Let_def)

section \<open>What they leave alone\<close>

lemma create_user_keeps: "obeys (keeps (db_ok X)) (create_user X email h)"
  unfolding create_user_def
  by (rule insert_reporting_keeps)
    (simp_all add: db_ok_draws new_user_def store_user_def db_ok_insert_user)

lemma create_user_same:
  assumes "\<And>w n. f (w\<lparr>draws := n\<rparr>) = f w" and "\<And>w us. f (w\<lparr>users := us\<rparr>) = f w"
  shows "obeys (same f) (create_user X email h)"
  unfolding create_user_def by (rule insert_reporting_same) (simp_all add: assms store_user_def)

lemma user_get_quiet: "obeys quiet (user_get_by_email email)" "obeys quiet (user_get_by_id i)"
  by (simp_all add: user_get_by_email_def user_get_by_id_def scalar_one_or_none_quiet)

lemma update_last_login_keeps: "obeys (keeps (db_ok X)) (update_last_login X u)"
proof (rule obeysI)
  fix w r w'
  assume "update_last_login X u w = (r, w')"
  then have "w' = (w\<lparr>users := update_where (\<lambda>v. usr_id v = usr_id u)
      (\<lambda>v. v\<lparr>usr_last_login_at := Some (utc_clock X (draws w)), usr_updated_at := db_now X (Suc (draws w))\<rparr>)
      (users w)\<rparr>)\<lparr>draws := Suc (Suc (draws w))\<rparr>"
    by (simp add: update_last_login_run Let_def)
  then show "keeps (db_ok X) w w'"
    unfolding keeps_def by (auto intro!: db_ok_draws db_ok_update_users)
qed

lemma update_last_login_same:
  assumes "\<And>w n. f (w\<lparr>draws := n\<rparr>) = f w" and "\<And>w us. f (w\<lparr>users := us\<rparr>) = f w"
  shows "obeys (same f) (update_last_login X u)"
  using assms by (simp add: obeys_def same_def update_last_login_run Let_def)

text \<open>The user table is an entity store keyed by the lower-cased email.\<close>

interpretation user_store: entity_store
  "\<lambda>d. create_user X (fst d) (snd d)" user_get_by_email users usr_email fst py_lower
  for X :: env
proof
  fix d :: "string \<times> string" and w :: world and res w'
  assume "create_user X (fst d) (snd d) w = (res, w')"
  then show "(\<exists>r. res = Inr r \<and> users w' = users w @ [r] \<and> usr_email r = py_lower (fst d) \<and>
      usr_email r \<notin> usr_email ` set (users w)) \<or> (\<exists>e. res = Inl e \<and> users w' = users w)"
    by (cases rule: create_user_cases) (auto simp: user_consistent_def new_user_def)
next
  fix k and w :: world
  assume "distinct (map usr_email (users w))"
  then show "user_get_by_email k w = (Inr (find (\<lambda>r. usr_email r = py_lower k) (users w)), w)"
    unfolding user_get_by_email_def by (rule scalar_one_or_none_key)
qed

end
