(* ===== verification/Refresh_Token_Repository.thy ===== *)
theory Refresh_Token_Repository
  imports Interfaces
begin

text \<open>
  \<open>app/repositories/refresh_token_repository.py\<close>: the refresh tokens and their
  rotation chains. Rotation and family revocation are guarded by a conditional
  UPDATE; \<open>linked\<close> is the shape of the chains that the guards maintain.
\<close>

section \<open>Operations\<close>

definition new_refresh_token ::
  "uuid \<Rightarrow> string \<Rightarrow> datetime \<Rightarrow> uuid \<Rightarrow> datetime \<Rightarrow> refresh_token" where
  "new_refresh_token user_id token_hash expires_at i t =
     \<lparr>rt_id = i, rt_user_id = user_id, rt_token_hash = token_hash, rt_issued_at = t,
      rt_expires_at = expires_at, rt_revoked_at = None, rt_replaced_by = None\<rparr>"

definition store_refresh_token :: "refresh_token \<Rightarrow> world \<Rightarrow> world" where
  "store_refresh_token t w = w\<lparr>refresh_tokens := refresh_tokens w @ [t]\<rparr>"

definition refresh_token_create :: "env \<Rightarrow> uuid \<Rightarrow> string \<Rightarrow> datetime \<Rightarrow> refresh_token py" where
  "refresh_token_create X user_id token_hash expires_at =
     insert_new X (new_refresh_token user_id token_hash expires_at)
       refresh_token_fits refresh_token_consistent store_refresh_token"

definition token_get_by_hash :: "string \<Rightarrow> refresh_token option py" where
  "token_get_by_hash token_hash =
     scalar_one_or_none (\<lambda>w. filter (\<lambda>t. rt_token_hash t = token_hash) (refresh_tokens w))"

definition token_get_by_id :: "uuid \<Rightarrow> refresh_token option py" where
  "token_get_by_id token_id =
     scalar_one_or_none (\<lambda>w. filter (\<lambda>t. rt_id t = token_id) (refresh_tokens w))"

definition token_refresh :: "refresh_token \<Rightarrow> refresh_token py" where
  "token_refresh t = session_refresh (\<lambda>w. filter (\<lambda>r. rt_id r = rt_id t) (refresh_tokens w))"

text \<open>\<open>UPDATE refresh_tokens SET ... WHERE ...\<close>, with its row count.\<close>

definition update_tokens ::
  "(refresh_token \<Rightarrow> bool) \<Rightarrow> (refresh_token \<Rightarrow> refresh_token) \<Rightarrow> nat py" where
  "update_tokens P f = (\<lambda>w. (Inr (length (filter P (refresh_tokens w))),
     w\<lparr>refresh_tokens := update_where P f (refresh_tokens w)\<rparr>))"

definition set_revoked :: "datetime \<Rightarrow> refresh_token \<Rightarrow> refresh_token" where
  "set_revoked now t = t\<lparr>rt_revoked_at := Some now\<rparr>"

definition set_replaced :: "uuid \<Rightarrow> refresh_token \<Rightarrow> refresh_token" where
  "set_replaced i t = t\<lparr>rt_replaced_by := Some i\<rparr>"

definition revoke :: "env \<Rightarrow> refresh_token \<Rightarrow> refresh_token py" where
  "revoke X token =
     and_then (utc_now X) (\<lambda>now.
     and_then (update_tokens (\<lambda>r. rt_id r = rt_id token) (set_revoked now)) (\<lambda>_.
     token_refresh token))"

text \<open>The guard of every contested revocation: \<open>WHERE id = :id AND revoked_at IS NULL\<close>.\<close>

definition unrevoked_row :: "uuid \<Rightarrow> refresh_token \<Rightarrow> bool" where
  "unrevoked_row i r = (rt_id r = i \<and> rt_revoked_at r = None)"

definition create_rotation_pair ::
  "env \<Rightarrow> refresh_token \<Rightarrow> string \<Rightarrow> datetime \<Rightarrow> refresh_token option py" where
  "create_rotation_pair X old_token new_token_hash new_expires_at =
     transaction
      (and_then (utc_now X) (\<lambda>now.
       and_then (update_tokens (unrevoked_row (rt_id old_token)) (set_revoked now)) (\<lambda>rowcount.
       if rowcount = 0 then pure None
       else
         and_then (refresh_token_create X (rt_user_id old_token) new_token_hash new_expires_at)
           (\<lambda>new_token.
         and_then (update_tokens (\<lambda>r. rt_id r = rt_id old_token) (set_replaced (rt_id new_token)))
           (\<lambda>_. pure (Some new_token))))))"

definition MAX_FAMILY_WALK_STEPS :: nat where
  "MAX_FAMILY_WALK_STEPS = 25"

text \<open>The loop of \<open>revoke_descendants\<close>; the first argument counts the iterations left.\<close>

fun family_walk :: "nat \<Rightarrow> env \<Rightarrow> uuid \<Rightarrow> refresh_token option py" where
  "family_walk 0 X next_id = pure None"
| "family_walk (Suc k) X next_id =
     and_then (token_get_by_id next_id) (\<lambda>found.
     case found of
       None \<Rightarrow> pure None
     | Some candidate \<Rightarrow>
         (case rt_replaced_by candidate of
            Some i \<Rightarrow> family_walk k X i
          | None \<Rightarrow>
              and_then (utc_now X) (\<lambda>now.
              and_then (update_tokens (unrevoked_row (rt_id candidate)) (set_revoked now)) (\<lambda>rowcount.
              if rowcount = 0 then
                and_then (token_get_by_id (rt_id candidate)) (\<lambda>refreshed.
                case refreshed of
                  None \<Rightarrow> pure None
                | Some r \<Rightarrow>
                    (case rt_replaced_by r of None \<Rightarrow> pure None | Some i \<Rightarrow> family_walk k X i))
              else and_then (token_refresh candidate) (\<lambda>r. pure (Some r))))))"

definition revoke_descendants :: "env \<Rightarrow> refresh_token \<Rightarrow> refresh_token option py" where
  "revoke_descendants X token =
     (case rt_replaced_by token of
        None \<Rightarrow> pure None
      | Some next_id \<Rightarrow> family_walk MAX_FAMILY_WALK_STEPS X next_id)"

section \<open>The shape of the chains\<close>

text \<open>
  \<open>linked\<close>: a token with a successor is revoked, and its successor is a later row
  of the same user. \<open>single_parent\<close>: no token is the successor of two.
\<close>

definition succ_ok :: "refresh_token \<Rightarrow> refresh_token list \<Rightarrow> bool" where
  "succ_ok t later = (case rt_replaced_by t of
     None \<Rightarrow> True
   | Some i \<Rightarrow> rt_revoked_at t \<noteq> None \<and>
       (\<exists>s \<in> set later. rt_id s = i \<and> rt_user_id s = rt_user_id t))"

fun linked :: "refresh_token list \<Rightarrow> bool" where
  "linked [] = True"
| "linked (t # ts) = (succ_ok t ts \<and> linked ts)"

definition single_parent :: "refresh_token list \<Rightarrow> bool" where
  "single_parent ts = (\<forall>s \<in> set ts. \<forall>t \<in> set ts.
     rt_replaced_by s \<noteq> None \<longrightarrow> rt_replaced_by s = rt_replaced_by t \<longrightarrow> rt_id s = rt_id t)"

definition chains_ok :: "world \<Rightarrow> bool" where
  "chains_ok w = (linked (refresh_tokens w) \<and> single_parent (refresh_tokens w))"

text \<open>
  The leaf of a chain within \<open>n\<close> rows of the row with a given id: what the family
  walk looks for, written without the database.
\<close>

fun leaf_within :: "refresh_token list \<Rightarrow> nat \<Rightarrow> uuid \<Rightarrow> refresh_token option" where
  "leaf_within ts 0 i = None"
| "leaf_within ts (Suc n) i =
     (case find (\<lambda>t. rt_id t = i) ts of
        None \<Rightarrow> None
      | Some t \<Rightarrow> (case rt_replaced_by t of None \<Rightarrow> Some t | Some j \<Rightarrow> leaf_within ts n j))"

text \<open>The row reached after exactly \<open>n\<close> successor steps.\<close>

fun hop :: "refresh_token list \<Rightarrow> nat \<Rightarrow> uuid \<Rightarrow> refresh_token option" where
  "hop ts 0 i = find (\<lambda>t. rt_id t = i) ts"
| "hop ts (Suc n) i =
     (case find (\<lambda>t. rt_id t = i) ts of
        None \<Rightarrow> None
      | Some t \<Rightarrow> (case rt_replaced_by t of None \<Rightarrow> None | Some j \<Rightarrow> hop ts n j))"

section \<open>Facts about chains\<close>

lemma set_revoked_simps [simp]:
  "rt_id (set_revoked now t) = rt_id t" "rt_user_id (set_revoked now t) = rt_user_id t"
  "rt_replaced_by (set_revoked now t) = rt_replaced_by t"
  "rt_revoked_at (set_revoked now t) = Some now"
  "rt_token_hash (set_revoked now t) = rt_token_hash t"
  "rt_expires_at (set_revoked now t) = rt_expires_at t"
  by (simp_all add: set_revoked_def)

lemma set_replaced_simps [simp]:
  "rt_id (set_replaced i t) = rt_id t" "rt_user_id (set_replaced i t) = rt_user_id t"
  "rt_replaced_by (set_replaced i t) = Some i"
  "rt_revoked_at (set_replaced i t) = rt_revoked_at t"
  "rt_token_hash (set_replaced i t) = rt_token_hash t"
  "rt_expires_at (set_replaced i t) = rt_expires_at t"
  by (simp_all add: set_replaced_def)

lemma succ_ok_mono: "succ_ok t ys \<Longrightarrow> set ys \<subseteq> set zs \<Longrightarrow> succ_ok t zs"
  by (auto simp: succ_ok_def split: option.splits)

lemma linked_split: "linked (xs @ t # ys) \<Longrightarrow> succ_ok t ys"
  by (induction xs) auto

lemma linked_revoked:
  "linked ts \<Longrightarrow> t \<in> set ts \<Longrightarrow> rt_revoked_at t = None \<Longrightarrow> rt_replaced_by t = None"
  by (auto dest!: split_list linked_split simp: succ_ok_def split: option.splits)

lemma linked_snoc: "linked ts \<Longrightarrow> rt_replaced_by n = None \<Longrightarrow> linked (ts @ [n])"
  by (induction ts) (auto simp: succ_ok_def split: option.splits)

lemma succ_ok_map:
  assumes "succ_ok t ys" and "rt_replaced_by t' = rt_replaced_by t" and "rt_user_id t' = rt_user_id t"
    and "rt_revoked_at t \<noteq> None \<Longrightarrow> rt_revoked_at t' \<noteq> None"
    and "\<And>s. s \<in> set ys \<Longrightarrow> rt_id (g s) = rt_id s \<and> rt_user_id (g s) = rt_user_id s"
    and "g ` set ys \<subseteq> set zs"
  shows "succ_ok t' zs"
  using assms by (fastforce simp: succ_ok_def split: option.splits)

lemma linked_update_revoked: "linked ts \<Longrightarrow> linked (update_where P (set_revoked now) ts)"
proof (induction ts)
  case Nil
  then show ?case by (simp add: update_where_def)
next
  case (Cons t ts)
  let ?g = "\<lambda>r. if P r then set_revoked now r else r"
  have "succ_ok (?g t) (map ?g ts)"
    by (rule succ_ok_map [where t = t and ys = ts and g = ?g]) (use Cons.prems in auto)
  with Cons show ?case by (simp add: update_where_def)
qed

lemma linked_rotate:
  assumes "linked ts" and "rt_replaced_by n = None" and "rt_id n \<noteq> i"
    and "\<forall>t \<in> set ts. rt_id t = i \<longrightarrow> rt_revoked_at t \<noteq> None \<and> rt_user_id t = rt_user_id n"
  shows "linked (update_where (\<lambda>r. rt_id r = i) (set_replaced (rt_id n)) (ts @ [n]))"
  using assms
proof (induction ts)
  case Nil
  then show ?case by (simp add: update_where_def succ_ok_def)
next
  case (Cons t ts)
  let ?g = "\<lambda>r. if rt_id r = i then set_replaced (rt_id n) r else r"
  have n: "?g n = n" using Cons.prems(3) by simp
  have "succ_ok (?g t) (map ?g (ts @ [n]))"
  proof (cases "rt_id t = i")
    case True
    with Cons.prems(4) n show ?thesis by (force simp: succ_ok_def)
  next
    case False
    show ?thesis
      by (rule succ_ok_map [where t = t and ys = ts and g = ?g]) (use False Cons.prems in auto)
  qed
  moreover have "linked (map ?g (ts @ [n]))"
    using Cons.IH [OF _ Cons.prems(2,3)] Cons.prems(1,4) by (simp only: update_where_def) simp
  ultimately show ?case
    by (simp only: update_where_def append_Cons list.map linked.simps)
qed

lemma leaf_within_mono: "leaf_within ts n i = Some s \<Longrightarrow> n \<le> m \<Longrightarrow> leaf_within ts m i = Some s"
proof (induction n arbitrary: i m)
  case (Suc n)
  then obtain k where "m = Suc k" "n \<le> k" by (cases m) auto
  with Suc show ?case by (auto split: option.splits)
qed simp

lemma leaf_within_leaf:
  "leaf_within ts n i = Some s \<Longrightarrow> s \<in> set ts \<and> rt_replaced_by s = None"
  by (induction n arbitrary: i) (auto split: option.splits dest: find_key_Some)

text \<open>Every chain ends: as many steps as there are rows always reach the leaf.\<close>

lemma leaf_reached:
  assumes "distinct (map rt_id ts)" and "linked ts" and "ts = xs @ t # ys"
  shows "\<exists>s. leaf_within ts (Suc (length ys)) (rt_id t) = Some s \<and> rt_user_id s = rt_user_id t"
  using assms(3)
proof (induction ys arbitrary: xs t rule: length_induct)
  case (1 ys)
  have t: "find (\<lambda>r. rt_id r = rt_id t) ts = Some t"
    using assms(1) "1.prems" by (intro find_key_unique) auto
  show ?case
  proof (cases "rt_replaced_by t")
    case None
    with t show ?thesis by simp
  next
    case (Some i)
    have "succ_ok t ys" using assms(2) "1.prems" linked_split by blast
    with Some obtain s where s: "s \<in> set ys" "rt_id s = i" "rt_user_id s = rt_user_id t"
      by (auto simp: succ_ok_def)
    from split_list [OF s(1)] obtain ys1 ys2 where ys: "ys = ys1 @ s # ys2" by blast
    have "\<exists>l. leaf_within ts (Suc (length ys2)) (rt_id s) = Some l \<and> rt_user_id l = rt_user_id s"
      using "1.IH" [rule_format, of ys2 "xs @ t # ys1" s] "1.prems" ys by simp
    then obtain l where "leaf_within ts (length ys) i = Some l" "rt_user_id l = rt_user_id t"
      using s ys leaf_within_mono [of ts "Suc (length ys2)" i _ "length ys"] by auto
    with t Some show ?thesis by simp
  qed
qed

lemma leaf_exists:
  assumes "distinct (map rt_id ts)" and "linked ts" and "t \<in> set ts"
  shows "\<exists>s. leaf_within ts (length ts) (rt_id t) = Some s \<and> rt_user_id s = rt_user_id t"
proof -
  from split_list [OF assms(3)] obtain xs ys where ts: "ts = xs @ t # ys" by blast
  from leaf_reached [OF assms(1,2) this] leaf_within_mono [of ts "Suc (length ys)" "rt_id t" _ "length ts"]
  show ?thesis using ts by auto
qed

lemma hop_leaf:
  "leaf_within ts n i = Some s \<Longrightarrow> \<exists>k < n. hop ts k i = Some s"
proof (induction n arbitrary: i)
  case (Suc n)
  show ?case
  proof (cases "find (\<lambda>t. rt_id t = i) ts")
    case None
    with Suc.prems show ?thesis by simp
  next
    case (Some t)
    show ?thesis
    proof (cases "rt_replaced_by t")
      case None
      with Some Suc.prems show ?thesis by (intro exI [of _ 0]) simp
    next
      case (Some j)
      with Suc \<open>find _ ts = Some t\<close> obtain k where "k < n" "hop ts k j = Some s" by auto
      with Some \<open>find _ ts = Some t\<close> show ?thesis by (intro exI [of _ "Suc k"]) simp
    qed
  qed
qed simp

text \<open>A chain with more than \<open>n\<close> rows has no leaf within \<open>n\<close> rows.\<close>

lemma hop_long: "hop ts n i \<noteq> None \<Longrightarrow> leaf_within ts n i = None"
  by (induction n arbitrary: i) (auto split: option.splits)

section \<open>What the operations do\<close>

lemma db_ok_token_ids: "db_ok X w \<Longrightarrow> distinct (map rt_id (refresh_tokens w))"
  by (simp add: db_ok_def keys_unique_def)

lemma token_get_by_id_run [op_run]:
  "distinct (map rt_id (refresh_tokens w)) \<Longrightarrow>
   token_get_by_id i w = (Inr (find (\<lambda>t. rt_id t = i) (refresh_tokens w)), w)"
  unfolding token_get_by_id_def by (rule scalar_one_or_none_key)

lemma token_get_by_hash_run [op_run]:
  "distinct (map rt_token_hash (refresh_tokens w)) \<Longrightarrow>
   token_get_by_hash h w = (Inr (find (\<lambda>t. rt_token_hash t = h) (refresh_tokens w)), w)"
  unfolding token_get_by_hash_def by (rule scalar_one_or_none_key)

lemma update_tokens_run [run_simps]:
  "update_tokens P f w = (Inr (length (filter P (refresh_tokens w))),
     w\<lparr>refresh_tokens := update_where P f (refresh_tokens w)\<rparr>)"
  by (simp add: update_tokens_def)

lemma filter_row:
  assumes "distinct (map rt_id ts)" and "s \<in> set ts"
  shows "filter (\<lambda>r. rt_id r = rt_id s) ts = [s]"
  using filter_key [OF assms(1), of "rt_id s"] find_key_unique [OF assms] by simp

lemma unrevoked_row_eq: "unrevoked_row i = (\<lambda>r. rt_id r = i \<and> rt_revoked_at r = None)"
  by (rule ext) (simp add: unrevoked_row_def)

lemma filter_unrevoked:
  assumes "distinct (map rt_id ts)" and "s \<in> set ts"
  shows "filter (unrevoked_row (rt_id s)) ts = (if rt_revoked_at s = None then [s] else [])"
proof -
  have "filter (unrevoked_row (rt_id s)) ts =
      filter (\<lambda>r. rt_revoked_at r = None) (filter (\<lambda>r. rt_id r = rt_id s) ts)"
    by (simp only: filter_filter unrevoked_row_eq)
  then show ?thesis by (simp add: filter_row [OF assms])
qed

lemma update_unrevoked:
  assumes "distinct (map rt_id ts)" and "s \<in> set ts" and "rt_revoked_at s = None"
  shows "update_where (unrevoked_row (rt_id s)) f ts = update_where (\<lambda>r. rt_id r = rt_id s) f ts"
  unfolding update_where_def
proof (rule map_cong [OF refl])
  fix r
  assume "r \<in> set ts"
  then have "rt_id r = rt_id s \<Longrightarrow> r = s" using assms(1,2) distinct_map_eqD by metis
  with assms(3) show "(if unrevoked_row (rt_id s) r then f r else r) = (if rt_id r = rt_id s then f r else r)"
    by (auto simp: unrevoked_row_def)
qed

lemma update_revoked_row:
  assumes "distinct (map rt_id ts)" and "s \<in> set ts" and "rt_revoked_at s \<noteq> None"
  shows "update_where (unrevoked_row (rt_id s)) f ts = ts"
proof (rule update_where_none)
  fix r
  assume "r \<in> set ts"
  then have "rt_id r = rt_id s \<Longrightarrow> r = s" using assms(1,2) distinct_map_eqD by metis
  with assms(3) show "\<not> unrevoked_row (rt_id s) r" by (auto simp: unrevoked_row_def)
qed

lemma map_id_update [simp]:
  "(\<And>r. rt_id (f r) = rt_id r) \<Longrightarrow> map rt_id (update_where P f ts) = map rt_id ts"
  by (simp add: update_where_map)

lemma refresh_token_create_run [op_run]:
  assumes "db_ok X w" and "collision_free X n" and "draws w < n"
    and "user_id \<in> ids usr_id (users w)" and "length token_hash \<le> 64"
  shows "refresh_token_create X user_id token_hash expires_at w =
    (let t = new_refresh_token user_id token_hash expires_at
               (gen_random_uuid X (draws w)) (db_now X (Suc (draws w)))
     in (Inr t, w\<lparr>refresh_tokens := refresh_tokens w @ [t], draws := Suc (Suc (draws w))\<rparr>))"
proof -
  have "gen_random_uuid X (draws w) \<notin> ids rt_id (refresh_tokens w)"
    using fresh_id [of X w n "draws w"] assms(1-3) by (auto simp: db_ok_def world_ids_def)
  with assms(4,5) show ?thesis
    by (simp add: refresh_token_create_def insert_new_run insert_row_def refresh_token_fits_def
        refresh_token_consistent_def new_refresh_token_def store_refresh_token_def Let_def)
qed

lemma refresh_token_create_cases:
  assumes "refresh_token_create X user_id token_hash expires_at w = (res, w')"
  obtains (stored) t where "res = Inr t"
      "w' = w\<lparr>refresh_tokens := refresh_tokens w @ [t], draws := Suc (Suc (draws w))\<rparr>"
      "t = new_refresh_token user_id token_hash expires_at
         (gen_random_uuid X (draws w)) (db_now X (Suc (draws w)))"
      "refresh_token_consistent w t"
  | (rejected) e where "res = Inl (Sql e)" "w' = w\<lparr>draws := Suc (Suc (draws w))\<rparr>"
proof -
  let ?r = "new_refresh_token user_id token_hash expires_at
      (gen_random_uuid X (draws w)) (db_now X (Suc (draws w)))"
  have c: "refresh_token_consistent (w\<lparr>draws := n\<rparr>) ?r = refresh_token_consistent w ?r" for n
    by (simp add: refresh_token_consistent_def)
  show ?thesis
    using assms that
    by (auto simp: refresh_token_create_def insert_new_run insert_row_def c store_refresh_token_def
        split: if_splits)
qed

text \<open>Rotation: the old row revoked and linked, the new row appended.\<close>

definition rotate_rows ::
  "uuid \<Rightarrow> datetime \<Rightarrow> refresh_token \<Rightarrow> refresh_token list \<Rightarrow> refresh_token list" where
  "rotate_rows i now n ts =
     update_where (\<lambda>r. rt_id r = i) (\<lambda>r. set_replaced (rt_id n) (set_revoked now r)) ts @ [n]"

lemma update_where_twice:
  "(\<And>r. k (f r) = k r) \<Longrightarrow>
   update_where (\<lambda>r. k r = i) g (update_where (\<lambda>r. k r = i) f ts) =
   update_where (\<lambda>r. k r = i) (g \<circ> f) ts"
  by (simp add: update_where_def)

lemma update_where_append:
  "update_where P f (xs @ ys) = update_where P f xs @ update_where P f ys"
  by (simp add: update_where_def)

text \<open>
  The rotation as the code runs it, for any old token in memory whose row exists:
  the winner revokes, inserts and links; the loser changes nothing.
\<close>

lemma create_rotation_pair_run [op_run]:
  assumes ok: "db_ok X w" and cf: "collision_free X n" and n: "Suc (draws w) < n"
    and s: "s \<in> set (refresh_tokens w)" and old: "rt_id old = rt_id s" "rt_user_id old = rt_user_id s"
    and len: "length h \<le> 64"
  shows "create_rotation_pair X old h expires w =
    (let now = utc_clock X (draws w);
         new = new_refresh_token (rt_user_id s) h expires
           (gen_random_uuid X (Suc (draws w))) (db_now X (Suc (Suc (draws w))))
     in if rt_revoked_at s = None
        then (Inr (Some new), w\<lparr>refresh_tokens := rotate_rows (rt_id s) now new (refresh_tokens w),
                                draws := Suc (Suc (Suc (draws w)))\<rparr>)
        else (Inr None, w\<lparr>draws := Suc (draws w)\<rparr>))"
proof -
  note d = db_ok_token_ids [OF ok]
  let ?ts = "refresh_tokens w"
  let ?now = "utc_clock X (draws w)"
  let ?i = "gen_random_uuid X (Suc (draws w))"
  let ?new = "new_refresh_token (rt_user_id s) h expires ?i (db_now X (Suc (Suc (draws w))))"
  let ?rts = "update_where (unrevoked_row (rt_id s)) (set_revoked ?now) ?ts"
  have i: "?i \<notin> ids rt_id ?ts"
    using fresh_id [of X w n "Suc (draws w)"] ok cf n by (auto simp: db_ok_def world_ids_def)
  have "ids rt_id ?rts = ids rt_id ?ts"
    by (metis ids_def list.set_map map_id_update set_revoked_simps(1))
  moreover have "rt_user_id s \<in> ids usr_id (users w)"
    using ok s by (auto simp: db_ok_def refs_ok_def)
  ultimately have create: "refresh_token_create X (rt_user_id s) h expires
      (w\<lparr>refresh_tokens := ?rts, draws := Suc (draws w)\<rparr>) =
      (Inr ?new, w\<lparr>refresh_tokens := ?rts @ [?new], draws := Suc (Suc (Suc (draws w)))\<rparr>)"
    using i len
    by (simp add: refresh_token_create_def insert_new_run insert_row_def refresh_token_fits_def
        refresh_token_consistent_def new_refresh_token_def store_refresh_token_def)
  show ?thesis
  proof (cases "rt_revoked_at s = None")
    case True
    have ni: "?i \<noteq> rt_id s" using i s by (auto simp: ids_def)
    have "update_where (\<lambda>r. rt_id r = rt_id s) (set_replaced ?i) (?rts @ [?new]) =
        rotate_rows (rt_id s) ?now ?new ?ts"
      using ni update_unrevoked [OF d s True]
      by (simp add: rotate_rows_def update_where_append update_where_twice o_def)
        (simp add: update_where_def new_refresh_token_def)
    with True show ?thesis
      by (simp add: create_rotation_pair_def transaction_def utc_now_def run_simps old create
          filter_unrevoked [OF d s] Let_def new_refresh_token_def)
  next
    case False
    then obtain y where "rt_revoked_at s = Some y" by auto
    moreover have "?rts = ?ts" by (rule update_revoked_row [OF d s False])
    ultimately show ?thesis
      by (simp add: create_rotation_pair_def transaction_def utc_now_def run_simps old
          filter_unrevoked [OF d s] Let_def)
  qed
qed

text \<open>The family walk finds the leaf within its bound and revokes it unless it is dead already.\<close>

lemma family_walk_run [op_run]:
  assumes d: "distinct (map rt_id (refresh_tokens w))"
  shows "family_walk k X i w =
    (case leaf_within (refresh_tokens w) k i of
       None \<Rightarrow> (Inr None, w)
     | Some s \<Rightarrow>
         (let now = utc_clock X (draws w) in
          if rt_revoked_at s = None
          then (Inr (Some (set_revoked now s)),
                w\<lparr>refresh_tokens := update_where (\<lambda>r. rt_id r = rt_id s) (set_revoked now)
                      (refresh_tokens w),
                  draws := Suc (draws w)\<rparr>)
          else (Inr None, w\<lparr>draws := Suc (draws w)\<rparr>)))"
proof (induction k arbitrary: i)
  case 0
  then show ?case by (simp add: run_simps)
next
  case (Suc k)
  let ?ts = "refresh_tokens w"
  let ?now = "utc_clock X (draws w)"
  show ?case
  proof (cases "find (\<lambda>t. rt_id t = i) ?ts")
    case None
    then show ?thesis by (simp add: run_simps token_get_by_id_run [OF d])
  next
    case (Some t)
    note found = this
    then have t: "t \<in> set ?ts" "rt_id t = i" using find_key_Some by fast+
    show ?thesis
    proof (cases "rt_replaced_by t")
      case (Some j)
      with found Suc.IH show ?thesis by (simp add: run_simps token_get_by_id_run [OF d])
    next
      case None
      let ?rts = "update_where (unrevoked_row (rt_id t)) (set_revoked ?now) ?ts"
      show ?thesis
      proof (cases "rt_revoked_at t = None")
        case True
        have u: "?rts = update_where (\<lambda>r. rt_id r = rt_id t) (set_revoked ?now) ?ts"
          by (rule update_unrevoked [OF d t(1) True])
        have "set_revoked ?now t \<in> set ?rts"
          unfolding u using t(1) by (auto simp: update_where_def)
        moreover have "distinct (map rt_id ?rts)" using d by simp
        ultimately have "filter (\<lambda>r. rt_id r = rt_id t) ?rts = [set_revoked ?now t]"
          using filter_row [of ?rts "set_revoked ?now t"] by simp
        with True None found t show ?thesis
          by (simp add: run_simps token_get_by_id_run [OF d] utc_now_def filter_unrevoked [OF d t(1), unfolded t(2)]
              token_refresh_def session_refresh_def u [unfolded t(2)] Let_def)
      next
        case False
        then obtain y where "rt_revoked_at t = Some y" by auto
        moreover have "?rts = ?ts" by (rule update_revoked_row [OF d t(1) False])
        ultimately show ?thesis using None found t
          by (simp add: run_simps token_get_by_id_run [OF d] utc_now_def filter_unrevoked [OF d t(1), unfolded t(2)]
              token_get_by_id_def scalar_one_or_none_def filter_row [OF d t(1), unfolded t(2)])
      qed
    qed
  qed
qed

section \<open>The ledger invariant\<close>

text \<open>\<open>ledger_ok\<close>: an intact database whose rotation chains have their shape.\<close>

definition ledger_ok :: "env \<Rightarrow> world \<Rightarrow> bool" where
  "ledger_ok X w = (db_ok X w \<and> chains_ok w)"

lemma ledger_okD: "ledger_ok X w \<Longrightarrow> db_ok X w" "ledger_ok X w \<Longrightarrow> chains_ok w"
  by (simp_all add: ledger_ok_def)

lemma chains_ok_cong: "refresh_tokens w' = refresh_tokens w \<Longrightarrow> chains_ok w' = chains_ok w"
  by (simp add: chains_ok_def)

lemma ledger_ok_draws: "draws w \<le> n \<Longrightarrow> ledger_ok X w \<Longrightarrow> ledger_ok X (w\<lparr>draws := n\<rparr>)"
  by (simp add: ledger_ok_def db_ok_draws chains_ok_def)

lemma keeps_ledger:
  "obeys (keeps (db_ok X)) m \<Longrightarrow> obeys (same refresh_tokens) m \<Longrightarrow> obeys (keeps (ledger_ok X)) m"
  by (simp add: obeys_def keeps_def same_def ledger_ok_def chains_ok_def)

lemma quiet_keeps_ledger: "obeys quiet m \<Longrightarrow> obeys (keeps (ledger_ok X)) m"
  by (rule keeps_ledger) (simp_all add: quiet_keeps_db_ok quiet_same)

lemma db_ok_update_tokens:
  assumes ok: "db_ok X w"
    and k: "\<And>t. rt_id (f t) = rt_id t" "\<And>t. rt_user_id (f t) = rt_user_id t"
    and r: "\<And>t. t \<in> set (refresh_tokens w) \<Longrightarrow> P t \<Longrightarrow>
      refers (rt_replaced_by (f t)) (ids rt_id (refresh_tokens w))"
  shows "db_ok X (w\<lparr>refresh_tokens := update_where P f (refresh_tokens w)\<rparr>)"
proof -
  let ?ts = "update_where P f (refresh_tokens w)"
  have m: "map rt_id ?ts = map rt_id (refresh_tokens w)"
    using k(1) by simp
  have s: "ids rt_id ?ts = ids rt_id (refresh_tokens w)"
    using m by (metis ids_def list.set_map)
  have "\<forall>t \<in> set ?ts. rt_user_id t \<in> ids usr_id (users w) \<and>
      refers (rt_replaced_by t) (ids rt_id (refresh_tokens w))"
    using ok k r by (auto simp: db_ok_def refs_ok_def update_where_set)
  with ok show ?thesis
    by (simp add: db_ok_def keys_unique_def refs_ok_def ids_drawn_def world_ids_def m s)
qed

lemma single_parentI:
  "(\<And>s t i. s \<in> set ts \<Longrightarrow> t \<in> set ts \<Longrightarrow> rt_replaced_by s = Some i \<Longrightarrow>
     rt_replaced_by t = Some i \<Longrightarrow> rt_id s = rt_id t) \<Longrightarrow> single_parent ts"
  unfolding single_parent_def by (intro ballI impI) (metis option.exhaust)

lemma single_parentD:
  "single_parent ts \<Longrightarrow> s \<in> set ts \<Longrightarrow> t \<in> set ts \<Longrightarrow> rt_replaced_by s = Some i \<Longrightarrow>
   rt_replaced_by t = Some i \<Longrightarrow> rt_id s = rt_id t"
  unfolding single_parent_def by (metis option.distinct(1))

lemma update_where_in:
  assumes "t \<in> set (update_where P f ts)"
  obtains r where "r \<in> set ts" "t = (if P r then f r else r)"
  using assms by (auto simp: update_where_def)

lemma single_parent_update:
  assumes sp: "single_parent ts" and f: "\<And>t. rt_id (f t) = rt_id t"
    "\<And>t. rt_replaced_by (f t) = rt_replaced_by t"
  shows "single_parent (update_where P f ts)"
proof (rule single_parentI)
  fix s t i
  assume s: "s \<in> set (update_where P f ts)" "rt_replaced_by s = Some i"
    and t: "t \<in> set (update_where P f ts)" "rt_replaced_by t = Some i"
  from s obtain s0 where "s0 \<in> set ts" "rt_id s = rt_id s0" "rt_replaced_by s0 = Some i"
    using f by (elim update_where_in) (auto split: if_splits)
  moreover from t obtain t0 where "t0 \<in> set ts" "rt_id t = rt_id t0" "rt_replaced_by t0 = Some i"
    using f by (elim update_where_in) (auto split: if_splits)
  ultimately show "rt_id s = rt_id t" using single_parentD [OF sp] by metis
qed

lemma single_parent_snoc:
  assumes "single_parent ts" and "rt_replaced_by n = None"
  shows "single_parent (ts @ [n])"
  by (rule single_parentI) (use assms in \<open>auto dest: single_parentD\<close>)

lemma single_parent_link:
  assumes sp: "single_parent ts" and new: "\<And>t. t \<in> set ts \<Longrightarrow> rt_replaced_by t \<noteq> Some j"
  shows "single_parent (update_where (\<lambda>r. rt_id r = i) (set_replaced j) ts)"
proof (rule single_parentI)
  let ?ts = "update_where (\<lambda>r. rt_id r = i) (set_replaced j) ts"
  have old: "rt_id s = i \<and> k = j \<or> (\<exists>s0 \<in> set ts. rt_id s = rt_id s0 \<and> rt_replaced_by s0 = Some k) \<and> k \<noteq> j"
    if "s \<in> set ?ts" "rt_replaced_by s = Some k" for s k
    using that new by (elim update_where_in) (auto split: if_splits)
  fix s t k
  assume "s \<in> set ?ts" "t \<in> set ?ts" "rt_replaced_by s = Some k" "rt_replaced_by t = Some k"
  then show "rt_id s = rt_id t"
    using old [of s k] old [of t k] single_parentD [OF sp] by metis
qed

lemma ledger_ok_revoke_rows:
  "ledger_ok X w \<Longrightarrow>
   ledger_ok X (w\<lparr>refresh_tokens := update_where P (set_revoked now) (refresh_tokens w)\<rparr>)"
proof -
  assume ok: "ledger_ok X w"
  then have r: "refers (rt_replaced_by t) (ids rt_id (refresh_tokens w))"
    if "t \<in> set (refresh_tokens w)" for t
    using that by (auto simp: ledger_ok_def db_ok_def refs_ok_def)
  from ok have "db_ok X (w\<lparr>refresh_tokens := update_where P (set_revoked now) (refresh_tokens w)\<rparr>)"
    by (intro db_ok_update_tokens) (auto simp: ledger_ok_def r)
  with ok show ?thesis
    by (simp add: ledger_ok_def chains_ok_def linked_update_revoked single_parent_update)
qed

lemma ledger_ok_store:
  assumes "ledger_ok X w" and "refresh_token_consistent w t" and "rt_replaced_by t = None"
    and "rt_id t \<in> gen_random_uuid X ` {..<draws w}"
  shows "ledger_ok X (store_refresh_token t w)"
  using assms
  by (auto simp: ledger_ok_def chains_ok_def store_refresh_token_def
      intro!: db_ok_insert_token linked_snoc single_parent_snoc)

lemma refresh_token_create_ledger:
  "obeys (keeps (ledger_ok X)) (refresh_token_create X u h e)"
  unfolding refresh_token_create_def
  by (rule insert_new_keeps)
    (simp_all add: keeps_def ledger_ok_draws ledger_ok_store new_refresh_token_def)

lemma revoke_ledger: "obeys (keeps (ledger_ok X)) (revoke X t)"
  unfolding revoke_def
proof (intro keeping.and_then)
  show "obeys (keeps (ledger_ok X)) (utc_now X)"
    by (intro quiet_keeps_ledger utc_now_quiet)
  show "obeys (keeps (ledger_ok X)) (update_tokens P (set_revoked now))" for P now
    by (simp add: obeys_def keeps_def run_simps ledger_ok_revoke_rows)
  show "obeys (keeps (ledger_ok X)) (token_refresh t)"
    by (simp add: obeys_def keeps_def token_refresh_def session_refresh_def split: list.splits)
qed

lemma family_walk_ledger: "obeys (keeps (ledger_ok X)) (family_walk k X i)"
proof (rule obeysI)
  fix w r w'
  assume run: "family_walk k X i w = (r, w')"
  show "keeps (ledger_ok X) w w'"
    unfolding keeps_def
  proof
    assume ok: "ledger_ok X w"
    then have "distinct (map rt_id (refresh_tokens w))"
      by (intro db_ok_token_ids ledger_okD)
    from run [unfolded family_walk_run [OF this]] ok show "ledger_ok X w'"
      by (auto simp: Let_def split: option.splits if_splits
          intro!: ledger_ok_draws ledger_ok_revoke_rows)
  qed
qed

lemma revoke_descendants_ledger: "obeys (keeps (ledger_ok X)) (revoke_descendants X t)"
  unfolding revoke_descendants_def by (intro keeping.opt keeping.pure family_walk_ledger)

text \<open>How a rotation can end, whatever the state: lost, failed, or won.\<close>

lemma create_rotation_pair_cases:
  assumes "create_rotation_pair X old h e w = (res, w')"
  obtains (lost) "res = Inr None" "w' = w\<lparr>draws := Suc (draws w)\<rparr>"
      "filter (unrevoked_row (rt_id old)) (refresh_tokens w) = []"
  | (failed) err where "res = Inl (Sql err)" "w' = w\<lparr>draws := Suc (Suc (Suc (draws w)))\<rparr>"
  | (won) new ts where "res = Inr (Some new)"
      "filter (unrevoked_row (rt_id old)) (refresh_tokens w) \<noteq> []"
      "ts = update_where (unrevoked_row (rt_id old)) (set_revoked (utc_clock X (draws w))) (refresh_tokens w)"
      "refresh_token_consistent (w\<lparr>refresh_tokens := ts\<rparr>) new"
      "new = new_refresh_token (rt_user_id old) h e
         (gen_random_uuid X (Suc (draws w))) (db_now X (Suc (Suc (draws w))))"
      "w' = w\<lparr>refresh_tokens := update_where (\<lambda>r. rt_id r = rt_id old) (set_replaced (rt_id new)) (ts @ [new]),
              draws := Suc (Suc (Suc (draws w)))\<rparr>"
proof -
  let ?ts = "update_where (unrevoked_row (rt_id old)) (set_revoked (utc_clock X (draws w))) (refresh_tokens w)"
  let ?u = "w\<lparr>draws := Suc (draws w), refresh_tokens := ?ts\<rparr>"
  show ?thesis
  proof (cases "filter (unrevoked_row (rt_id old)) (refresh_tokens w) = []")
    case True
    have "?ts = refresh_tokens w"
      by (rule update_where_none) (use True in \<open>auto simp: filter_empty_conv\<close>)
    with True assms show ?thesis
      by (intro lost) (simp_all add: create_rotation_pair_def transaction_def run_simps utc_now_def)
  next
    case False
    obtain r u where c: "refresh_token_create X (rt_user_id old) h e ?u = (r, u)"
      by (cases "refresh_token_create X (rt_user_id old) h e ?u")
    from c show ?thesis
    proof (cases rule: refresh_token_create_cases)
      case (stored t)
      have "refresh_token_consistent (w\<lparr>refresh_tokens := ?ts\<rparr>) t"
        using stored(4) by (simp add: refresh_token_consistent_def)
      with False stored c assms show ?thesis
        by (intro won [of t ?ts])
          (simp_all add: create_rotation_pair_def transaction_def run_simps utc_now_def)
    next
      case (rejected err)
      with False c assms show ?thesis
        by (intro failed [of err])
          (simp_all add: create_rotation_pair_def transaction_def run_simps utc_now_def)
    qed
  qed
qed

lemma create_rotation_pair_ledger:
  assumes ok: "ledger_ok X w" and run: "create_rotation_pair X old h e w = (res, w')"
    and own: "\<And>t. t \<in> set (refresh_tokens w) \<Longrightarrow> rt_id t = rt_id old \<Longrightarrow> rt_user_id t = rt_user_id old"
  shows "ledger_ok X w'"
  using run
proof (cases rule: create_rotation_pair_cases)
  case lost
  with ok show ?thesis by (simp add: ledger_ok_draws)
next
  case failed
  with ok show ?thesis by (simp add: ledger_ok_draws)
next
  case (won new ts)
  let ?w1 = "w\<lparr>refresh_tokens := ts, draws := Suc (Suc (Suc (draws w)))\<rparr>"
  let ?w2 = "w\<lparr>refresh_tokens := ts @ [new], draws := Suc (Suc (Suc (draws w)))\<rparr>"
  have ok0: "ledger_ok X (w\<lparr>refresh_tokens := ts\<rparr>)"
    unfolding won(3) by (rule ledger_ok_revoke_rows [OF ok])
  have ok1: "ledger_ok X ?w1"
    using ledger_ok_draws [OF _ ok0, of "Suc (Suc (Suc (draws w)))"] by simp
  have cons: "refresh_token_consistent ?w1 new"
    using won(4) by (simp add: refresh_token_consistent_def)
  have nr: "rt_replaced_by new = None" "rt_user_id new = rt_user_id old"
    "rt_id new \<in> gen_random_uuid X ` {..<draws ?w1}"
    by (simp_all add: won(5) new_refresh_token_def)
  have ok2: "ledger_ok X ?w2"
    using ledger_ok_store [OF ok1 cons nr(1) nr(3)] by (simp add: store_refresh_token_def)
  have fresh: "rt_id new \<notin> ids rt_id ts"
    using won(4) by (simp add: refresh_token_consistent_def)
  have idts: "ids rt_id ts = ids rt_id (refresh_tokens w)"
    unfolding won(3) by (metis ids_def list.set_map map_id_update set_revoked_simps(1))
  have old_in: "rt_id old \<in> ids rt_id ts"
  proof -
    obtain t where t: "t \<in> set (refresh_tokens w)" "unrevoked_row (rt_id old) t"
      using won(2) by (auto simp: filter_empty_conv)
    from t(1) have "rt_id t \<in> ids rt_id (refresh_tokens w)" by (simp add: ids_def)
    with t(2) idts show ?thesis by (simp add: unrevoked_row_def)
  qed
  have revoked: "rt_revoked_at t \<noteq> None \<and> rt_user_id t = rt_user_id new"
    if "t \<in> set ts" "rt_id t = rt_id old" for t
    using that own nr(2) unfolding won(3) by (auto simp: update_where_set unrevoked_row_def)
  have no_parent: "rt_replaced_by t \<noteq> Some (rt_id new)" if "t \<in> set (ts @ [new])" for t
    using that ok1 fresh nr(1) by (auto simp: ledger_ok_def db_ok_def refs_ok_def)
  have "linked (update_where (\<lambda>r. rt_id r = rt_id old) (set_replaced (rt_id new)) (ts @ [new]))"
    using ok1 nr(1) fresh old_in revoked
    by (intro linked_rotate) (auto simp: ledger_ok_def chains_ok_def)
  moreover have "single_parent (update_where (\<lambda>r. rt_id r = rt_id old) (set_replaced (rt_id new)) (ts @ [new]))"
    using ok2 no_parent by (intro single_parent_link) (auto simp: ledger_ok_def chains_ok_def)
  moreover have "db_ok X (?w2\<lparr>refresh_tokens :=
      update_where (\<lambda>r. rt_id r = rt_id old) (set_replaced (rt_id new)) (refresh_tokens ?w2)\<rparr>)"
    using ok2 by (intro db_ok_update_tokens) (auto simp: ledger_ok_def)
  ultimately show ?thesis
    using won(6) by (simp add: ledger_ok_def chains_ok_def)
qed

section \<open>Frames\<close>

lemma token_get_quiet: "obeys quiet (token_get_by_hash h)" "obeys quiet (token_get_by_id i)"
  by (simp_all add: token_get_by_hash_def token_get_by_id_def scalar_one_or_none_quiet)

text \<open>The operations touch the refresh tokens and nothing else.\<close>

definition but_tokens :: "world \<Rightarrow> world" where
  "but_tokens w = w\<lparr>refresh_tokens := [], draws := 0\<rparr>"

lemma update_tokens_frame: "obeys (same but_tokens) (update_tokens P f)"
  by (simp add: obeys_def same_def but_tokens_def run_simps)

lemma utc_now_frame: "obeys (same but_tokens) (utc_now X)"
  by (rule quiet_same [OF utc_now_quiet]) (simp add: but_tokens_def)

lemma token_get_frame:
  "obeys (same but_tokens) (token_get_by_id i)" "obeys (same but_tokens) (token_get_by_hash h)"
  "obeys (same but_tokens) (token_refresh t)"
  by (simp_all add: obeys_def same_def token_get_by_id_def token_get_by_hash_def token_refresh_def
      session_refresh_def split: list.splits)

lemma refresh_token_create_frame: "obeys (same but_tokens) (refresh_token_create X u h e)"
  unfolding refresh_token_create_def
  by (rule insert_new_same) (simp_all add: same_def but_tokens_def store_refresh_token_def)

lemma transaction_same:
  "obeys (same f) m \<Longrightarrow> (\<And>w n. f (w\<lparr>draws := n\<rparr>) = f w) \<Longrightarrow> obeys (same f) (transaction m)"
  by (auto simp: obeys_def same_def transaction_def split: prod.splits sum.splits)
    (metis snd_conv)+

lemma revoke_frame: "obeys (same but_tokens) (revoke X t)"
  unfolding revoke_def by (intro framing.rules utc_now_frame update_tokens_frame token_get_frame)

lemma create_rotation_pair_frame: "obeys (same but_tokens) (create_rotation_pair X old h e)"
  unfolding create_rotation_pair_def
  by (intro transaction_same framing.rules utc_now_frame update_tokens_frame refresh_token_create_frame)
    (simp add: but_tokens_def)

lemma family_walk_frame: "obeys (same but_tokens) (family_walk k X i)"
proof (induction k arbitrary: i)
  case 0
  then show ?case by (simp add: framing.pure)
next
  case (Suc k)
  show ?case
    unfolding family_walk.simps
    by (intro framing.rules utc_now_frame update_tokens_frame token_get_frame Suc)
qed

lemma revoke_descendants_frame: "obeys (same but_tokens) (revoke_descendants X t)"
  unfolding revoke_descendants_def by (intro framing.rules family_walk_frame)

lemma but_tokens_same:
  assumes "obeys (same but_tokens) m" and "\<And>w. f (but_tokens w) = f w"
  shows "obeys (same f) m"
  using assms(1) unfolding obeys_def same_def by (metis assms(2))

text \<open>
  Only an insertion changes which tokens there are; revoking and linking leave
  every token's id, owner and hash.
\<close>

definition token_idents :: "world \<Rightarrow> (uuid \<times> uuid \<times> string) list" where
  "token_idents w = map (\<lambda>t. (rt_id t, rt_user_id t, rt_token_hash t)) (refresh_tokens w)"

definition idents_kept :: "world \<Rightarrow> world \<Rightarrow> bool" where
  "idents_kept w w' = (token_idents w' = token_idents w \<and> draws w \<le> draws w')"

interpretation identity: history idents_kept
  by unfold_locales (auto simp: idents_kept_def)

lemma quiet_idents: "obeys quiet m \<Longrightarrow> obeys idents_kept m"
  by (erule obeys_mono) (auto simp: quiet_iff idents_kept_def token_idents_def)

lemma idents_update [simp]:
  assumes "\<And>t. rt_id (f t) = rt_id t" "\<And>t. rt_user_id (f t) = rt_user_id t"
    "\<And>t. rt_token_hash (f t) = rt_token_hash t"
  shows "token_idents (w\<lparr>refresh_tokens := update_where P f ts\<rparr>) = token_idents (w\<lparr>refresh_tokens := ts\<rparr>)"
  using assms by (simp add: token_idents_def update_where_def)

lemma update_tokens_idents: "obeys idents_kept (update_tokens P (set_revoked now))"
  by (simp add: obeys_def idents_kept_def run_simps)

lemma token_refresh_quiet: "obeys quiet (token_refresh t)"
  by (simp add: obeys_def token_refresh_def session_refresh_def quieting.refl split: list.splits)

lemma revoke_idents: "obeys idents_kept (revoke X t)"
  unfolding revoke_def
  by (intro identity.rules update_tokens_idents quiet_idents [OF utc_now_quiet]
      quiet_idents [OF token_refresh_quiet])

lemma family_walk_idents: "obeys idents_kept (family_walk k X i)"
proof (induction k arbitrary: i)
  case 0
  then show ?case by (simp add: identity.pure)
next
  case (Suc k)
  show ?case
    unfolding family_walk.simps
    by (intro identity.rules update_tokens_idents quiet_idents [OF utc_now_quiet]
        quiet_idents [OF token_refresh_quiet] quiet_idents [OF token_get_quiet(2)] Suc)
qed

lemma revoke_descendants_idents: "obeys idents_kept (revoke_descendants X t)"
  unfolding revoke_descendants_def by (intro identity.rules family_walk_idents)

text \<open>A token in memory agrees with its row about the owner: what a rotation needs.\<close>

definition held :: "env \<Rightarrow> refresh_token \<Rightarrow> world \<Rightarrow> bool" where
  "held X old w = (ledger_ok X w \<and>
     (\<forall>t \<in> set (refresh_tokens w). rt_id t = rt_id old \<longrightarrow> rt_user_id t = rt_user_id old))"

lemma held_idents:
  "held X old w \<longleftrightarrow> ledger_ok X w \<and>
     (\<forall>(i, u, h) \<in> set (token_idents w). i = rt_id old \<longrightarrow> u = rt_user_id old)"
  by (auto simp: held_def token_idents_def)

lemma held_ledger: "held X old w \<Longrightarrow> ledger_ok X w"
  by (simp add: held_def)

lemma held_row: "ledger_ok X w \<Longrightarrow> t \<in> set (refresh_tokens w) \<Longrightarrow> held X t w"
  unfolding held_def using db_ok_token_ids distinct_map_eqD ledger_okD(1) by metis

lemma keeps_held:
  "obeys (keeps (ledger_ok X)) m \<Longrightarrow> obeys idents_kept m \<Longrightarrow> obeys (keeps (held X old)) m"
  by (simp add: obeys_def keeps_def held_idents idents_kept_def)

lemma quiet_keeps_held: "obeys quiet m \<Longrightarrow> obeys (keeps (held X old)) m"
  by (simp add: keeps_held quiet_keeps_ledger quiet_idents)

lemma create_rotation_pair_held: "obeys (keeps (held X old)) (create_rotation_pair X old h e)"
proof (rule obeysI)
  fix w r w'
  assume run: "create_rotation_pair X old h e w = (r, w')"
  show "keeps (held X old) w w'"
    unfolding keeps_def
  proof
    assume ok: "held X old w"
    then have own: "rt_user_id t = rt_user_id old"
      if "t \<in> set (refresh_tokens w)" "rt_id t = rt_id old" for t
      using that by (simp add: held_def)
    from ok have ledger: "ledger_ok X w'"
      by (intro create_rotation_pair_ledger [OF _ run] own) (simp add: held_def)
    from run show "held X old w'"
    proof (cases rule: create_rotation_pair_cases)
      case (won new ts)
      have new: "rt_user_id new = rt_user_id old" by (simp add: won(5) new_refresh_token_def)
      have ts: "rt_user_id t = rt_user_id old" if "t \<in> set ts" "rt_id t = rt_id old" for t
        using that own unfolding won(3) by (elim update_where_in) (auto split: if_splits)
      show ?thesis
        unfolding held_def
      proof (intro conjI ballI impI ledger)
        fix t
        assume "t \<in> set (refresh_tokens w')" "rt_id t = rt_id old"
        then obtain r where r: "r \<in> set (ts @ [new])" "rt_id r = rt_id old" "rt_user_id t = rt_user_id r"
          unfolding won(6) by simp (elim update_where_in, auto split: if_splits)
        show "rt_user_id t = rt_user_id old"
        proof (cases "r = new")
          case False
          with r(1) have "r \<in> set ts" by simp
          from ts [OF this r(2)] r(3) show ?thesis by simp
        qed (simp add: r(3) new)
      qed
    qed (use ok ledger in \<open>simp_all add: held_def\<close>)
  qed
qed

text \<open>Reading a token by its hash and carrying on with the row found.\<close>

lemma keeps_found:
  assumes "obeys (keeps (ledger_ok X)) (f None)" and "\<And>t. obeys (keeps (held X t)) (f (Some t))"
  shows "obeys (keeps (ledger_ok X)) (and_then (token_get_by_hash h) f)"
proof -
  have "ledger_ok X (snd (f (Some t) w))"
    if "ledger_ok X w" "t \<in> set (refresh_tokens w)" for t w
    using obeys_keepsD [OF assms(2) held_row [OF that]] by (rule held_ledger)
  moreover have "ledger_ok X (snd (f None w))" if "ledger_ok X w" for w
    using obeys_keepsD [OF assms(1) that] .
  moreover have "t \<in> set (refresh_tokens w)"
    if "filter (\<lambda>t. rt_token_hash t = h) (refresh_tokens w) = t # ts" for t ts and w :: world
  proof -
    have "t \<in> set (filter (\<lambda>t. rt_token_hash t = h) (refresh_tokens w))"
      unfolding that by simp
    then show ?thesis by simp
  qed
  ultimately show ?thesis
    by (auto simp: obeys_def keeps_def run_simps token_get_by_hash_def scalar_one_or_none_def
        split: list.splits)
qed

end
