(* ===== verification/Audit_Log_Repository.thy ===== *)
theory Audit_Log_Repository
  imports Integrity
begin

text \<open>
  \<open>app/repositories/audit_log_repository.py\<close>: appending one event, and the
  filtered, ordered, paged reads of the log. There is no update or delete.
\<close>

definition audit_row ::
  "string \<Rightarrow> uuid option \<Rightarrow> string option \<Rightarrow> uuid option \<Rightarrow> uuid option \<Rightarrow> dict option \<Rightarrow>
   uuid \<Rightarrow> datetime \<Rightarrow> audit_log" where
  "audit_row action actor target_type target_id org metadata i t =
     \<lparr>log_id = i, log_occurred_at = t, log_actor_user_id = actor, log_action = action,
      log_target_type = target_type, log_target_id = target_id, log_organization_id = org,
      log_event_metadata = metadata\<rparr>"

definition store_audit_log :: "audit_log \<Rightarrow> world \<Rightarrow> world" where
  "store_audit_log l w = w\<lparr>audit_logs := audit_logs w @ [l]\<rparr>"

definition audit_record ::
  "env \<Rightarrow> string \<Rightarrow> uuid option \<Rightarrow> string option \<Rightarrow> uuid option \<Rightarrow> uuid option \<Rightarrow> dict option \<Rightarrow>
   audit_log py" where
  "audit_record X action actor target_type target_id org metadata =
     insert_new X (audit_row action actor target_type target_id org metadata)
       audit_log_fits audit_log_consistent store_audit_log"

text \<open>The WHERE clauses, each present only when its filter is given.\<close>

definition audit_matches ::
  "uuid option \<Rightarrow> uuid option \<Rightarrow> string option \<Rightarrow> audit_log \<Rightarrow> bool" where
  "audit_matches org actor action l =
     ((org \<noteq> None \<longrightarrow> log_organization_id l = org) \<and>
      (actor \<noteq> None \<longrightarrow> log_actor_user_id l = actor) \<and>
      (action \<noteq> None \<longrightarrow> Some (log_action l) = action))"

definition newest_first :: "audit_log \<Rightarrow> audit_log \<Rightarrow> bool" where
  "newest_first a b = (log_occurred_at b \<le> log_occurred_at a)"

text \<open>PostgreSQL rejects a negative LIMIT or OFFSET.\<close>

definition audit_list_events ::
  "uuid option \<Rightarrow> uuid option \<Rightarrow> string option \<Rightarrow> int \<Rightarrow> int \<Rightarrow> audit_log list py" where
  "audit_list_events org actor action limit offset =
     (if limit < 0 \<or> offset < 0 then raise (Sql DataError)
      else reads (\<lambda>w. take (nat limit) (drop (nat offset)
        (order_by newest_first (filter (audit_matches org actor action) (audit_logs w))))))"

definition audit_count_events ::
  "uuid option \<Rightarrow> uuid option \<Rightarrow> string option \<Rightarrow> int py" where
  "audit_count_events org actor action =
     reads (\<lambda>w. int (length (filter (audit_matches org actor action) (audit_logs w))))"

section \<open>Recording\<close>

text \<open>The state after one event has been recorded.\<close>

definition log_event ::
  "env \<Rightarrow> string \<Rightarrow> uuid option \<Rightarrow> string option \<Rightarrow> uuid option \<Rightarrow> uuid option \<Rightarrow> dict option \<Rightarrow>
   world \<Rightarrow> world" where
  "log_event X action actor target_type target_id org metadata w =
     w\<lparr>audit_logs := audit_logs w @ [audit_row action actor target_type target_id org metadata
         (gen_random_uuid X (draws w)) (db_now X (Suc (draws w)))],
       draws := Suc (Suc (draws w))\<rparr>"

lemma log_event_simps [simp]:
  fixes w :: world
  shows "users (log_event X ac a tt ti g md w) = users w"
    "refresh_tokens (log_event X ac a tt ti g md w) = refresh_tokens w"
    "roles (log_event X ac a tt ti g md w) = roles w"
    "permissions (log_event X ac a tt ti g md w) = permissions w"
    "role_permissions (log_event X ac a tt ti g md w) = role_permissions w"
    "user_roles (log_event X ac a tt ti g md w) = user_roles w"
    "organizations (log_event X ac a tt ti g md w) = organizations w"
    "organization_memberships (log_event X ac a tt ti g md w) = organization_memberships w"
    "draws (log_event X ac a tt ti g md w) = Suc (Suc (draws w))"
    "audit_logs (log_event X ac a tt ti g md w) = audit_logs w @
       [audit_row ac a tt ti g md (gen_random_uuid X (draws w)) (db_now X (Suc (draws w)))]"
  by (simp_all add: log_event_def)

lemma audit_record_run [op_run]:
  assumes "db_ok X w" and "collision_free X n" and "draws w < n"
    and "refers actor (ids usr_id (users w))" and "refers org (ids org_id (organizations w))"
    and "length action \<le> 100" and "opt_length_le target_type 100"
  shows "audit_record X action actor target_type target_id org metadata w =
    (Inr (audit_row action actor target_type target_id org metadata
            (gen_random_uuid X (draws w)) (db_now X (Suc (draws w)))),
     log_event X action actor target_type target_id org metadata w)"
proof -
  have "gen_random_uuid X (draws w) \<notin> ids log_id (audit_logs w)"
    using fresh_id [of X w n "draws w"] assms(1-3) by (auto simp: db_ok_def world_ids_def)
  with assms(4-7) show ?thesis
    by (simp add: audit_record_def insert_new_run insert_row_def audit_log_fits_def
        audit_log_consistent_def audit_row_def store_audit_log_def log_event_def)
qed

text \<open>Recording keeps the database intact, so the next step can be run on the result.\<close>

lemma db_ok_log_event:
  assumes "db_ok X w" and "collision_free X n" and "draws w < n"
    and "refers actor (ids usr_id (users w))" and "refers org (ids org_id (organizations w))"
  shows "db_ok X (log_event X action actor target_type target_id org metadata w)"
proof -
  let ?l = "audit_row action actor target_type target_id org metadata
      (gen_random_uuid X (draws w)) (db_now X (Suc (draws w)))"
  let ?w = "w\<lparr>draws := Suc (Suc (draws w))\<rparr>"
  have "gen_random_uuid X (draws w) \<notin> ids log_id (audit_logs w)"
    using fresh_id [of X w n "draws w"] assms(1-3) by (auto simp: db_ok_def world_ids_def)
  then have "db_ok X (?w\<lparr>audit_logs := audit_logs ?w @ [?l]\<rparr>)"
    using assms(1,4,5)
    by (intro db_ok_insert_audit_log db_ok_draws) (simp_all add: audit_log_consistent_def audit_row_def)
  then show ?thesis by (simp add: log_event_def)
qed

lemma audit_record_cases:
  assumes "audit_record X action actor target_type target_id org metadata w = (res, w')"
  obtains (stored) l where "res = Inr l"
      "w' = w\<lparr>audit_logs := audit_logs w @ [l], draws := Suc (Suc (draws w))\<rparr>"
      "l = audit_row action actor target_type target_id org metadata
        (gen_random_uuid X (draws w)) (db_now X (Suc (draws w)))"
  | (rejected) e where "res = Inl (Sql e)" "w' = w\<lparr>draws := Suc (Suc (draws w))\<rparr>"
  using assms
  by (auto simp: audit_record_def insert_new_run store_audit_log_def elim: insert_row_cases)

lemma audit_record_keeps: "obeys (keeps (db_ok X)) (audit_record X a ac tt ti og md)"
  unfolding audit_record_def
  by (rule insert_new_keeps)
    (simp_all add: keeps_def db_ok_draws audit_row_def store_audit_log_def db_ok_insert_audit_log)

lemma audit_record_same:
  assumes "\<And>w n. f (w\<lparr>draws := n\<rparr>) = f w" and "\<And>w ls. f (w\<lparr>audit_logs := ls\<rparr>) = f w"
  shows "obeys (same f) (audit_record X a ac tt ti og md)"
  unfolding audit_record_def
  by (rule insert_new_same) (simp_all add: same_def assms store_audit_log_def)

lemma audit_record_grows: "obeys (grows audit_logs) (audit_record X a ac tt ti og md)"
  unfolding audit_record_def
  by (rule insert_new_grows) (simp_all add: grows_iff store_audit_log_def)

section \<open>Reading\<close>

lemma audit_list_events_run [op_run]:
  "0 \<le> limit \<Longrightarrow> 0 \<le> offset \<Longrightarrow> audit_list_events org actor action limit offset w =
    (Inr (take (nat limit) (drop (nat offset) (order_by newest_first
       (filter (audit_matches org actor action) (audit_logs w))))), w)"
  by (simp add: audit_list_events_def run_simps)

lemma audit_count_events_run [op_run]:
  "audit_count_events org actor action w =
    (Inr (int (length (filter (audit_matches org actor action) (audit_logs w)))), w)"
  by (simp add: audit_count_events_def run_simps)

lemma sorted_newest_first: "sorted_wrt newest_first (order_by newest_first ls)"
  by (rule sorted_order_by) (auto simp: newest_first_def)

end
