(* ===== verification/Sample.thy ===== *)
theory Sample
  imports Integrity
begin

text \<open>
  A concrete environment: numbered ids, a clock that ticks once per draw, a
  padding hash, the C collation. Every assumption the development makes about
  the environment holds of it, and the examples run in it.
\<close>

text \<open>PostgreSQL's C collation: byte order.\<close>

fun byte_le :: "string \<Rightarrow> string \<Rightarrow> bool" where
  "byte_le [] t = True"
| "byte_le (a # s) [] = False"
| "byte_le (a # s) (b # t) = ((of_char a :: nat) < of_char b \<or> a = b \<and> byte_le s t)"

definition sample_decode :: "string \<Rightarrow> dict" where
  "sample_decode tok = [(''sub'', JStr tok), (''type'', JStr ''access'')]"

definition sample_env :: env where
  "sample_env = \<lparr>
     config = default_settings ''postgresql://localhost/iam'' ''key'',
     gen_random_uuid = word_of_nat,
     db_now = int,
     utc_clock = int,
     uuid4 = word_of_nat,
     token_urlsafe = (\<lambda>n. replicate n (CHR ''t'')),
     sha256_hexdigest = (\<lambda>s. take 64 (s @ replicate 64 (CHR ''0''))),
     argon2_hash = (\<lambda>_ salt p. take 200 p),
     argon2_verify = (\<lambda>h p. if h = take 200 p then Inr True else Inl VerifyMismatchError),
     jwt_encode = (\<lambda>payload key alg.
       case map_of payload ''sub'' of Some (JStr s) \<Rightarrow> s | _ \<Rightarrow> ''''),
     jwt_decode = (\<lambda>tok key algs iss claims now. if tok = '''' then None else Some (sample_decode tok)),
     collate = byte_le,
     email_str = (\<lambda>s. if CHR ''@'' \<in> set s then Some s else None)\<rparr>"

lemma sample_env_simps [simp]:
  "gen_random_uuid sample_env = word_of_nat" "db_now sample_env n = int n"
  "utc_clock sample_env n = int n" "uuid4 sample_env n = word_of_nat n"
  "token_urlsafe sample_env n = replicate n (CHR ''t'')"
  "sha256_hexdigest sample_env s = take 64 (s @ replicate 64 (CHR ''0''))"
  "argon2_hash sample_env q n p = take 200 p"
  "argon2_verify sample_env h p = (if h = take 200 p then Inr True else Inl VerifyMismatchError)"
  "jwt_encode sample_env d key alg =
     (case map_of d ''sub'' of Some (JStr s) \<Rightarrow> s | _ \<Rightarrow> '''')"
  "jwt_decode sample_env tok key algs iss claims now =
     (if tok = '''' then None else Some (sample_decode tok))"
  "collate sample_env = byte_le"
  "email_str sample_env s = (if CHR ''@'' \<in> set s then Some s else None)"
  "config sample_env = default_settings ''postgresql://localhost/iam'' ''key''"
  by (simp_all add: sample_env_def)

lemma sample_hash_inj:
  assumes "i < 64" and "j < 64"
    and "take 64 (replicate i (CHR ''t'') @ replicate 64 (CHR ''0'')) =
         take 64 (replicate j (CHR ''t'') @ replicate 64 (CHR ''0''))"
  shows "i = j"
proof -
  have count: "length (filter (\<lambda>c. c = CHR ''t'') (take 64 (replicate k (CHR ''t'') @ replicate 64 (CHR ''0'')))) = k"
    if "k < 64" for k :: nat
    using that by simp
  from count [OF assms(1)] count [OF assms(2)] assms(3) show ?thesis by metis
qed

lemma sample_collision_free: "collision_free sample_env 64"
proof -
  have "inj_on (word_of_nat :: nat \<Rightarrow> uuid) {..<64}"
    by (rule inj_onI) (auto simp: word_of_nat_eq_iff take_bit_nat_eq_self_iff
        take_bit_nat_eq_self)
  moreover have "inj_on (\<lambda>i. take 64 (replicate i (CHR ''t'') @ replicate 64 (CHR ''0''))) {..<64}"
    by (rule inj_onI) (use sample_hash_inj in \<open>blast intro: lessThan_iff [THEN iffD1]\<close>)
  ultimately show ?thesis by (simp add: collision_free_def)
qed

lemma sample_hashes_ok: "argon2_ok sample_env" "sha256_ok sample_env"
  by (auto simp: argon2_ok_def sha256_ok_def min_def)

lemma empty_db_ok: "db_ok X (empty_world\<lparr>draws := n\<rparr>)"
  by (simp add: db_ok_def keys_unique_def refs_ok_def ids_drawn_def world_ids_def empty_world_def)

end
