(* ===== verification/Auth_Service.thy ===== *)
theory Auth_Service
  imports User_Repository Refresh_Token_Repository Audit_Log_Repository Sample
begin

text \<open>
  \<open>app/domain/services/auth_service.py\<close>: register, login, refresh and logout over
  the user, refresh-token and audit repositories, with what each leaves in the
  audit log on every branch.
\<close>

section \<open>Operations\<close>

record register_response =
  reg_id :: uuid
  reg_email :: string
  reg_created_at :: datetime

record token_response =
  resp_access_token :: string
  resp_refresh_token :: string
  resp_token_type :: string
  resp_expires_in :: int

definition auth_register :: "env \<Rightarrow> string \<Rightarrow> string \<Rightarrow> register_response py" where
  "auth_register X email password =
     and_then (hash_password X password) (\<lambda>password_hash.
     and_then
       (try_except (create_user X email password_hash)
         (\<lambda>e. case e of
            Repository (DuplicateEmailError _) \<Rightarrow> Some (
              and_then (audit_record X USER_REGISTRATION_FAILED None (Some ''user'') None None
                 (Some [(''attempted_email'', JStr email), (''reason'', JStr ''duplicate_email'')]))
              (\<lambda>_. raise (Domain (EmailAlreadyExistsError
                 ''Unable to register with the provided details.''))))
          | _ \<Rightarrow> None)) (\<lambda>u.
     and_then (audit_record X USER_REGISTERED (Some (usr_id u)) (Some ''user'') (Some (usr_id u))
        None None) (\<lambda>_.
     pure \<lparr>reg_id = usr_id u, reg_email = usr_email u, reg_created_at = usr_created_at u\<rparr>)))"

definition issue_token_pair :: "env \<Rightarrow> user \<Rightarrow> token_response py" where
  "issue_token_pair X u =
     and_then (create_access_token X (uuid_str (usr_id u))) (\<lambda>access_token.
     and_then (generate_refresh_token X) (\<lambda>raw_refresh_token.
     let token_hash = hash_refresh_token X raw_refresh_token in
     and_then (refresh_token_expiry X) (\<lambda>expires_at.
     and_then (refresh_token_create X (usr_id u) token_hash expires_at) (\<lambda>_.
     pure \<lparr>resp_access_token = access_token, resp_refresh_token = raw_refresh_token,
           resp_token_type = ''bearer'', resp_expires_in = access_token_ttl_seconds X\<rparr>))))"

definition auth_login :: "env \<Rightarrow> string \<Rightarrow> string \<Rightarrow> token_response py" where
  "auth_login X email password =
     and_then (user_get_by_email email) (\<lambda>found.
     case found of
       None \<Rightarrow>
         and_then (audit_record X USER_LOGIN_FAILED None (Some ''user'') None None
            (Some [(''attempted_email'', JStr email), (''reason'', JStr ''unknown_email'')]))
         (\<lambda>_. raise (Domain (InvalidCredentialsError ''Invalid email or password.'')))
     | Some u \<Rightarrow>
         if \<not> usr_is_active u then
           and_then (audit_record X USER_LOGIN_FAILED (Some (usr_id u)) (Some ''user'')
              (Some (usr_id u)) None (Some [(''reason'', JStr ''inactive_account'')]))
           (\<lambda>_. raise (Domain (InactiveUserError ''Account is inactive.'')))
         else if \<not> verify_password X password (usr_password_hash u) then
           and_then (audit_record X USER_LOGIN_FAILED (Some (usr_id u)) (Some ''user'')
              (Some (usr_id u)) None (Some [(''reason'', JStr ''wrong_password'')]))
           (\<lambda>_. raise (Domain (InvalidCredentialsError ''Invalid email or password.'')))
         else
           and_then (update_last_login X u) (\<lambda>_.
           and_then (audit_record X USER_LOGIN_SUCCEEDED (Some (usr_id u)) (Some ''user'')
              (Some (usr_id u)) None None) (\<lambda>_.
           issue_token_pair X u)))"

text \<open>Recording a rejected refresh token, as every branch of \<open>refresh\<close> does.\<close>

definition record_rejection :: "env \<Rightarrow> refresh_token \<Rightarrow> string \<Rightarrow> audit_log py" where
  "record_rejection X token reason =
     audit_record X REFRESH_TOKEN_REJECTED (Some (rt_user_id token)) (Some ''user'')
       (Some (rt_user_id token)) None (Some [(''reason'', JStr reason)])"

definition invalid_refresh_token :: exn where
  "invalid_refresh_token = Domain (InvalidRefreshTokenError ''Invalid or expired refresh token.'')"

definition handle_revoked_token :: "env \<Rightarrow> refresh_token \<Rightarrow> unit py" where
  "handle_revoked_token X token =
     (case rt_replaced_by token of
        None \<Rightarrow> and_then (record_rejection X token ''revoked_token'') (\<lambda>_. pure ())
      | Some _ \<Rightarrow>
          and_then (revoke_descendants X token) (\<lambda>revoked_leaf.
          and_then (audit_record X REFRESH_TOKEN_REUSE_DETECTED (Some (rt_user_id token)) (Some ''user'')
             (Some (rt_user_id token)) None
             (Some [(''presented_token_id'', JStr (uuid_str (rt_id token))),
                    (''family_already_revoked'', JBool (revoked_leaf = None))])) (\<lambda>_.
          case revoked_leaf of
            None \<Rightarrow> pure ()
          | Some leaf \<Rightarrow>
              and_then (audit_record X REFRESH_TOKEN_FAMILY_REVOKED (Some (rt_user_id token))
                 (Some ''refresh_token'') (Some (rt_id leaf)) None
                 (Some [(''presented_token_id'', JStr (uuid_str (rt_id token)))])) (\<lambda>_.
              pure ()))))"

text \<open>\<open>refresh\<close> from the point where the presented token has passed every check.\<close>

definition rotate_token :: "env \<Rightarrow> refresh_token \<Rightarrow> user \<Rightarrow> token_response py" where
  "rotate_token X token u =
     and_then (generate_refresh_token X) (\<lambda>new_raw_refresh_token.
     let new_token_hash = hash_refresh_token X new_raw_refresh_token in
     and_then (refresh_token_expiry X) (\<lambda>new_expires_at.
     and_then (create_rotation_pair X token new_token_hash new_expires_at) (\<lambda>new_token.
     case new_token of
       None \<Rightarrow>
         and_then (record_rejection X token ''concurrent_rotation_lost'') (\<lambda>_.
         raise invalid_refresh_token)
     | Some _ \<Rightarrow>
         and_then (audit_record X REFRESH_TOKEN_ROTATED (Some (usr_id u)) (Some ''user'')
            (Some (usr_id u)) None None) (\<lambda>_.
         and_then (create_access_token X (uuid_str (usr_id u))) (\<lambda>access_token.
         pure \<lparr>resp_access_token = access_token, resp_refresh_token = new_raw_refresh_token,
               resp_token_type = ''bearer'', resp_expires_in = access_token_ttl_seconds X\<rparr>)))))"

definition auth_refresh :: "env \<Rightarrow> string \<Rightarrow> token_response py" where
  "auth_refresh X presented =
     (let token_hash = hash_refresh_token X presented in
      and_then (token_get_by_hash token_hash) (\<lambda>found.
      case found of
        None \<Rightarrow>
          and_then (audit_record X REFRESH_TOKEN_REJECTED None None None None
             (Some [(''reason'', JStr ''unknown_token'')])) (\<lambda>_.
          raise invalid_refresh_token)
      | Some token \<Rightarrow>
          if rt_revoked_at token \<noteq> None then
            and_then (handle_revoked_token X token) (\<lambda>_. raise invalid_refresh_token)
          else
            and_then (utc_now X) (\<lambda>now.
            if rt_expires_at token \<le> now then
              and_then (record_rejection X token ''expired_token'') (\<lambda>_. raise invalid_refresh_token)
            else
              and_then (user_get_by_id (rt_user_id token)) (\<lambda>owner.
              case owner of
                None \<Rightarrow>
                  and_then (record_rejection X token ''inactive_or_deleted_owner'') (\<lambda>_.
                  raise invalid_refresh_token)
              | Some u \<Rightarrow>
                  if \<not> usr_is_active u then
                    and_then (record_rejection X token ''inactive_or_deleted_owner'') (\<lambda>_.
                    raise invalid_refresh_token)
                  else rotate_token X token u))))"

definition auth_logout :: "env \<Rightarrow> string \<Rightarrow> unit py" where
  "auth_logout X presented =
     (let token_hash = hash_refresh_token X presented in
      and_then (token_get_by_hash token_hash) (\<lambda>found.
      case found of
        None \<Rightarrow> pure ()
      | Some token \<Rightarrow>
          if rt_revoked_at token \<noteq> None then pure ()
          else
            and_then (revoke X token) (\<lambda>_.
            and_then (audit_record X USER_LOGOUT (Some (rt_user_id token)) (Some ''user'')
               (Some (rt_user_id token)) None None) (\<lambda>_.
            pure ()))))"

section \<open>What every call keeps\<close>

text \<open>The part of the state that authentication never touches: the permission graph.\<close>

definition but_auth :: "world \<Rightarrow> world" where
  "but_auth w = w\<lparr>users := [], refresh_tokens := [], audit_logs := [], draws := 0\<rparr>"

lemma but_auth_simps [simp]:
  fixes w :: world
  shows "but_auth (w\<lparr>draws := n\<rparr>) = but_auth w" "but_auth (w\<lparr>users := us\<rparr>) = but_auth w"
    "but_auth (w\<lparr>refresh_tokens := ts\<rparr>) = but_auth w" "but_auth (w\<lparr>audit_logs := ls\<rparr>) = but_auth w"
    "but_auth (but_tokens w) = but_auth w"
  by (simp_all add: but_auth_def but_tokens_def)

lemma same_grows: "obeys (same f) m \<Longrightarrow> obeys (grows f) m"
  by (erule obeys_mono) (simp add: same_def grows_def)

lemma tokens_grow: "obeys (same but_tokens) m \<Longrightarrow> obeys (grows audit_logs) m"
  by (rule same_grows, erule but_tokens_same) (simp add: but_tokens_def)

lemma tokens_but_auth: "obeys (same but_tokens) m \<Longrightarrow> obeys (same but_auth) m"
  by (erule but_tokens_same) simp

lemma audit_record_ledger: "obeys (keeps (ledger_ok X)) (audit_record X a ac tt ti og md)"
  by (rule keeps_ledger [OF audit_record_keeps audit_record_same]) simp_all

lemma create_user_ledger: "obeys (keeps (ledger_ok X)) (create_user X e h)"
  by (rule keeps_ledger [OF create_user_keeps create_user_same]) simp_all

lemma update_last_login_ledger: "obeys (keeps (ledger_ok X)) (update_last_login X u)"
  by (rule keeps_ledger [OF update_last_login_keeps update_last_login_same]) simp_all

lemmas auth_quiet = security_quiet user_get_quiet token_get_quiet

lemmas ledger_steps = keeping.rules auth_quiet [THEN quiet_keeps_ledger] audit_record_ledger
  create_user_ledger update_last_login_ledger refresh_token_create_ledger revoke_ledger
  revoke_descendants_ledger

lemma quiet_audit_grows: "obeys quiet m \<Longrightarrow> obeys (grows audit_logs) m"
  by (erule quiet_grows) simp

lemma quiet_but_auth: "obeys quiet m \<Longrightarrow> obeys (same but_auth) m"
  by (erule quiet_same) simp

lemma create_user_grows: "obeys (grows audit_logs) (create_user X e h)"
  by (rule same_grows, rule create_user_same) simp_all

lemma update_last_login_grows: "obeys (grows audit_logs) (update_last_login X u)"
  by (rule same_grows, rule update_last_login_same) simp_all

lemmas growth_steps = growing.rules auth_quiet [THEN quiet_audit_grows] audit_record_grows
  create_user_grows update_last_login_grows refresh_token_create_frame [THEN tokens_grow]
  revoke_frame [THEN tokens_grow] revoke_descendants_frame [THEN tokens_grow]
  create_rotation_pair_frame [THEN tokens_grow]

lemma audit_record_but_auth: "obeys (same but_auth) (audit_record X a ac tt ti og md)"
  by (rule audit_record_same) simp_all

lemma create_user_but_auth: "obeys (same but_auth) (create_user X e h)"
  by (rule create_user_same) simp_all

lemma update_last_login_but_auth: "obeys (same but_auth) (update_last_login X u)"
  by (rule update_last_login_same) simp_all

lemmas but_auth_steps = framing.rules auth_quiet [THEN quiet_but_auth] audit_record_but_auth
  create_user_but_auth update_last_login_but_auth refresh_token_create_frame [THEN tokens_but_auth]
  revoke_frame [THEN tokens_but_auth] revoke_descendants_frame [THEN tokens_but_auth]
  create_rotation_pair_frame [THEN tokens_but_auth]

text \<open>The handler of the duplicate email, for the \<open>try_except\<close> rule.\<close>

lemma duplicate_email_handler:
  assumes "(case e of Repository (DuplicateEmailError _) \<Rightarrow> Some m | _ \<Rightarrow> None) = Some k"
  shows "k = m"
  using assms by (auto split: exn.splits repository_error.splits)

lemma auth_register_obeys:
  assumes h: "history R"
    and steps: "obeys R (hash_password X p)" "\<And>e h. obeys R (create_user X e h)"
      "\<And>a ac tt ti og md. obeys R (audit_record X a ac tt ti og md)"
  shows "obeys R (auth_register X email p)"
  unfolding auth_register_def
proof (intro history.and_then [OF h] history.try_except [OF h] history.pure [OF h] steps)
  fix e k ph
  assume "(case e of Repository (DuplicateEmailError _) \<Rightarrow> Some (
      and_then (audit_record X USER_REGISTRATION_FAILED None (Some ''user'') None None
         (Some [(''attempted_email'', JStr email), (''reason'', JStr ''duplicate_email'')]))
      (\<lambda>_. raise (Domain (EmailAlreadyExistsError
         ''Unable to register with the provided details.'')))) | _ \<Rightarrow> None) = Some k"
  from duplicate_email_handler [OF this] show "obeys R k"
    by (simp add: history.and_then [OF h] history.raise [OF h] steps)
qed

lemma auth_register_ledger: "obeys (keeps (ledger_ok X)) (auth_register X e p)"
  by (intro auth_register_obeys keeping.history_axioms ledger_steps)

lemma auth_register_grows: "obeys (grows audit_logs) (auth_register X e p)"
  by (intro auth_register_obeys growing.history_axioms growth_steps)

lemma auth_register_but_auth: "obeys (same but_auth) (auth_register X e p)"
  by (intro auth_register_obeys framing.history_axioms but_auth_steps)

lemma issue_token_pair_ledger: "obeys (keeps (ledger_ok X)) (issue_token_pair X u)"
  unfolding issue_token_pair_def by (intro ledger_steps)

lemma issue_token_pair_grows: "obeys (grows audit_logs) (issue_token_pair X u)"
  unfolding issue_token_pair_def by (intro growth_steps)

lemma issue_token_pair_but_auth: "obeys (same but_auth) (issue_token_pair X u)"
  unfolding issue_token_pair_def by (intro but_auth_steps)

lemma auth_login_ledger: "obeys (keeps (ledger_ok X)) (auth_login X e p)"
  unfolding auth_login_def by (intro ledger_steps issue_token_pair_ledger)

lemma auth_login_grows: "obeys (grows audit_logs) (auth_login X e p)"
  unfolding auth_login_def by (intro growth_steps issue_token_pair_grows)

lemma auth_login_but_auth: "obeys (same but_auth) (auth_login X e p)"
  unfolding auth_login_def by (intro but_auth_steps issue_token_pair_but_auth)

lemma auth_logout_ledger: "obeys (keeps (ledger_ok X)) (auth_logout X t)"
  unfolding auth_logout_def by (intro ledger_steps)

lemma auth_logout_grows: "obeys (grows audit_logs) (auth_logout X t)"
  unfolding auth_logout_def by (intro growth_steps)

lemma auth_logout_but_auth: "obeys (same but_auth) (auth_logout X t)"
  unfolding auth_logout_def by (intro but_auth_steps)

lemma handle_revoked_token_ledger: "obeys (keeps (ledger_ok X)) (handle_revoked_token X t)"
  unfolding handle_revoked_token_def record_rejection_def by (intro ledger_steps)

lemma handle_revoked_token_grows: "obeys (grows audit_logs) (handle_revoked_token X t)"
  unfolding handle_revoked_token_def record_rejection_def by (intro growth_steps)

lemma handle_revoked_token_but_auth: "obeys (same but_auth) (handle_revoked_token X t)"
  unfolding handle_revoked_token_def record_rejection_def by (intro but_auth_steps)

lemma rotate_token_grows: "obeys (grows audit_logs) (rotate_token X t u)"
  unfolding rotate_token_def record_rejection_def by (intro growth_steps)

lemma rotate_token_but_auth: "obeys (same but_auth) (rotate_token X t u)"
  unfolding rotate_token_def record_rejection_def by (intro but_auth_steps)

lemma auth_refresh_grows: "obeys (grows audit_logs) (auth_refresh X t)"
  unfolding auth_refresh_def record_rejection_def
  by (intro growth_steps handle_revoked_token_grows rotate_token_grows)

lemma auth_refresh_but_auth: "obeys (same but_auth) (auth_refresh X t)"
  unfolding auth_refresh_def record_rejection_def
  by (intro but_auth_steps handle_revoked_token_but_auth rotate_token_but_auth)

lemma audit_record_idents: "obeys idents_kept (audit_record X a ac tt ti og md)"
  unfolding audit_record_def
  by (rule insert_new_obeys, rule identity.refl, erule (1) identity.trans)
    (simp_all add: idents_kept_def token_idents_def store_audit_log_def)

lemmas held_steps = keeping.rules auth_quiet [THEN quiet_keeps_held]
  keeps_held [OF audit_record_ledger audit_record_idents]
  keeps_held [OF revoke_descendants_ledger revoke_descendants_idents] create_rotation_pair_held

lemma auth_refresh_ledger: "obeys (keeps (ledger_ok X)) (auth_refresh X t)"
  unfolding auth_refresh_def Let_def
proof (rule keeps_found)
  show "obeys (keeps (ledger_ok X)) (case None of None \<Rightarrow>
      and_then (audit_record X REFRESH_TOKEN_REJECTED None None None None
         (Some [(''reason'', JStr ''unknown_token'')])) (\<lambda>_. raise invalid_refresh_token)
      | Some token \<Rightarrow> m token)" for m :: "refresh_token \<Rightarrow> token_response py"
    by (simp only: option.case) (intro ledger_steps)
qed (simp only: option.case handle_revoked_token_def record_rejection_def rotate_token_def,
    intro held_steps)

end
