(* ===== verification/Role_Repository.thy ===== *)
theory Role_Repository
  imports Interfaces
begin

text \<open>
  \<open>app/repositories/role_repository.py\<close> and \<open>permission_repository.py\<close>: roles by
  id and name, the read-only permission catalog, and the association of the two.
\<close>

section \<open>Roles\<close>

definition new_role :: "string \<Rightarrow> string option \<Rightarrow> uuid option \<Rightarrow> uuid \<Rightarrow> datetime \<Rightarrow> role" where
  "new_role name description organization_id i t =
     \<lparr>role_id = i, role_name = name, role_description = description, role_is_system_role = False,
      role_organization_id = organization_id, role_created_at = t\<rparr>"

definition store_role :: "role \<Rightarrow> world \<Rightarrow> world" where
  "store_role r w = w\<lparr>roles := roles w @ [r]\<rparr>"

definition role_create :: "env \<Rightarrow> string \<Rightarrow> string option \<Rightarrow> uuid option \<Rightarrow> role py" where
  "role_create X name description organization_id =
     insert_reporting X (new_role name description organization_id) role_fits role_consistent
       store_role (DuplicateRoleNameError (''Role name already exists: '' @ name))"

definition role_get_by_id :: "uuid \<Rightarrow> role option py" where
  "role_get_by_id i = scalar_one_or_none (\<lambda>w. filter (\<lambda>r. role_id r = i) (roles w))"

definition role_get_by_name :: "string \<Rightarrow> role option py" where
  "role_get_by_name name = scalar_one_or_none (\<lambda>w. filter (\<lambda>r. role_name r = name) (roles w))"

definition by_role_name :: "env \<Rightarrow> role \<Rightarrow> role \<Rightarrow> bool" where
  "by_role_name X a b = collate X (role_name a) (role_name b)"

definition role_list_all :: "env \<Rightarrow> role list py" where
  "role_list_all X = reads (\<lambda>w. order_by (by_role_name X) (roles w))"

section \<open>Role permissions\<close>

definition store_role_permission :: "role_permission \<Rightarrow> world \<Rightarrow> world" where
  "store_role_permission m w = w\<lparr>role_permissions := role_permissions w @ [m]\<rparr>"

definition add_permission :: "uuid \<Rightarrow> uuid \<Rightarrow> unit py" where
  "add_permission i p =
     try_except
       (and_then (insert_row (\<lambda>_. True) role_permission_consistent store_role_permission
          \<lparr>rp_role_id = i, rp_permission_id = p\<rparr>) (\<lambda>_. pure ()))
       (\<lambda>e. if e = Sql IntegrityError
            then Some (raise (Repository (DuplicateRolePermissionError
                   (''Role '' @ uuid_str i @ '' already has permission '' @ uuid_str p))))
            else None)"

text \<open>DELETE with its row count.\<close>

definition remove_permission :: "uuid \<Rightarrow> uuid \<Rightarrow> bool py" where
  "remove_permission i p = (\<lambda>w.
     let matching = (\<lambda>m. rp_role_id m = i \<and> rp_permission_id m = p);
         rowcount = length (filter matching (role_permissions w))
     in (Inr (rowcount > 0),
         w\<lparr>role_permissions := filter (\<lambda>m. \<not> matching m) (role_permissions w)\<rparr>))"

section \<open>Permissions\<close>

definition permission_get_by_id :: "uuid \<Rightarrow> permission option py" where
  "permission_get_by_id i = scalar_one_or_none (\<lambda>w. filter (\<lambda>p. perm_id p = i) (permissions w))"

definition permission_get_by_resource_action :: "string \<Rightarrow> string \<Rightarrow> permission option py" where
  "permission_get_by_resource_action resource action =
     scalar_one_or_none (\<lambda>w.
       filter (\<lambda>p. perm_resource p = resource \<and> perm_action p = action) (permissions w))"

definition by_resource_action :: "env \<Rightarrow> permission \<Rightarrow> permission \<Rightarrow> bool" where
  "by_resource_action X a b =
     (if perm_resource a = perm_resource b then collate X (perm_action a) (perm_action b)
      else collate X (perm_resource a) (perm_resource b))"

definition permission_list_all :: "env \<Rightarrow> permission list py" where
  "permission_list_all X = reads (\<lambda>w. order_by (by_resource_action X) (permissions w))"

section \<open>What the operations do\<close>

lemma role_consistent_draws [simp]: "role_consistent (w\<lparr>draws := n\<rparr>) r = role_consistent w r"
  by (simp add: role_consistent_def)

lemma role_create_run [op_run]:
  assumes "db_ok X w" and "collision_free X n" and "draws w < n" and "length name \<le> 100"
    and "refers g (ids org_id (organizations w))"
  shows "role_create X name d g w =
    (let r = new_role name d g (gen_random_uuid X (draws w)) (db_now X (Suc (draws w)))
     in if name \<in> role_name ` set (roles w)
        then (Inl (Repository (DuplicateRoleNameError (''Role name already exists: '' @ name))),
              w\<lparr>draws := Suc (Suc (draws w))\<rparr>)
        else (Inr r, w\<lparr>roles := roles w @ [r], draws := Suc (Suc (draws w))\<rparr>))"
proof -
  have "gen_random_uuid X (draws w) \<notin> ids role_id (roles w)"
    using fresh_id [of X w n "draws w"] assms(1-3) by (auto simp: db_ok_def world_ids_def)
  with assms(4,5) show ?thesis
    by (simp add: role_create_def insert_reporting_run role_fits_def role_consistent_def
        new_role_def store_role_def Let_def)
qed

lemma role_create_cases:
  assumes "role_create X name d g w = (res, w')"
  obtains (stored) r where "res = Inr r" "w' = w\<lparr>roles := roles w @ [r], draws := Suc (Suc (draws w))\<rparr>"
      "r = new_role name d g (gen_random_uuid X (draws w)) (db_now X (Suc (draws w)))"
      "role_consistent w r"
  | (rejected) e where "res = Inl e" "w' = w\<lparr>draws := Suc (Suc (draws w))\<rparr>"
      "e \<in> {Repository (DuplicateRoleNameError (''Role name already exists: '' @ name)), Sql DataError}"
  using assms unfolding role_create_def
  by (cases rule: insert_reporting_cases) (auto simp: store_role_def intro: that)

lemma role_get_by_id_run [op_run]:
  "db_ok X w \<Longrightarrow> role_get_by_id i w = (Inr (find (\<lambda>r. role_id r = i) (roles w)), w)"
  unfolding role_get_by_id_def by (rule scalar_one_or_none_key) (simp add: db_ok_def keys_unique_def)

lemma role_get_by_name_run [op_run]:
  "db_ok X w \<Longrightarrow> role_get_by_name name w = (Inr (find (\<lambda>r. role_name r = name) (roles w)), w)"
  unfolding role_get_by_name_def by (rule scalar_one_or_none_key) (simp add: db_ok_def keys_unique_def)

lemma permission_get_by_id_run [op_run]:
  "db_ok X w \<Longrightarrow> permission_get_by_id i w = (Inr (find (\<lambda>p. perm_id p = i) (permissions w)), w)"
  unfolding permission_get_by_id_def
  by (rule scalar_one_or_none_key) (simp add: db_ok_def keys_unique_def)

lemma permission_get_by_resource_action_run [op_run]:
  assumes "db_ok X w"
  shows "permission_get_by_resource_action r a w =
    (Inr (find (\<lambda>p. permission_key p = (r, a)) (permissions w)), w)"
proof -
  have "distinct (map permission_key (permissions w))"
    using assms by (simp add: db_ok_def keys_unique_def)
  with scalar_one_or_none_key [where k = permission_key and rows = permissions and w = w and v = "(r, a)"]
  show ?thesis by (simp add: permission_get_by_resource_action_def permission_key_def)
qed

lemma add_permission_run [op_run]:
  "add_permission i p w =
    (if (i, p) \<in> grant_key ` set (role_permissions w) \<or> i \<notin> ids role_id (roles w) \<or>
        p \<notin> ids perm_id (permissions w)
     then (Inl (Repository (DuplicateRolePermissionError
             (''Role '' @ uuid_str i @ '' already has permission '' @ uuid_str p))), w)
     else (Inr (), w\<lparr>role_permissions := role_permissions w @ [\<lparr>rp_role_id = i, rp_permission_id = p\<rparr>]\<rparr>))"
  by (auto simp: add_permission_def run_simps insert_row_def role_permission_consistent_def
      store_role_permission_def grant_key_def)

lemma remove_permission_run [op_run]:
  "remove_permission i p w =
    (Inr ((i, p) \<in> grant_key ` set (role_permissions w)),
     w\<lparr>role_permissions := filter (\<lambda>m. grant_key m \<noteq> (i, p)) (role_permissions w)\<rparr>)"
  by (auto simp: remove_permission_def grant_key_def filter_empty_conv Let_def)

section \<open>What they leave alone\<close>

lemma role_create_keeps: "obeys (keeps (db_ok X)) (role_create X name d g)"
  unfolding role_create_def
  by (rule insert_reporting_keeps)
    (simp_all add: db_ok_draws new_role_def store_role_def db_ok_insert_role)

lemma role_create_same:
  assumes "\<And>w n. f (w\<lparr>draws := n\<rparr>) = f w" and "\<And>w rs. f (w\<lparr>roles := rs\<rparr>) = f w"
  shows "obeys (same f) (role_create X name d g)"
  unfolding role_create_def by (rule insert_reporting_same) (simp_all add: assms store_role_def)

lemma add_permission_keeps: "obeys (keeps (db_ok X)) (add_permission i p)"
proof (rule obeysI)
  fix w r w'
  assume "add_permission i p w = (r, w')"
  then show "keeps (db_ok X) w w'"
    by (auto simp: add_permission_run keeps_def role_permission_consistent_def grant_key_def
        intro!: db_ok_insert_role_permission split: if_splits)
qed

lemma add_permission_same:
  assumes "\<And>w ms. f (w\<lparr>role_permissions := ms\<rparr>) = f w"
  shows "obeys (same f) (add_permission i p)"
  by (simp add: obeys_def same_def add_permission_run assms)

lemma remove_permission_keeps: "obeys (keeps (db_ok X)) (remove_permission i p)"
  by (simp add: obeys_def keeps_def remove_permission_run db_ok_delete_role_permission)

lemma remove_permission_same:
  assumes "\<And>w ms. f (w\<lparr>role_permissions := ms\<rparr>) = f w"
  shows "obeys (same f) (remove_permission i p)"
  by (simp add: obeys_def same_def remove_permission_run assms)

lemma role_get_quiet:
  "obeys quiet (role_get_by_id i)" "obeys quiet (role_get_by_name name)"
  "obeys quiet (permission_get_by_id i)" "obeys quiet (permission_get_by_resource_action r a)"
  "obeys quiet (role_list_all X)" "obeys quiet (permission_list_all X)"
  by (auto simp: role_get_by_id_def role_get_by_name_def permission_get_by_id_def
      permission_get_by_resource_action_def role_list_all_def permission_list_all_def
      intro!: quieting.rules scalar_one_or_none_quiet)

section \<open>The contracts\<close>

interpretation role_store: entity_store
  "\<lambda>d. role_create X (fst d) (fst (snd d)) (snd (snd d))" role_get_by_name roles role_name
  fst "\<lambda>n. n"
  for X :: env
proof
  fix d :: "string \<times> string option \<times> uuid option" and w :: world and res w'
  assume "role_create X (fst d) (fst (snd d)) (snd (snd d)) w = (res, w')"
  then show "(\<exists>r. res = Inr r \<and> roles w' = roles w @ [r] \<and> role_name r = fst d \<and>
      role_name r \<notin> role_name ` set (roles w)) \<or> (\<exists>e. res = Inl e \<and> roles w' = roles w)"
    by (cases rule: role_create_cases) (auto simp: role_consistent_def new_role_def)
next
  fix k and w :: world
  assume "distinct (map role_name (roles w))"
  then show "role_get_by_name k w = (Inr (find (\<lambda>r. role_name r = k) (roles w)), w)"
    unfolding role_get_by_name_def by (rule scalar_one_or_none_key)
qed

interpretation grant_store: link_store
  "\<lambda>k. add_permission (fst k) (snd k)" "\<lambda>k. remove_permission (fst k) (snd k)"
  role_permissions grant_key "db_ok X"
  for X :: env
proof
  fix k and w :: world and res w'
  assume "add_permission (fst k) (snd k) w = (res, w')"
  then show "(\<exists>x r. res = Inr x \<and> role_permissions w' = role_permissions w @ [r] \<and>
      grant_key r = k \<and> k \<notin> grant_key ` set (role_permissions w)) \<or>
      (\<exists>e. res = Inl e \<and> role_permissions w' = role_permissions w)"
    by (auto simp: add_permission_run grant_key_def split: if_splits)
qed (simp_all add: add_permission_keeps remove_permission_keeps remove_permission_run
    db_ok_def keys_unique_def)

end
