(* ===== verification/User_Role_Repository.thy ===== *)
theory User_Role_Repository
  imports Role_Repository
begin

text \<open>
  \<open>app/repositories/user_role_repository.py\<close>: assigning and revoking a role in one
  exact scope, and the joins that resolve a user's roles and permissions in a
  scope.
\<close>

section \<open>Operations\<close>

text \<open>The WHERE fragment: global rows always, the organization's rows when one is given.\<close>

fun organization_scope_filter :: "uuid option \<Rightarrow> user_role \<Rightarrow> bool" where
  "organization_scope_filter None a = (ur_organization_id a = None)"
| "organization_scope_filter (Some g) a =
     (ur_organization_id a = None \<or> ur_organization_id a = Some g)"

definition new_user_role :: "uuid \<Rightarrow> uuid \<Rightarrow> uuid option \<Rightarrow> uuid \<Rightarrow> datetime \<Rightarrow> user_role" where
  "new_user_role user_id r organization_id i t =
     \<lparr>ur_id = i, ur_user_id = user_id, ur_role_id = r, ur_organization_id = organization_id,
      ur_assigned_at = t\<rparr>"

definition store_user_role :: "user_role \<Rightarrow> world \<Rightarrow> world" where
  "store_user_role a w = w\<lparr>user_roles := user_roles w @ [a]\<rparr>"

definition assignment_message :: "uuid \<Rightarrow> uuid \<Rightarrow> uuid option \<Rightarrow> string" where
  "assignment_message user_id r organization_id =
     ''User '' @ uuid_str user_id @ '' already has role '' @ uuid_str r @
     '' (organization_id='' @ opt_uuid_str organization_id @ '')''"

definition user_role_assign :: "env \<Rightarrow> uuid \<Rightarrow> uuid \<Rightarrow> uuid option \<Rightarrow> user_role py" where
  "user_role_assign X user_id r organization_id =
     insert_reporting X (new_user_role user_id r organization_id) (\<lambda>_. True) user_role_consistent
       store_user_role (DuplicateRoleAssignmentError (assignment_message user_id r organization_id))"

definition assignment_row :: "uuid \<Rightarrow> uuid \<Rightarrow> uuid option \<Rightarrow> user_role \<Rightarrow> bool" where
  "assignment_row user_id r organization_id a =
     (ur_user_id a = user_id \<and> ur_role_id a = r \<and> ur_organization_id a = organization_id)"

definition delete_user_role :: "user_role \<Rightarrow> unit py" where
  "delete_user_role a = (\<lambda>w. (Inr (), w\<lparr>user_roles := filter (\<lambda>b. ur_id b \<noteq> ur_id a) (user_roles w)\<rparr>))"

definition user_role_revoke :: "uuid \<Rightarrow> uuid \<Rightarrow> uuid option \<Rightarrow> bool py" where
  "user_role_revoke user_id r organization_id =
     and_then (scalar_one_or_none (\<lambda>w. filter (assignment_row user_id r organization_id) (user_roles w)))
       (\<lambda>found.
     case found of
       None \<Rightarrow> pure False
     | Some a \<Rightarrow> and_then (delete_user_role a) (\<lambda>_. pure True))"

definition roles_of :: "world \<Rightarrow> uuid \<Rightarrow> uuid option \<Rightarrow> role list" where
  "roles_of w user_id organization_id =
     [r. r \<leftarrow> roles w, a \<leftarrow> user_roles w,
         ur_role_id a = role_id r \<and> ur_user_id a = user_id \<and>
         organization_scope_filter organization_id a]"

definition get_roles_for_user :: "env \<Rightarrow> uuid \<Rightarrow> uuid option \<Rightarrow> role list py" where
  "get_roles_for_user X user_id organization_id =
     reads (\<lambda>w. order_by (by_role_name X) (roles_of w user_id organization_id))"

text \<open>The join of \<open>permissions\<close>, \<open>role_permissions\<close> and \<open>user_roles\<close>, before DISTINCT.\<close>

definition permissions_of :: "world \<Rightarrow> uuid \<Rightarrow> uuid option \<Rightarrow> permission list" where
  "permissions_of w user_id organization_id =
     [p. p \<leftarrow> permissions w, m \<leftarrow> role_permissions w, a \<leftarrow> user_roles w,
         rp_permission_id m = perm_id p \<and> ur_role_id a = rp_role_id m \<and> ur_user_id a = user_id \<and>
         organization_scope_filter organization_id a]"

definition get_permissions_for_user :: "env \<Rightarrow> uuid \<Rightarrow> uuid option \<Rightarrow> permission list py" where
  "get_permissions_for_user X user_id organization_id =
     reads (\<lambda>w. order_by (by_resource_action X) (remdups (permissions_of w user_id organization_id)))"

section \<open>What the operations do\<close>

lemma user_role_consistent_draws [simp]:
  "user_role_consistent (w\<lparr>draws := n\<rparr>) a = user_role_consistent w a"
  by (simp add: user_role_consistent_def uq_user_roles_user_role_global_def
      uq_user_roles_user_role_org_def)

lemma user_role_consistent_iff:
  "user_role_consistent w a \<longleftrightarrow>
   ur_id a \<notin> ids ur_id (user_roles w) \<and> assignment_key a \<notin> assignment_key ` set (user_roles w) \<and>
   ur_user_id a \<in> ids usr_id (users w) \<and> ur_role_id a \<in> ids role_id (roles w) \<and>
   refers (ur_organization_id a) (ids org_id (organizations w))"
  unfolding user_role_consistent_def using partial_indexes_key [of w a] by blast

lemma user_role_assign_run [op_run]:
  assumes "db_ok X w" and "collision_free X n" and "draws w < n"
  shows "user_role_assign X u r g w =
    (let a = new_user_role u r g (gen_random_uuid X (draws w)) (db_now X (Suc (draws w)))
     in if (u, r, g) \<in> assignment_key ` set (user_roles w) \<or> u \<notin> ids usr_id (users w) \<or>
           r \<notin> ids role_id (roles w) \<or> \<not> refers g (ids org_id (organizations w))
        then (Inl (Repository (DuplicateRoleAssignmentError (assignment_message u r g))),
              w\<lparr>draws := Suc (Suc (draws w))\<rparr>)
        else (Inr a, w\<lparr>user_roles := user_roles w @ [a], draws := Suc (Suc (draws w))\<rparr>))"
proof -
  have "gen_random_uuid X (draws w) \<notin> ids ur_id (user_roles w)"
    using fresh_id [of X w n "draws w"] assms(1-3) by (auto simp: db_ok_def world_ids_def)
  then show ?thesis
    by (simp add: user_role_assign_def insert_reporting_run user_role_consistent_iff
        assignment_key_def new_user_role_def store_user_role_def Let_def)
qed

lemma user_role_assign_cases:
  assumes "user_role_assign X u r g w = (res, w')"
  obtains (stored) a where "res = Inr a"
      "w' = w\<lparr>user_roles := user_roles w @ [a], draws := Suc (Suc (draws w))\<rparr>"
      "a = new_user_role u r g (gen_random_uuid X (draws w)) (db_now X (Suc (draws w)))"
      "user_role_consistent w a"
  | (rejected) e where "res = Inl e" "w' = w\<lparr>draws := Suc (Suc (draws w))\<rparr>"
      "e \<in> {Repository (DuplicateRoleAssignmentError (assignment_message u r g)), Sql DataError}"
  using assms unfolding user_role_assign_def
  by (cases rule: insert_reporting_cases) (auto simp: store_user_role_def intro: that)

lemma db_ok_user_roles:
  "db_ok X w \<Longrightarrow> distinct (map assignment_key (user_roles w))"
  "db_ok X w \<Longrightarrow> distinct (map ur_id (user_roles w))"
  by (simp_all add: db_ok_def keys_unique_def)

lemma assignment_select:
  assumes "distinct (map assignment_key (user_roles w))"
  shows "filter (assignment_row u r g) (user_roles w) =
    (case find (\<lambda>a. assignment_key a = (u, r, g)) (user_roles w) of None \<Rightarrow> [] | Some a \<Rightarrow> [a])"
  using filter_key [OF assms, of "(u, r, g)"]
  by (simp add: assignment_row_def assignment_key_def cong: filter_cong)

lemma user_role_revoke_run [op_run]:
  assumes "db_ok X w"
  shows "user_role_revoke u r g w =
    (Inr ((u, r, g) \<in> assignment_key ` set (user_roles w)),
     w\<lparr>user_roles := filter (\<lambda>a. assignment_key a \<noteq> (u, r, g)) (user_roles w)\<rparr>)"
proof (cases "find (\<lambda>a. assignment_key a = (u, r, g)) (user_roles w)")
  case None
  then have n: "(u, r, g) \<notin> assignment_key ` set (user_roles w)"
    by (simp only: find_key_None not_False_eq_True)
  with None filter_no_key [OF n] show ?thesis
    by (simp add: user_role_revoke_def run_simps scalar_one_or_none_def
        assignment_select [OF db_ok_user_roles(1) [OF assms]])
next
  case (Some a)
  from find_key_Some [OF this]
  have a: "a \<in> set (user_roles w)" "assignment_key a = (u, r, g)" by auto
  then have "(u, r, g) \<in> assignment_key ` set (user_roles w)" by (metis image_eqI)
  with Some a filter_id_key [OF db_ok_user_roles(2,1) [OF assms] a(1)] show ?thesis
    by (simp add: user_role_revoke_def run_simps scalar_one_or_none_def delete_user_role_def
        assignment_select [OF db_ok_user_roles(1) [OF assms]])
qed

section \<open>Resolution\<close>

text \<open>
  \<open>grants\<close>: what the join means. Some assignment of the user that is in force in
  the scope carries a role to which the permission is attached.
\<close>

definition grants :: "world \<Rightarrow> uuid \<Rightarrow> uuid option \<Rightarrow> permission \<Rightarrow> bool" where
  "grants w user_id organization_id p =
     (\<exists>a \<in> set (user_roles w). ur_user_id a = user_id \<and> organization_scope_filter organization_id a \<and>
        (\<exists>m \<in> set (role_permissions w).
           rp_role_id m = ur_role_id a \<and> rp_permission_id m = perm_id p))"

lemma set_permissions_of: "set (permissions_of w u g) = {p \<in> set (permissions w). grants w u g p}"
proof (rule set_eqI)
  fix p
  have "p \<in> set (permissions_of w u g) \<longleftrightarrow> p \<in> set (permissions w) \<and>
      (\<exists>m \<in> set (role_permissions w). \<exists>a \<in> set (user_roles w).
         rp_permission_id m = perm_id p \<and> ur_role_id a = rp_role_id m \<and> ur_user_id a = u \<and>
         organization_scope_filter g a)"
    unfolding permissions_of_def by auto
  then show "p \<in> set (permissions_of w u g) \<longleftrightarrow> p \<in> {p \<in> set (permissions w). grants w u g p}"
    unfolding grants_def mem_Collect_eq by metis
qed

lemma get_permissions_for_user_run [op_run]:
  "get_permissions_for_user X u g w =
     (Inr (order_by (by_resource_action X) (remdups (permissions_of w u g))), w)"
  by (simp add: get_permissions_for_user_def run_simps)

lemma scope_filter_widens:
  "organization_scope_filter None a \<Longrightarrow> organization_scope_filter g a"
  by (cases g) auto

lemma grants_widens: "grants w u None p \<Longrightarrow> grants w u g p"
  unfolding grants_def using scope_filter_widens by blast

section \<open>What they leave alone\<close>

lemma user_role_assign_keeps: "obeys (keeps (db_ok X)) (user_role_assign X u r g)"
  unfolding user_role_assign_def
  by (rule insert_reporting_keeps)
    (simp_all add: db_ok_draws new_user_role_def store_user_role_def db_ok_insert_user_role)

lemma user_role_assign_same:
  assumes "\<And>w n. f (w\<lparr>draws := n\<rparr>) = f w" and "\<And>w as. f (w\<lparr>user_roles := as\<rparr>) = f w"
  shows "obeys (same f) (user_role_assign X u r g)"
  unfolding user_role_assign_def
  by (rule insert_reporting_same) (simp_all add: assms store_user_role_def)

lemma user_role_revoke_keeps: "obeys (keeps (db_ok X)) (user_role_revoke u r g)"
proof -
  have "obeys (keeps (db_ok X)) (delete_user_role a)" for a
    by (simp add: obeys_def keeps_def delete_user_role_def db_ok_delete_user_role)
  then show ?thesis unfolding user_role_revoke_def
    by (intro keeping.rules quiet_keeps_db_ok [OF scalar_one_or_none_quiet])
qed

lemma user_role_revoke_same:
  assumes "\<And>w as. f (w\<lparr>user_roles := as\<rparr>) = f w"
  shows "obeys (same f) (user_role_revoke u r g)"
proof -
  have "obeys (same f) (delete_user_role a)" for a
    by (simp add: obeys_def same_def delete_user_role_def assms)
  moreover have "obeys (same f) (scalar_one_or_none q)" for q :: "world \<Rightarrow> user_role list"
    by (simp add: obeys_def same_def)
  ultimately show ?thesis unfolding user_role_revoke_def by (intro framing.rules)
qed

lemma user_role_get_quiet:
  "obeys quiet (get_roles_for_user X u g)" "obeys quiet (get_permissions_for_user X u g)"
  by (simp_all add: get_roles_for_user_def get_permissions_for_user_def quieting.reads)

section \<open>The contract\<close>

interpretation assignment_store: link_store
  "\<lambda>k. user_role_assign X (fst k) (fst (snd k)) (snd (snd k))"
  "\<lambda>k. user_role_revoke (fst k) (fst (snd k)) (snd (snd k))"
  user_roles assignment_key "db_ok X"
  for X :: env
proof
  fix k and w :: world and res w'
  assume "user_role_assign X (fst k) (fst (snd k)) (snd (snd k)) w = (res, w')"
  then show "(\<exists>x r. res = Inr x \<and> user_roles w' = user_roles w @ [r] \<and> assignment_key r = k \<and>
      k \<notin> assignment_key ` set (user_roles w)) \<or> (\<exists>e. res = Inl e \<and> user_roles w' = user_roles w)"
    by (cases rule: user_role_assign_cases)
      (auto simp: user_role_consistent_iff new_user_role_def assignment_key_def)
qed (simp_all add: db_ok_user_roles user_role_assign_keeps user_role_revoke_keeps user_role_revoke_run)

end
