(* ===== verification/Organization_Repository.thy ===== *)
theory Organization_Repository
  imports Interfaces
begin

text \<open>
  \<open>app/repositories/organization_repository.py\<close> and
  \<open>organization_membership_repository.py\<close>: organizations by id and name, and the
  membership table with its two joins.
\<close>

section \<open>Organizations\<close>

definition new_organization :: "string \<Rightarrow> uuid \<Rightarrow> datetime \<Rightarrow> organization" where
  "new_organization name i t = \<lparr>org_id = i, org_name = name, org_created_at = t\<rparr>"

definition store_organization :: "organization \<Rightarrow> world \<Rightarrow> world" where
  "store_organization g w = w\<lparr>organizations := organizations w @ [g]\<rparr>"

definition organization_create :: "env \<Rightarrow> string \<Rightarrow> organization py" where
  "organization_create X name =
     insert_reporting X (new_organization name) organization_fits organization_consistent
       store_organization
       (DuplicateOrganizationNameError (''Organization name already exists: '' @ name))"

definition organization_get_by_id :: "uuid \<Rightarrow> organization option py" where
  "organization_get_by_id organization_id =
     scalar_one_or_none (\<lambda>w. filter (\<lambda>g. org_id g = organization_id) (organizations w))"

definition organization_get_by_name :: "string \<Rightarrow> organization option py" where
  "organization_get_by_name name =
     scalar_one_or_none (\<lambda>w. filter (\<lambda>g. org_name g = name) (organizations w))"

definition by_org_name :: "env \<Rightarrow> organization \<Rightarrow> organization \<Rightarrow> bool" where
  "by_org_name X a b = collate X (org_name a) (org_name b)"

definition organization_list_all :: "env \<Rightarrow> organization list py" where
  "organization_list_all X = reads (\<lambda>w. order_by (by_org_name X) (organizations w))"

section \<open>Memberships\<close>

definition new_membership :: "uuid \<Rightarrow> uuid \<Rightarrow> uuid \<Rightarrow> datetime \<Rightarrow> organization_membership" where
  "new_membership user_id organization_id i t =
     \<lparr>mem_id = i, mem_user_id = user_id, mem_organization_id = organization_id, mem_joined_at = t\<rparr>"

definition store_membership :: "organization_membership \<Rightarrow> world \<Rightarrow> world" where
  "store_membership m w = w\<lparr>organization_memberships := organization_memberships w @ [m]\<rparr>"

definition membership_add :: "env \<Rightarrow> uuid \<Rightarrow> uuid \<Rightarrow> organization_membership py" where
  "membership_add X user_id organization_id =
     insert_reporting X (new_membership user_id organization_id) (\<lambda>_. True) membership_consistent
       store_membership
       (DuplicateMembershipError (''User '' @ uuid_str user_id @
          '' is already a member of organization '' @ uuid_str organization_id))"

text \<open>The WHERE clause of a user and an organization.\<close>

definition membership_row :: "uuid \<Rightarrow> uuid \<Rightarrow> organization_membership \<Rightarrow> bool" where
  "membership_row user_id organization_id m =
     (mem_user_id m = user_id \<and> mem_organization_id m = organization_id)"

definition delete_membership :: "organization_membership \<Rightarrow> unit py" where
  "delete_membership m = (\<lambda>w. (Inr (), w\<lparr>organization_memberships :=
     filter (\<lambda>n. mem_id n \<noteq> mem_id m) (organization_memberships w)\<rparr>))"

definition membership_remove :: "uuid \<Rightarrow> uuid \<Rightarrow> bool py" where
  "membership_remove user_id organization_id =
     and_then (scalar_one_or_none (\<lambda>w.
       filter (membership_row user_id organization_id) (organization_memberships w))) (\<lambda>membership.
     case membership of
       None \<Rightarrow> pure False
     | Some m \<Rightarrow> and_then (delete_membership m) (\<lambda>_. pure True))"

definition is_member :: "uuid \<Rightarrow> uuid \<Rightarrow> bool py" where
  "is_member user_id organization_id =
     and_then (scalar_one_or_none (\<lambda>w. map mem_id
       (filter (membership_row user_id organization_id) (organization_memberships w)))) (\<lambda>r.
     pure (r \<noteq> None))"

definition get_organizations_for_user :: "env \<Rightarrow> uuid \<Rightarrow> organization list py" where
  "get_organizations_for_user X user_id = reads (\<lambda>w. order_by (by_org_name X)
     [g. g \<leftarrow> organizations w, m \<leftarrow> organization_memberships w,
         mem_organization_id m = org_id g \<and> mem_user_id m = user_id])"

record member_row =
  member_user_id :: uuid
  member_email :: string
  member_joined_at :: datetime

definition by_joined_at :: "member_row \<Rightarrow> member_row \<Rightarrow> bool" where
  "by_joined_at a b = (member_joined_at a \<le> member_joined_at b)"

definition get_members_for_organization :: "uuid \<Rightarrow> member_row list py" where
  "get_members_for_organization organization_id = reads (\<lambda>w. order_by by_joined_at
     [\<lparr>member_user_id = usr_id u, member_email = usr_email u, member_joined_at = mem_joined_at m\<rparr>.
        u \<leftarrow> users w, m \<leftarrow> organization_memberships w,
        mem_user_id m = usr_id u \<and> mem_organization_id m = organization_id])"

section \<open>What the operations do\<close>

lemma organization_consistent_draws [simp]:
  "organization_consistent (w\<lparr>draws := n\<rparr>) g = organization_consistent w g"
  by (simp add: organization_consistent_def)

lemma membership_consistent_draws [simp]:
  "membership_consistent (w\<lparr>draws := n\<rparr>) m = membership_consistent w m"
  by (simp add: membership_consistent_def)

lemma organization_create_run [op_run]:
  assumes "db_ok X w" and "collision_free X n" and "draws w < n" and "length name \<le> 255"
  shows "organization_create X name w =
    (let g = new_organization name (gen_random_uuid X (draws w)) (db_now X (Suc (draws w)))
     in if name \<in> org_name ` set (organizations w)
        then (Inl (Repository (DuplicateOrganizationNameError
                (''Organization name already exists: '' @ name))), w\<lparr>draws := Suc (Suc (draws w))\<rparr>)
        else (Inr g, w\<lparr>organizations := organizations w @ [g], draws := Suc (Suc (draws w))\<rparr>))"
proof -
  have "gen_random_uuid X (draws w) \<notin> ids org_id (organizations w)"
    using fresh_id [of X w n "draws w"] assms(1-3) by (auto simp: db_ok_def world_ids_def)
  with assms(4) show ?thesis
    by (simp add: organization_create_def insert_reporting_run organization_fits_def
        organization_consistent_def new_organization_def store_organization_def Let_def)
qed

lemma organization_create_cases:
  assumes "organization_create X name w = (res, w')"
  obtains (stored) g where "res = Inr g"
      "w' = w\<lparr>organizations := organizations w @ [g], draws := Suc (Suc (draws w))\<rparr>"
      "g = new_organization name (gen_random_uuid X (draws w)) (db_now X (Suc (draws w)))"
      "organization_consistent w g"
  | (rejected) e where "res = Inl e" "w' = w\<lparr>draws := Suc (Suc (draws w))\<rparr>"
      "e \<in> {Repository (DuplicateOrganizationNameError (''Organization name already exists: '' @ name)),
            Sql DataError}"
  using assms unfolding organization_create_def
  by (cases rule: insert_reporting_cases) (auto simp: store_organization_def intro: that)

lemma organization_get_by_id_run [op_run]:
  "db_ok X w \<Longrightarrow> organization_get_by_id i w = (Inr (find (\<lambda>g. org_id g = i) (organizations w)), w)"
  unfolding organization_get_by_id_def
  by (rule scalar_one_or_none_key) (simp add: db_ok_def keys_unique_def)

lemma organization_get_by_name_run [op_run]:
  "db_ok X w \<Longrightarrow> organization_get_by_name name w =
    (Inr (find (\<lambda>g. org_name g = name) (organizations w)), w)"
  unfolding organization_get_by_name_def
  by (rule scalar_one_or_none_key) (simp add: db_ok_def keys_unique_def)

lemma membership_add_run [op_run]:
  assumes "db_ok X w" and "collision_free X n" and "draws w < n"
    and "u \<in> ids usr_id (users w)" and "g \<in> ids org_id (organizations w)"
  shows "membership_add X u g w =
    (let m = new_membership u g (gen_random_uuid X (draws w)) (db_now X (Suc (draws w)))
     in if (u, g) \<in> membership_key ` set (organization_memberships w)
        then (Inl (Repository (DuplicateMembershipError (''User '' @ uuid_str u @
                '' is already a member of organization '' @ uuid_str g))),
              w\<lparr>draws := Suc (Suc (draws w))\<rparr>)
        else (Inr m, w\<lparr>organization_memberships := organization_memberships w @ [m],
                       draws := Suc (Suc (draws w))\<rparr>))"
proof -
  have "gen_random_uuid X (draws w) \<notin> ids mem_id (organization_memberships w)"
    using fresh_id [of X w n "draws w"] assms(1-3) by (auto simp: db_ok_def world_ids_def)
  with assms(4,5) show ?thesis
    by (simp add: membership_add_def insert_reporting_run membership_consistent_def
        new_membership_def store_membership_def membership_key_def Let_def)
qed

lemma membership_add_cases:
  assumes "membership_add X u g w = (res, w')"
  obtains (stored) m where "res = Inr m"
      "w' = w\<lparr>organization_memberships := organization_memberships w @ [m], draws := Suc (Suc (draws w))\<rparr>"
      "m = new_membership u g (gen_random_uuid X (draws w)) (db_now X (Suc (draws w)))"
      "membership_consistent w m"
  | (rejected) e where "res = Inl e" "w' = w\<lparr>draws := Suc (Suc (draws w))\<rparr>"
      "e \<in> {Repository (DuplicateMembershipError (''User '' @ uuid_str u @
              '' is already a member of organization '' @ uuid_str g)), Sql DataError}"
  using assms unfolding membership_add_def
  by (cases rule: insert_reporting_cases) (auto simp: store_membership_def intro: that)

lemma membership_row_key: "membership_row u g m \<longleftrightarrow> membership_key m = (u, g)"
  by (simp add: membership_row_def membership_key_def)

lemma membership_select:
  assumes "distinct (map membership_key (organization_memberships w))"
  shows "filter (membership_row u g) (organization_memberships w) =
    (case find (\<lambda>m. membership_key m = (u, g)) (organization_memberships w) of
       None \<Rightarrow> [] | Some m \<Rightarrow> [m])"
  using filter_key [OF assms, of "(u, g)"] by (simp add: membership_row_key cong: filter_cong)

lemma is_member_run [op_run]:
  assumes "distinct (map membership_key (organization_memberships w))"
  shows "is_member u g w = (Inr ((u, g) \<in> membership_key ` set (organization_memberships w)), w)"
proof (cases "find (\<lambda>m. membership_key m = (u, g)) (organization_memberships w)")
  case None
  then have "(u, g) \<notin> membership_key ` set (organization_memberships w)"
    by (simp only: find_key_None not_False_eq_True)
  with None show ?thesis
    by (simp add: is_member_def run_simps scalar_one_or_none_def membership_select [OF assms])
next
  case (Some m)
  from find_key_Some [OF this] have "(u, g) \<in> membership_key ` set (organization_memberships w)"
    by (metis image_eqI)
  with Some show ?thesis
    by (simp add: is_member_def run_simps scalar_one_or_none_def membership_select [OF assms])
qed

lemma membership_remove_run [op_run]:
  assumes "distinct (map membership_key (organization_memberships w))"
    and "distinct (map mem_id (organization_memberships w))"
  shows "membership_remove u g w =
    (Inr ((u, g) \<in> membership_key ` set (organization_memberships w)),
     w\<lparr>organization_memberships :=
         filter (\<lambda>m. membership_key m \<noteq> (u, g)) (organization_memberships w)\<rparr>)"
proof (cases "find (\<lambda>m. membership_key m = (u, g)) (organization_memberships w)")
  case None
  then have n: "(u, g) \<notin> membership_key ` set (organization_memberships w)"
    by (simp only: find_key_None not_False_eq_True)
  with None filter_no_key [OF n] show ?thesis
    by (simp add: membership_remove_def run_simps scalar_one_or_none_def membership_select [OF assms(1)])
next
  case (Some m)
  from find_key_Some [OF this]
  have m: "m \<in> set (organization_memberships w)" "membership_key m = (u, g)" by auto
  then have "(u, g) \<in> membership_key ` set (organization_memberships w)" by (metis image_eqI)
  with Some m filter_id_key [OF assms(2,1) m(1)] show ?thesis
    by (simp add: membership_remove_def run_simps scalar_one_or_none_def delete_membership_def
        membership_select [OF assms(1)])
qed

lemma db_ok_memberships:
  "db_ok X w \<Longrightarrow> distinct (map membership_key (organization_memberships w))"
  "db_ok X w \<Longrightarrow> distinct (map mem_id (organization_memberships w))"
  by (simp_all add: db_ok_def keys_unique_def)

section \<open>What they leave alone\<close>

lemma organization_create_keeps: "obeys (keeps (db_ok X)) (organization_create X name)"
  unfolding organization_create_def
  by (rule insert_reporting_keeps)
    (simp_all add: db_ok_draws new_organization_def store_organization_def db_ok_insert_organization)

lemma organization_create_same:
  assumes "\<And>w n. f (w\<lparr>draws := n\<rparr>) = f w" and "\<And>w gs. f (w\<lparr>organizations := gs\<rparr>) = f w"
  shows "obeys (same f) (organization_create X name)"
  unfolding organization_create_def
  by (rule insert_reporting_same) (simp_all add: assms store_organization_def)

lemma membership_add_keeps: "obeys (keeps (db_ok X)) (membership_add X u g)"
  unfolding membership_add_def
  by (rule insert_reporting_keeps)
    (simp_all add: db_ok_draws new_membership_def store_membership_def db_ok_insert_membership)

lemma membership_add_same:
  assumes "\<And>w n. f (w\<lparr>draws := n\<rparr>) = f w" and "\<And>w ms. f (w\<lparr>organization_memberships := ms\<rparr>) = f w"
  shows "obeys (same f) (membership_add X u g)"
  unfolding membership_add_def
  by (rule insert_reporting_same) (simp_all add: assms store_membership_def)

lemma membership_remove_keeps: "obeys (keeps (db_ok X)) (membership_remove u g)"
proof -
  have "obeys (keeps (db_ok X)) (delete_membership m)" for m
    by (simp add: obeys_def keeps_def delete_membership_def db_ok_delete_membership)
  then show ?thesis unfolding membership_remove_def
    by (intro keeping.rules quiet_keeps_db_ok [OF scalar_one_or_none_quiet])
qed

lemma membership_remove_same:
  assumes "\<And>w ms. f (w\<lparr>organization_memberships := ms\<rparr>) = f w"
  shows "obeys (same f) (membership_remove u g)"
proof -
  have "obeys (same f) (delete_membership m)" for m
    by (simp add: obeys_def same_def delete_membership_def assms)
  moreover have "obeys (same f) (scalar_one_or_none q)" for q :: "world \<Rightarrow> 'a list"
    by (simp add: obeys_def same_def)
  ultimately show ?thesis unfolding membership_remove_def
    by (intro framing.rules) (simp_all add: obeys_def same_def)
qed

lemma organization_get_quiet:
  "obeys quiet (organization_get_by_id i)" "obeys quiet (organization_get_by_name name)"
  "obeys quiet (is_member u g)" "obeys quiet (organization_list_all X)"
  "obeys quiet (get_organizations_for_user X u)" "obeys quiet (get_members_for_organization g)"
  by (auto simp: organization_get_by_id_def organization_get_by_name_def is_member_def
      organization_list_all_def get_organizations_for_user_def get_members_for_organization_def
      intro!: quieting.rules scalar_one_or_none_quiet)

section \<open>The contracts\<close>

interpretation organization_store: entity_store
  "organization_create X" organization_get_by_name organizations org_name "\<lambda>n. n" "\<lambda>n. n"
  for X :: env
proof
  fix d and w :: world and res w'
  assume "organization_create X d w = (res, w')"
  then show "(\<exists>r. res = Inr r \<and> organizations w' = organizations w @ [r] \<and> org_name r = d \<and>
      org_name r \<notin> org_name ` set (organizations w)) \<or>
      (\<exists>e. res = Inl e \<and> organizations w' = organizations w)"
    by (cases rule: organization_create_cases) (auto simp: organization_consistent_def new_organization_def)
next
  fix k and w :: world
  assume "distinct (map org_name (organizations w))"
  then show "organization_get_by_name k w = (Inr (find (\<lambda>r. org_name r = k) (organizations w)), w)"
    unfolding organization_get_by_name_def by (rule scalar_one_or_none_key)
qed

interpretation membership_store: queried_link_store
  "\<lambda>k. membership_add X (fst k) (snd k)" "\<lambda>k. membership_remove (fst k) (snd k)"
  organization_memberships membership_key "db_ok X" "\<lambda>k. is_member (fst k) (snd k)"
  for X :: env
proof
  fix k and w :: world and res w'
  assume "membership_add X (fst k) (snd k) w = (res, w')"
  then show "(\<exists>x r. res = Inr x \<and> organization_memberships w' = organization_memberships w @ [r] \<and>
      membership_key r = k \<and> k \<notin> membership_key ` set (organization_memberships w)) \<or>
      (\<exists>e. res = Inl e \<and> organization_memberships w' = organization_memberships w)"
    by (cases rule: membership_add_cases)
      (auto simp: membership_consistent_def new_membership_def membership_key_def)
qed (simp_all add: db_ok_memberships membership_add_keeps membership_remove_keeps
    membership_remove_run is_member_run)

end
