(* ===== verification/Frames.thy ===== *)
theory Frames
  imports User_Repository Refresh_Token_Repository User_Role_Repository Organization_Repository
    Audit_Log_Repository Sample
begin

text \<open>
  What the calls of the permission and organization repositories leave alone:
  the accounts and the sessions. The invariants of the token ledger survive such a call because its tables do.
\<close>

definition accounts_kept :: "world \<Rightarrow> world \<Rightarrow> bool" where
  "accounts_kept w w' = (users w' = users w \<and> refresh_tokens w' = refresh_tokens w \<and>
     draws w \<le> draws w')"

interpretation accounts: history accounts_kept
  by unfold_locales (auto simp: accounts_kept_def)

lemma quiet_accounts: "obeys quiet m \<Longrightarrow> obeys accounts_kept m"
  by (erule obeys_mono) (auto simp: quiet_iff accounts_kept_def)

lemma accounts_idents: "obeys accounts_kept m \<Longrightarrow> obeys idents_kept m"
  by (erule obeys_mono) (simp add: accounts_kept_def idents_kept_def token_idents_def)

lemma accounts_ledger:
  assumes "obeys accounts_kept m" and "obeys (keeps (db_ok X)) m"
  shows "obeys (keeps (ledger_ok X)) m"
  by (rule keeps_ledger [OF assms(2)], rule obeys_mono [OF assms(1)])
    (simp add: accounts_kept_def same_def)

lemma insert_accounts:
  assumes "\<And>w n r. accounts_kept w (store r (w\<lparr>draws := n\<rparr>)) \<longleftrightarrow> draws w \<le> n"
  shows "obeys accounts_kept (insert_new X mk fits consistent store)"
proof (rule insert_new_obeys, rule accounts.refl, erule (1) accounts.trans)
  fix w :: world and i t
  show "accounts_kept w (store (mk i t) w)" using assms [of w "mk i t" "draws w"] by simp
qed (simp add: accounts_kept_def)

lemma insert_reporting_accounts:
  assumes "\<And>w n r. accounts_kept w (store r (w\<lparr>draws := n\<rparr>)) \<longleftrightarrow> draws w \<le> n"
  shows "obeys accounts_kept (insert_reporting X mk fits consistent store err)"
  by (rule insert_reporting_obeys [OF accounts.history_axioms insert_accounts [OF assms]])

lemma audit_record_accounts: "obeys accounts_kept (audit_record X a ac tt ti og md)"
  unfolding audit_record_def
  by (rule insert_accounts) (simp add: accounts_kept_def store_audit_log_def)

lemma role_create_accounts: "obeys accounts_kept (role_create X name d g)"
  unfolding role_create_def
  by (rule insert_reporting_accounts) (simp add: accounts_kept_def store_role_def)

lemma user_role_assign_accounts: "obeys accounts_kept (user_role_assign X u r g)"
  unfolding user_role_assign_def
  by (rule insert_reporting_accounts) (simp add: accounts_kept_def store_user_role_def)

lemma organization_create_accounts: "obeys accounts_kept (organization_create X name)"
  unfolding organization_create_def
  by (rule insert_reporting_accounts) (simp add: accounts_kept_def store_organization_def)

lemma membership_add_accounts: "obeys accounts_kept (membership_add X u g)"
  unfolding membership_add_def
  by (rule insert_reporting_accounts) (simp add: accounts_kept_def store_membership_def)

lemma user_role_revoke_accounts: "obeys accounts_kept (user_role_revoke u r g)"
proof -
  have "obeys accounts_kept (delete_user_role a)" for a
    by (simp add: obeys_def accounts_kept_def delete_user_role_def)
  then show ?thesis unfolding user_role_revoke_def
    by (intro accounts.rules quiet_accounts [OF scalar_one_or_none_quiet])
qed

lemma membership_remove_accounts: "obeys accounts_kept (membership_remove u g)"
proof -
  have "obeys accounts_kept (delete_membership m)" for m
    by (simp add: obeys_def accounts_kept_def delete_membership_def)
  then show ?thesis unfolding membership_remove_def
    by (intro accounts.rules quiet_accounts [OF scalar_one_or_none_quiet])
qed

lemma grant_accounts:
  "obeys accounts_kept (add_permission i p)" "obeys accounts_kept (remove_permission i p)"
  by (simp_all add: obeys_def accounts_kept_def add_permission_run remove_permission_run)

lemmas reads_quiet_all = user_get_quiet organization_get_quiet role_get_quiet user_role_get_quiet

lemmas account_steps = accounts.rules reads_quiet_all [THEN quiet_accounts] audit_record_accounts
  role_create_accounts user_role_assign_accounts organization_create_accounts membership_add_accounts
  user_role_revoke_accounts membership_remove_accounts grant_accounts

lemmas db_steps = keeping.rules reads_quiet_all [THEN quiet_keeps_db_ok] audit_record_keeps
  role_create_keeps user_role_assign_keeps organization_create_keeps membership_add_keeps
  user_role_revoke_keeps membership_remove_keeps add_permission_keeps remove_permission_keeps

text \<open>No call rewrites the audit log.\<close>

lemma quiet_log_grows: "obeys quiet m \<Longrightarrow> obeys (grows audit_logs) m"
  by (erule quiet_grows) simp

lemma unlogged:
  "obeys (grows audit_logs) (role_create X name d g)" "obeys (grows audit_logs) (user_role_assign X u r g)"
  "obeys (grows audit_logs) (organization_create X name)" "obeys (grows audit_logs) (membership_add X u o1)"
  "obeys (grows audit_logs) (user_role_revoke u r g)" "obeys (grows audit_logs) (membership_remove u o1)"
  "obeys (grows audit_logs) (add_permission r p)" "obeys (grows audit_logs) (remove_permission r p)"
proof -
  have g: "obeys (grows audit_logs) m" if "obeys (same audit_logs) m" for m :: "'a py"
    using that by (rule obeys_mono) (simp add: same_def grows_def)
  show "obeys (grows audit_logs) (role_create X name d g)" by (rule g, rule role_create_same) simp_all
  show "obeys (grows audit_logs) (user_role_assign X u r g)" by (rule g, rule user_role_assign_same) simp_all
  show "obeys (grows audit_logs) (organization_create X name)" by (rule g, rule organization_create_same) simp_all
  show "obeys (grows audit_logs) (membership_add X u o1)" by (rule g, rule membership_add_same) simp_all
  show "obeys (grows audit_logs) (user_role_revoke u r g)" by (rule g, rule user_role_revoke_same) simp_all
  show "obeys (grows audit_logs) (membership_remove u o1)" by (rule g, rule membership_remove_same) simp_all
  show "obeys (grows audit_logs) (add_permission r p)" by (rule g, rule add_permission_same) simp_all
  show "obeys (grows audit_logs) (remove_permission r p)" by (rule g, rule remove_permission_same) simp_all
qed

lemmas log_steps = growing.rules reads_quiet_all [THEN quiet_log_grows] audit_record_grows unlogged

section \<open>Organization-scoped roles\<close>

text \<open>
  \<open>scopes_ok\<close>: a role that belongs to an organization is assigned only within that
  organization.
\<close>

definition scopes_ok :: "world \<Rightarrow> bool" where
  "scopes_ok w = (\<forall>a \<in> set (user_roles w). \<forall>r \<in> set (roles w).
     role_id r = ur_role_id a \<longrightarrow>
     role_organization_id r = None \<or> role_organization_id r = ur_organization_id a)"

definition scoped :: "env \<Rightarrow> world \<Rightarrow> bool" where
  "scoped X w = (db_ok X w \<and> scopes_ok w)"

lemma keeps_scoped:
  "obeys (keeps (db_ok X)) m \<Longrightarrow> obeys (same roles) m \<Longrightarrow> obeys (same user_roles) m \<Longrightarrow>
   obeys (keeps (scoped X)) m"
  by (simp add: obeys_def keeps_def same_def scoped_def scopes_ok_def)

lemma role_create_scoped: "obeys (keeps (scoped X)) (role_create X name d g)"
proof (rule obeysI)
  fix w res w'
  assume run: "role_create X name d g w = (res, w')"
  show "keeps (scoped X) w w'"
    unfolding keeps_def
  proof
    assume ok: "scoped X w"
    have db: "db_ok X w'" using obeysD [OF role_create_keeps run] ok by (simp add: keeps_def scoped_def)
    from run show "scoped X w'"
    proof (cases rule: role_create_cases)
      case (stored r)
      have "role_id r \<noteq> ur_role_id a" if "a \<in> set (user_roles w)" for a
        using that ok stored(4) by (auto simp: scoped_def db_ok_def refs_ok_def role_consistent_def)
      with db ok show ?thesis by (auto simp: scoped_def scopes_ok_def stored(2))
    qed (use db ok in \<open>simp add: scoped_def scopes_ok_def\<close>)
  qed
qed

lemma user_role_revoke_scoped: "obeys (keeps (scoped X)) (user_role_revoke u i g)"
proof -
  have "scoped X (snd (user_role_revoke u i g w))" if "scoped X w" for w
  proof -
    have ok: "db_ok X w" using that by (simp add: scoped_def)
    from obeys_keepsD [OF user_role_revoke_keeps this] show ?thesis
      using that by (auto simp: user_role_revoke_run [OF ok] scoped_def scopes_ok_def)
  qed
  then show ?thesis by (simp add: obeys_def keeps_def)
qed

text \<open>An assignment keeps the scopes if the role in hand admits the organization.\<close>

definition role_held :: "env \<Rightarrow> role \<Rightarrow> world \<Rightarrow> bool" where
  "role_held X r w = (scoped X w \<and> r \<in> set (roles w))"

lemma keeps_role_held:
  "obeys (keeps (db_ok X)) m \<Longrightarrow> obeys (same roles) m \<Longrightarrow> obeys (same user_roles) m \<Longrightarrow>
   obeys (keeps (role_held X r)) m"
  by (simp add: obeys_def keeps_def same_def role_held_def scoped_def scopes_ok_def)

lemma user_role_assign_scoped:
  assumes fit: "role_organization_id r = None \<or> role_organization_id r = g"
  shows "obeys (keeps (role_held X r)) (user_role_assign X u (role_id r) g)"
proof (rule obeysI)
  fix w res w'
  assume run: "user_role_assign X u (role_id r) g w = (res, w')"
  show "keeps (role_held X r) w w'"
    unfolding keeps_def
  proof
    assume ok: "role_held X r w"
    have db: "db_ok X w'"
      using obeysD [OF user_role_assign_keeps run] ok by (simp add: keeps_def scoped_def role_held_def)
    from run show "role_held X r w'"
    proof (cases rule: user_role_assign_cases)
      case (stored a)
      have "s = r" if "s \<in> set (roles w)" "role_id s = role_id r" for s
        using that ok distinct_map_eqD [of role_id "roles w" s r]
        by (simp add: role_held_def scoped_def db_ok_def keys_unique_def)
      with fit have "role_organization_id s = None \<or> role_organization_id s = g"
        if "s \<in> set (roles w)" "role_id s = role_id r" for s
        using that by blast
      with db ok show ?thesis
        by (auto simp: role_held_def scoped_def scopes_ok_def stored(2,3) new_user_role_def)
    qed (use db ok in \<open>simp add: role_held_def scoped_def scopes_ok_def\<close>)
  qed
qed

end
