(* ===== verification/Authorization_Service.thy ===== *)
theory Authorization_Service
  imports Frames
begin

text \<open>
  \<open>app/domain/services/authorization_service.py\<close>: the permission check, and the
  five operations that change the role and permission graph, each with its audit
  event.
\<close>

section \<open>Operations\<close>

record authorization_decision =
  dec_allowed :: bool
  dec_resource :: string
  dec_action :: string
  dec_organization_id :: "uuid option"

record role_response =
  rresp_id :: uuid
  rresp_name :: string
  rresp_description :: "string option"
  rresp_is_system_role :: bool
  rresp_organization_id :: "uuid option"

record permission_response =
  presp_id :: uuid
  presp_resource :: string
  presp_action :: string
  presp_description :: "string option"

definition decision :: "bool \<Rightarrow> string \<Rightarrow> string \<Rightarrow> uuid option \<Rightarrow> authorization_decision" where
  "decision allowed resource action organization_id =
     \<lparr>dec_allowed = allowed, dec_resource = resource, dec_action = action,
      dec_organization_id = organization_id\<rparr>"

definition authorize ::
  "env \<Rightarrow> uuid \<Rightarrow> string \<Rightarrow> string \<Rightarrow> uuid option \<Rightarrow> authorization_decision py" where
  "authorize X user_id resource action organization_id =
     and_then (user_get_by_id user_id) (\<lambda>found.
     if (case found of None \<Rightarrow> True | Some u \<Rightarrow> \<not> usr_is_active u)
     then pure (decision False resource action organization_id)
     else
       and_then (get_permissions_for_user X user_id organization_id) (\<lambda>ps.
       let allowed = (\<exists>p \<in> set ps. perm_resource p = resource \<and> perm_action p = action) in
       pure (decision allowed resource action organization_id)))"

text \<open>The check that an organization exists, when one is named.\<close>

definition require_organization :: "uuid \<Rightarrow> organization py" where
  "require_organization organization_id =
     and_then (organization_get_by_id organization_id) (\<lambda>found.
     case found of
       None \<Rightarrow> raise (Domain (OrganizationNotFoundError
                 (''Organization not found: '' @ uuid_str organization_id)))
     | Some g \<Rightarrow> pure g)"

definition require_role :: "uuid \<Rightarrow> role py" where
  "require_role i =
     and_then (role_get_by_id i) (\<lambda>found.
     case found of
       None \<Rightarrow> raise (Domain (RoleNotFoundError (''Role not found: '' @ uuid_str i)))
     | Some r \<Rightarrow> pure r)"

definition role_response :: "role \<Rightarrow> role_response" where
  "role_response r =
     \<lparr>rresp_id = role_id r, rresp_name = role_name r, rresp_description = role_description r,
      rresp_is_system_role = role_is_system_role r, rresp_organization_id = role_organization_id r\<rparr>"

definition create_role ::
  "env \<Rightarrow> string \<Rightarrow> string option \<Rightarrow> uuid option \<Rightarrow> uuid \<Rightarrow> role_response py" where
  "create_role X name description organization_id actor =
     and_then
       (case organization_id of
          None \<Rightarrow> pure ()
        | Some i \<Rightarrow> and_then (require_organization i) (\<lambda>_. pure ())) (\<lambda>_.
     and_then
       (try_except (role_create X name description organization_id)
         (\<lambda>e. case e of
            Repository (DuplicateRoleNameError _) \<Rightarrow>
              Some (raise (Domain (RoleNameAlreadyExistsError (''Role name already exists: '' @ name))))
          | _ \<Rightarrow> None)) (\<lambda>r.
     and_then (audit_record X ROLE_CREATED (Some actor) (Some ''role'') (Some (role_id r))
        (role_organization_id r) (Some [(''name'', JStr (role_name r))])) (\<lambda>_.
     pure (role_response r))))"

definition mismatch_message :: "uuid \<Rightarrow> role \<Rightarrow> uuid option \<Rightarrow> string" where
  "mismatch_message i r organization_id =
     ''Role '' @ uuid_str i @ '' is scoped to organization '' @
     opt_uuid_str (role_organization_id r) @ '', cannot be assigned under organization_id='' @
     opt_uuid_str organization_id"

text \<open>The block under \<open>if organization_id is not None\<close> in \<open>assign_role\<close>.\<close>

definition check_membership :: "uuid \<Rightarrow> uuid option \<Rightarrow> unit py" where
  "check_membership user_id organization_id =
     (case organization_id of
        None \<Rightarrow> pure ()
      | Some g \<Rightarrow>
          and_then (require_organization g) (\<lambda>_.
          and_then (is_member user_id g) (\<lambda>member.
          if \<not> member
          then raise (Domain (UserNotOrganizationMemberError
                 (''User '' @ uuid_str user_id @ '' is not a member of organization '' @ uuid_str g)))
          else pure ())))"

definition assign_role :: "env \<Rightarrow> uuid \<Rightarrow> uuid \<Rightarrow> uuid option \<Rightarrow> uuid \<Rightarrow> unit py" where
  "assign_role X user_id i organization_id actor =
     and_then (require_role i) (\<lambda>r.
     if role_organization_id r \<noteq> None \<and> role_organization_id r \<noteq> organization_id
     then raise (Domain (RoleOrganizationMismatchError (mismatch_message i r organization_id)))
     else
       and_then (check_membership user_id organization_id) (\<lambda>_.
       and_then
         (try_except (and_then (user_role_assign X user_id i organization_id) (\<lambda>_. pure ()))
           (\<lambda>e. case e of
              Repository (DuplicateRoleAssignmentError _) \<Rightarrow>
                Some (raise (Domain (RoleAlreadyAssignedError
                  (assignment_message user_id i organization_id))))
            | _ \<Rightarrow> None)) (\<lambda>_.
       and_then (audit_record X ROLE_ASSIGNED (Some actor) (Some ''user'') (Some user_id)
          organization_id (Some [(''role_id'', JStr (uuid_str i))])) (\<lambda>_.
       pure ()))))"

definition revoke_role :: "env \<Rightarrow> uuid \<Rightarrow> uuid \<Rightarrow> uuid option \<Rightarrow> uuid \<Rightarrow> bool py" where
  "revoke_role X user_id i organization_id actor =
     and_then (user_role_revoke user_id i organization_id) (\<lambda>revoked.
     and_then
       (if revoked
        then and_then (audit_record X ROLE_REVOKED (Some actor) (Some ''user'') (Some user_id)
               organization_id (Some [(''role_id'', JStr (uuid_str i))])) (\<lambda>_. pure ())
        else pure ()) (\<lambda>_.
     pure revoked))"

definition assign_permission_to_role :: "env \<Rightarrow> uuid \<Rightarrow> uuid \<Rightarrow> uuid \<Rightarrow> unit py" where
  "assign_permission_to_role X i p actor =
     and_then (require_role i) (\<lambda>r.
     and_then (permission_get_by_id p) (\<lambda>found.
     case found of
       None \<Rightarrow> raise (Domain (PermissionNotFoundError (''Permission not found: '' @ uuid_str p)))
     | Some _ \<Rightarrow>
         and_then
           (try_except (add_permission i p)
             (\<lambda>e. case e of
                Repository (DuplicateRolePermissionError _) \<Rightarrow>
                  Some (raise (Domain (PermissionAlreadyAssignedError
                    (''Role '' @ uuid_str i @ '' already has permission '' @ uuid_str p))))
              | _ \<Rightarrow> None)) (\<lambda>_.
         and_then (audit_record X PERMISSION_ASSIGNED_TO_ROLE (Some actor) (Some ''role'') (Some i)
            (role_organization_id r) (Some [(''permission_id'', JStr (uuid_str p))])) (\<lambda>_.
         pure ()))))"

definition remove_permission_from_role :: "env \<Rightarrow> uuid \<Rightarrow> uuid \<Rightarrow> uuid \<Rightarrow> bool py" where
  "remove_permission_from_role X i p actor =
     and_then (require_role i) (\<lambda>r.
     and_then (remove_permission i p) (\<lambda>removed.
     and_then
       (if removed
        then and_then (audit_record X PERMISSION_REMOVED_FROM_ROLE (Some actor) (Some ''role'') (Some i)
               (role_organization_id r) (Some [(''permission_id'', JStr (uuid_str p))])) (\<lambda>_. pure ())
        else pure ()) (\<lambda>_.
     pure removed)))"

definition permission_response :: "permission \<Rightarrow> permission_response" where
  "permission_response p =
     \<lparr>presp_id = perm_id p, presp_resource = perm_resource p, presp_action = perm_action p,
      presp_description = perm_description p\<rparr>"

definition get_user_permissions ::
  "env \<Rightarrow> uuid \<Rightarrow> uuid option \<Rightarrow> permission_response list py" where
  "get_user_permissions X user_id organization_id =
     and_then (get_permissions_for_user X user_id organization_id) (\<lambda>ps.
     pure (map permission_response ps))"

section \<open>Exceptions translated\<close>

text \<open>A \<open>try/except\<close> that turns one repository exception into one domain exception.\<close>

lemma role_name_handler:
  "(case e of Repository (DuplicateRoleNameError _) \<Rightarrow> Some m | _ \<Rightarrow> None) = Some k \<Longrightarrow> k = m"
  by (auto split: exn.splits repository_error.splits)

lemma role_assignment_handler:
  "(case e of Repository (DuplicateRoleAssignmentError _) \<Rightarrow> Some m | _ \<Rightarrow> None) = Some k \<Longrightarrow> k = m"
  by (auto split: exn.splits repository_error.splits)

lemma role_permission_handler:
  "(case e of Repository (DuplicateRolePermissionError _) \<Rightarrow> Some m | _ \<Rightarrow> None) = Some k \<Longrightarrow> k = m"
  by (auto split: exn.splits repository_error.splits)

section \<open>What every call keeps\<close>

text \<open>
  One rule per operation for any reflexive and transitive relation that its
  statements obey: the invariant, the frames and the audit history below are its
  instances.
\<close>

lemma require_quiet: "obeys quiet (require_organization g)" "obeys quiet (require_role i)"
  unfolding require_organization_def require_role_def
  by (intro quieting.rules organization_get_quiet role_get_quiet)+

lemma authorize_quiet: "obeys quiet (authorize X u r a g)"
  unfolding authorize_def by (intro quieting.rules user_get_quiet user_role_get_quiet)

lemma get_user_permissions_quiet: "obeys quiet (get_user_permissions X u g)"
  unfolding get_user_permissions_def by (intro quieting.rules user_role_get_quiet)

lemma create_role_obeys:
  assumes h: "history R" and q: "\<And>m. obeys quiet (m :: organization py) \<Longrightarrow> obeys R m"
    and r: "obeys R (role_create X name d g)"
    and a: "\<And>ac tt ti og md. obeys R (audit_record X ROLE_CREATED ac tt ti og md)"
  shows "obeys R (create_role X name d g actor)"
proof -
  have "obeys R (require_organization i)" for i by (intro q require_quiet)
  then show ?thesis
    unfolding create_role_def
    by (intro history.rules [OF h] r a)
      (auto dest!: role_name_handler intro: history.raise [OF h])
qed

lemma assign_role_obeys:
  assumes h: "history R"
    and q: "\<And>i. obeys R (require_role i)" "\<And>g. obeys R (require_organization g)"
      "\<And>g. obeys R (is_member u g)"
    and r: "\<And>r. obeys R (user_role_assign X u i g)"
    and a: "\<And>ac tt ti og md. obeys R (audit_record X ROLE_ASSIGNED ac tt ti og md)"
  shows "obeys R (assign_role X u i g actor)"
  unfolding assign_role_def check_membership_def
  by (intro history.rules [OF h] q r a)
    (auto dest!: role_assignment_handler intro: history.raise [OF h])

lemma revoke_role_obeys:
  assumes h: "history R" and r: "obeys R (user_role_revoke u i g)"
    and a: "\<And>ac tt ti og md. obeys R (audit_record X ROLE_REVOKED ac tt ti og md)"
  shows "obeys R (revoke_role X u i g actor)"
  unfolding revoke_role_def by (intro history.rules [OF h] r a)

lemma assign_permission_to_role_obeys:
  assumes h: "history R" and q: "obeys R (require_role i)" "obeys R (permission_get_by_id p)"
    and r: "obeys R (add_permission i p)"
    and a: "\<And>ac tt ti og md. obeys R (audit_record X PERMISSION_ASSIGNED_TO_ROLE ac tt ti og md)"
  shows "obeys R (assign_permission_to_role X i p actor)"
  unfolding assign_permission_to_role_def
  by (intro history.rules [OF h] q r a)
    (auto dest!: role_permission_handler intro: history.raise [OF h])

lemma remove_permission_from_role_obeys:
  assumes h: "history R" and q: "obeys R (require_role i)"
    and r: "obeys R (remove_permission i p)"
    and a: "\<And>ac tt ti og md. obeys R (audit_record X PERMISSION_REMOVED_FROM_ROLE ac tt ti og md)"
  shows "obeys R (remove_permission_from_role X i p actor)"
  unfolding remove_permission_from_role_def by (intro history.rules [OF h] q r a)

lemmas require_steps = require_quiet role_get_quiet organization_get_quiet

lemma authz_accounts:
  "obeys accounts_kept (create_role X name d g actor)"
  "obeys accounts_kept (assign_role X u i g actor)"
  "obeys accounts_kept (revoke_role X u i g actor)"
  "obeys accounts_kept (assign_permission_to_role X i p actor)"
  "obeys accounts_kept (remove_permission_from_role X i p actor)"
  by (intro create_role_obeys assign_role_obeys revoke_role_obeys assign_permission_to_role_obeys
      remove_permission_from_role_obeys accounts.history_axioms account_steps quiet_accounts require_steps
      | assumption)+

lemma authz_db_ok:
  "obeys (keeps (db_ok X)) (create_role X name d g actor)"
  "obeys (keeps (db_ok X)) (assign_role X u i g actor)"
  "obeys (keeps (db_ok X)) (revoke_role X u i g actor)"
  "obeys (keeps (db_ok X)) (assign_permission_to_role X i p actor)"
  "obeys (keeps (db_ok X)) (remove_permission_from_role X i p actor)"
  by (intro create_role_obeys assign_role_obeys revoke_role_obeys assign_permission_to_role_obeys
      remove_permission_from_role_obeys keeping.history_axioms db_steps quiet_keeps_db_ok require_steps
      | assumption)+

lemma authz_grows:
  "obeys (grows audit_logs) (create_role X name d g actor)"
  "obeys (grows audit_logs) (assign_role X u i g actor)"
  "obeys (grows audit_logs) (revoke_role X u i g actor)"
  "obeys (grows audit_logs) (assign_permission_to_role X i p actor)"
  "obeys (grows audit_logs) (remove_permission_from_role X i p actor)"
  by (intro create_role_obeys assign_role_obeys revoke_role_obeys assign_permission_to_role_obeys
      remove_permission_from_role_obeys growing.history_axioms log_steps quiet_log_grows require_steps
      | assumption)+

lemma authz_ledger:
  "obeys (keeps (ledger_ok X)) (create_role X name d g actor)"
  "obeys (keeps (ledger_ok X)) (assign_role X u i g actor)"
  "obeys (keeps (ledger_ok X)) (revoke_role X u i g actor)"
  "obeys (keeps (ledger_ok X)) (assign_permission_to_role X i p actor)"
  "obeys (keeps (ledger_ok X)) (remove_permission_from_role X i p actor)"
  by (intro accounts_ledger authz_accounts authz_db_ok)+

section \<open>Scopes\<close>

lemma quiet_scoped: "obeys quiet m \<Longrightarrow> obeys (keeps (scoped X)) m"
  by (rule keeps_scoped) (simp_all add: quiet_keeps_db_ok quiet_same)

lemma quiet_role_held: "obeys quiet m \<Longrightarrow> obeys (keeps (role_held X r)) m"
  by (rule keeps_role_held) (simp_all add: quiet_keeps_db_ok quiet_same)

lemma audit_record_scoped: "obeys (keeps (scoped X)) (audit_record X a ac tt ti og md)"
  by (rule keeps_scoped [OF audit_record_keeps audit_record_same audit_record_same]) simp_all

lemma audit_record_role_held: "obeys (keeps (role_held X r)) (audit_record X a ac tt ti og md)"
  by (rule keeps_role_held [OF audit_record_keeps audit_record_same audit_record_same]) simp_all

lemma grant_scoped:
  "obeys (keeps (scoped X)) (add_permission i p)" "obeys (keeps (scoped X)) (remove_permission i p)"
  by (rule keeps_scoped [OF add_permission_keeps add_permission_same add_permission_same], simp_all)
    (rule keeps_scoped [OF remove_permission_keeps remove_permission_same remove_permission_same], simp_all)

text \<open>The role \<open>assign_role\<close> has read is the one its check is about.\<close>

lemma scoped_found:
  assumes "\<And>r. role_id r = i \<Longrightarrow> obeys (keeps (role_held X r)) (f r)"
  shows "obeys (keeps (scoped X)) (and_then (require_role i) f)"
proof -
  have "scoped X (snd (and_then (require_role i) f w))" if ok: "scoped X w" for w
  proof (cases "find (\<lambda>r. role_id r = i) (roles w)")
    case None
    with ok show ?thesis
      by (simp add: require_role_def run_simps role_get_by_id_run [where X = X] scoped_def)
  next
    case (Some r)
    from find_key_Some [OF this] ok have "role_held X r w" "role_id r = i" by (auto simp: role_held_def)
    with assms have "role_held X r (snd (f r w))" by (blast intro: obeys_keepsD)
    with Some ok show ?thesis
      by (simp add: require_role_def run_simps role_get_by_id_run [where X = X] scoped_def role_held_def)
  qed
  then show ?thesis by (simp add: obeys_def keeps_def)
qed

lemma assign_role_scoped: "obeys (keeps (scoped X)) (assign_role X u i g actor)"
  unfolding assign_role_def
proof (rule scoped_found)
  fix r :: role
  assume i: "role_id r = i"
  have m: "obeys quiet (check_membership u g)"
    unfolding check_membership_def by (intro quieting.rules require_quiet organization_get_quiet)
  have a: "obeys (keeps (role_held X r)) (user_role_assign X u i g)"
    if "\<not> (role_organization_id r \<noteq> None \<and> role_organization_id r \<noteq> g)"
    using user_role_assign_scoped [of r g X u] that i by auto
  show "obeys (keeps (role_held X r))
     (if role_organization_id r \<noteq> None \<and> role_organization_id r \<noteq> g
      then raise (Domain (RoleOrganizationMismatchError (mismatch_message i r g)))
      else and_then (check_membership u g) (\<lambda>_.
        and_then (try_except (and_then (user_role_assign X u i g) (\<lambda>_. Prelude.pure ()))
          (\<lambda>e. case e of Repository (DuplicateRoleAssignmentError _) \<Rightarrow>
              Some (raise (Domain (RoleAlreadyAssignedError (assignment_message u i g))))
            | _ \<Rightarrow> None)) (\<lambda>_.
        and_then (audit_record X ROLE_ASSIGNED (Some actor) (Some ''user'') (Some u) g
          (Some [(''role_id'', JStr (uuid_str i))])) (\<lambda>_. Prelude.pure ()))))"
    by (intro keeping.rules quiet_role_held [OF m] a audit_record_role_held)
      (auto dest!: role_assignment_handler intro: keeping.raise)
qed

lemma authz_scoped:
  "obeys (keeps (scoped X)) (create_role X name d g actor)"
  "obeys (keeps (scoped X)) (assign_role X u i g actor)"
  "obeys (keeps (scoped X)) (revoke_role X u i g actor)"
  "obeys (keeps (scoped X)) (assign_permission_to_role X i p actor)"
  "obeys (keeps (scoped X)) (remove_permission_from_role X i p actor)"
  by (intro create_role_obeys assign_role_scoped revoke_role_obeys assign_permission_to_role_obeys
      remove_permission_from_role_obeys keeping.history_axioms role_create_scoped
      user_role_revoke_scoped grant_scoped audit_record_scoped quiet_scoped require_steps
      | assumption)+

end
