(* ===== verification/Organization_Service.thy ===== *)
theory Organization_Service
  imports Frames
begin

text \<open>
  \<open>app/domain/services/organization_service.py\<close> and \<open>audit_log_service.py\<close>:
  organizations and their members, and the paged read of the audit log.
\<close>

section \<open>Organizations and members\<close>

record organization_response =
  oresp_id :: uuid
  oresp_name :: string
  oresp_created_at :: datetime

definition organization_response :: "organization \<Rightarrow> organization_response" where
  "organization_response g =
     \<lparr>oresp_id = org_id g, oresp_name = org_name g, oresp_created_at = org_created_at g\<rparr>"

definition create_organization :: "env \<Rightarrow> string \<Rightarrow> uuid \<Rightarrow> organization_response py" where
  "create_organization X name actor =
     and_then
       (try_except (organization_create X name)
         (\<lambda>e. case e of
            Repository (DuplicateOrganizationNameError _) \<Rightarrow>
              Some (raise (Domain (OrganizationNameAlreadyExistsError
                (''Organization name already exists: '' @ name))))
          | _ \<Rightarrow> None)) (\<lambda>g.
     and_then (audit_record X ORGANIZATION_CREATED (Some actor) (Some ''organization'')
        (Some (org_id g)) (Some (org_id g)) (Some [(''name'', JStr (org_name g))])) (\<lambda>_.
     pure (organization_response g)))"

definition organization_exists :: "uuid \<Rightarrow> organization py" where
  "organization_exists organization_id =
     and_then (organization_get_by_id organization_id) (\<lambda>found.
     case found of
       None \<Rightarrow> raise (Domain (OrganizationNotFoundError
                 (''Organization not found: '' @ uuid_str organization_id)))
     | Some g \<Rightarrow> pure g)"

definition add_member :: "env \<Rightarrow> uuid \<Rightarrow> uuid \<Rightarrow> uuid \<Rightarrow> unit py" where
  "add_member X user_id organization_id actor =
     and_then (user_get_by_id user_id) (\<lambda>found.
     case found of
       None \<Rightarrow> raise (Domain (UserNotFoundError (''User not found: '' @ uuid_str user_id)))
     | Some _ \<Rightarrow>
         and_then (organization_exists organization_id) (\<lambda>_.
         and_then
           (try_except (and_then (membership_add X user_id organization_id) (\<lambda>_. pure ()))
             (\<lambda>e. case e of
                Repository (DuplicateMembershipError _) \<Rightarrow>
                  Some (raise (Domain (OrganizationMembershipAlreadyExistsError
                    (''User '' @ uuid_str user_id @ '' is already a member of organization '' @
                     uuid_str organization_id))))
              | _ \<Rightarrow> None)) (\<lambda>_.
         and_then (audit_record X ORGANIZATION_MEMBER_ADDED (Some actor) (Some ''user'') (Some user_id)
            (Some organization_id) None) (\<lambda>_.
         pure ()))))"

definition remove_member :: "env \<Rightarrow> uuid \<Rightarrow> uuid \<Rightarrow> uuid \<Rightarrow> bool py" where
  "remove_member X user_id organization_id actor =
     and_then (membership_remove user_id organization_id) (\<lambda>removed.
     and_then
       (if removed
        then and_then (audit_record X ORGANIZATION_MEMBER_REMOVED (Some actor) (Some ''user'')
               (Some user_id) (Some organization_id) None) (\<lambda>_. pure ())
        else pure ()) (\<lambda>_.
     pure removed))"

definition list_members :: "uuid \<Rightarrow> member_row list py" where
  "list_members organization_id =
     and_then (organization_exists organization_id) (\<lambda>_.
     get_members_for_organization organization_id)"

definition list_organizations_for_user :: "env \<Rightarrow> uuid \<Rightarrow> organization_response list py" where
  "list_organizations_for_user X user_id =
     and_then (get_organizations_for_user X user_id) (\<lambda>gs. pure (map organization_response gs))"

section \<open>The audit log page\<close>

record audit_log_page =
  page_events :: "audit_log list"
  page_total :: int
  page_limit :: int
  page_offset :: int

definition list_events ::
  "uuid option \<Rightarrow> uuid option \<Rightarrow> string option \<Rightarrow> int \<Rightarrow> int \<Rightarrow> audit_log_page py" where
  "list_events organization_id actor_user_id action limit offset =
     and_then (audit_list_events organization_id actor_user_id action limit offset) (\<lambda>events.
     and_then (audit_count_events organization_id actor_user_id action) (\<lambda>total.
     pure \<lparr>page_events = events, page_total = total, page_limit = limit, page_offset = offset\<rparr>))"

section \<open>What every call keeps\<close>

lemma organization_name_handler:
  "(case e of Repository (DuplicateOrganizationNameError _) \<Rightarrow> Some m | _ \<Rightarrow> None) = Some k \<Longrightarrow> k = m"
  by (auto split: exn.splits repository_error.splits)

lemma membership_handler:
  "(case e of Repository (DuplicateMembershipError _) \<Rightarrow> Some m | _ \<Rightarrow> None) = Some k \<Longrightarrow> k = m"
  by (auto split: exn.splits repository_error.splits)

lemma create_organization_obeys:
  assumes h: "history R" and r: "obeys R (organization_create X name)"
    and a: "\<And>ac tt ti og md. obeys R (audit_record X ORGANIZATION_CREATED ac tt ti og md)"
  shows "obeys R (create_organization X name actor)"
  unfolding create_organization_def
  by (intro history.rules [OF h] r a)
    (auto dest!: organization_name_handler intro: history.raise [OF h])

lemma add_member_obeys:
  assumes h: "history R" and q: "obeys R (user_get_by_id u)" "obeys R (organization_get_by_id g)"
    and r: "obeys R (membership_add X u g)"
    and a: "\<And>ac tt ti og md. obeys R (audit_record X ORGANIZATION_MEMBER_ADDED ac tt ti og md)"
  shows "obeys R (add_member X u g actor)"
  unfolding add_member_def organization_exists_def
  by (intro history.rules [OF h] q r a)
    (auto dest!: membership_handler intro: history.raise [OF h])

lemma remove_member_obeys:
  assumes h: "history R" and r: "obeys R (membership_remove u g)"
    and a: "\<And>ac tt ti og md. obeys R (audit_record X ORGANIZATION_MEMBER_REMOVED ac tt ti og md)"
  shows "obeys R (remove_member X u g actor)"
  unfolding remove_member_def by (intro history.rules [OF h] r a)

lemma orgs_accounts:
  "obeys accounts_kept (create_organization X name actor)"
  "obeys accounts_kept (add_member X u g actor)"
  "obeys accounts_kept (remove_member X u g actor)"
  by (intro create_organization_obeys add_member_obeys remove_member_obeys accounts.history_axioms
      account_steps)+

lemma orgs_db_ok:
  "obeys (keeps (db_ok X)) (create_organization X name actor)"
  "obeys (keeps (db_ok X)) (add_member X u g actor)"
  "obeys (keeps (db_ok X)) (remove_member X u g actor)"
  by (intro create_organization_obeys add_member_obeys remove_member_obeys keeping.history_axioms
      db_steps)+

lemma orgs_grows:
  "obeys (grows audit_logs) (create_organization X name actor)"
  "obeys (grows audit_logs) (add_member X u g actor)"
  "obeys (grows audit_logs) (remove_member X u g actor)"
  by (intro create_organization_obeys add_member_obeys remove_member_obeys growing.history_axioms
      log_steps)+

lemma orgs_ledger:
  "obeys (keeps (ledger_ok X)) (create_organization X name actor)"
  "obeys (keeps (ledger_ok X)) (add_member X u g actor)"
  "obeys (keeps (ledger_ok X)) (remove_member X u g actor)"
  by (intro accounts_ledger orgs_accounts orgs_db_ok)+

text \<open>The permission graph: everything a decision reads.\<close>

definition graph ::
  "world \<Rightarrow> role list \<times> permission list \<times> role_permission list \<times> user_role list" where
  "graph w = (roles w, permissions w, role_permissions w, user_roles w)"

lemma quiet_graph: "obeys quiet m \<Longrightarrow> obeys (same graph) m"
  by (erule quiet_same) (simp add: graph_def)

lemma graph_steps:
  "obeys (same graph) (organization_create X name)" "obeys (same graph) (membership_add X u g)"
  "obeys (same graph) (membership_remove u g)" "obeys (same graph) (audit_record X a ac tt ti og md)"
  by (rule organization_create_same membership_add_same membership_remove_same audit_record_same;
      simp add: graph_def)+

lemma orgs_graph:
  "obeys (same graph) (create_organization X name actor)"
  "obeys (same graph) (add_member X u g actor)"
  "obeys (same graph) (remove_member X u g actor)"
  by (intro create_organization_obeys add_member_obeys remove_member_obeys framing.history_axioms
      graph_steps reads_quiet_all [THEN quiet_graph])+

lemma graph_scoped:
  assumes "obeys (same graph) m" and "obeys (keeps (db_ok X)) m"
  shows "obeys (keeps (scoped X)) m"
proof (rule keeps_scoped [OF assms(2)])
  show "obeys (same roles) m" "obeys (same user_roles) m"
    by (rule obeys_mono [OF assms(1)], simp add: same_def graph_def)+
qed

lemma orgs_scoped:
  "obeys (keeps (scoped X)) (create_organization X name actor)"
  "obeys (keeps (scoped X)) (add_member X u g actor)"
  "obeys (keeps (scoped X)) (remove_member X u g actor)"
  by (intro graph_scoped orgs_graph orgs_db_ok)+

lemma organization_reads_quiet:
  "obeys quiet (list_members g)" "obeys quiet (list_organizations_for_user X u)"
  "obeys quiet (list_events og ac a l off)"
  unfolding list_members_def organization_exists_def list_organizations_for_user_def list_events_def
    audit_list_events_def audit_count_events_def
  by (intro quieting.rules organization_get_quiet)+

section \<open>What every call does\<close>

lemma org_action_lengths [simp]:
  "length ORGANIZATION_CREATED \<le> 100" "length ORGANIZATION_MEMBER_ADDED \<le> 100"
  "length ORGANIZATION_MEMBER_REMOVED \<le> 100"
  by (simp_all add: audit_action_defs)

lemma create_organization_run [op_run]:
  assumes ok: "db_ok X w" and cf: "collision_free X n" and n: "draws w + 4 \<le> n"
    and actor: "actor \<in> ids usr_id (users w)" and len: "length name \<le> 255"
  shows "create_organization X name actor w =
    (let g = new_organization name (gen_random_uuid X (draws w)) (db_now X (draws w + 1)) in
     if name \<in> org_name ` set (organizations w)
     then (Inl (Domain (OrganizationNameAlreadyExistsError (''Organization name already exists: '' @ name))),
           w\<lparr>draws := draws w + 2\<rparr>)
     else (Inr (organization_response g),
           log_event X ORGANIZATION_CREATED (Some actor) (Some ''organization'') (Some (org_id g))
             (Some (org_id g)) (Some [(''name'', JStr name)])
             (w\<lparr>organizations := organizations w @ [g], draws := draws w + 2\<rparr>)))"
proof -
  let ?g = "new_organization name (gen_random_uuid X (draws w)) (db_now X (Suc (draws w)))"
  let ?w1 = "w\<lparr>organizations := organizations w @ [?g], draws := Suc (Suc (draws w))\<rparr>"
  note create = organization_create_run [OF ok cf _ len]
  have g: "org_id ?g = gen_random_uuid X (draws w)" "org_name ?g = name"
    by (simp_all add: new_organization_def)
  show ?thesis
  proof (cases "name \<in> org_name ` set (organizations w)")
    case True
    with n show ?thesis by (simp add: create_organization_def run_simps create Let_def)
  next
    case False
    with n have c: "organization_create X name w = (Inr ?g, ?w1)" by (simp add: create Let_def)
    then have ok1: "db_ok X ?w1" using obeysD [OF organization_create_keeps c] ok by (simp add: keeps_def)
    from False n actor show ?thesis
      by (simp add: create_organization_def run_simps c audit_record_run [OF ok1 cf] g Let_def)
  qed
qed

lemma add_member_run [op_run]:
  assumes ok: "db_ok X w" and cf: "collision_free X n" and n: "draws w + 4 \<le> n"
    and actor: "actor \<in> ids usr_id (users w)"
  shows "add_member X u g actor w =
    (if u \<notin> ids usr_id (users w)
     then (Inl (Domain (UserNotFoundError (''User not found: '' @ uuid_str u))), w)
     else if g \<notin> ids org_id (organizations w)
     then (Inl (Domain (OrganizationNotFoundError (''Organization not found: '' @ uuid_str g))), w)
     else if (u, g) \<in> membership_key ` set (organization_memberships w)
     then (Inl (Domain (OrganizationMembershipAlreadyExistsError
             (''User '' @ uuid_str u @ '' is already a member of organization '' @ uuid_str g))),
           w\<lparr>draws := draws w + 2\<rparr>)
     else (Inr (), log_event X ORGANIZATION_MEMBER_ADDED (Some actor) (Some ''user'') (Some u) (Some g) None
            (w\<lparr>organization_memberships := organization_memberships w @
                 [new_membership u g (gen_random_uuid X (draws w)) (db_now X (draws w + 1))],
               draws := draws w + 2\<rparr>)))"
proof (cases "u \<in> ids usr_id (users w) \<and> g \<in> ids org_id (organizations w)")
  case False
  have "find (\<lambda>x. usr_id x = u) (users w) = None \<longleftrightarrow> u \<notin> ids usr_id (users w)"
    "find (\<lambda>x. org_id x = g) (organizations w) = None \<longleftrightarrow> g \<notin> ids org_id (organizations w)"
    by (simp_all only: find_key_None ids_def)
  with False show ?thesis
    by (auto simp: add_member_def organization_exists_def run_simps user_get_by_id_run [OF ok]
        organization_get_by_id_run [OF ok] split: option.splits)
next
  case True
  obtain v x where f: "find (\<lambda>x. usr_id x = u) (users w) = Some v"
      "find (\<lambda>x. org_id x = g) (organizations w) = Some x"
    using True find_key_None [of usr_id u "users w"] find_key_None [of org_id g "organizations w"]
    by (auto simp: ids_def)
  note add = membership_add_run [OF ok cf, of u g]
  let ?m = "new_membership u g (gen_random_uuid X (draws w)) (db_now X (Suc (draws w)))"
  let ?w1 = "w\<lparr>organization_memberships := organization_memberships w @ [?m], draws := Suc (Suc (draws w))\<rparr>"
  show ?thesis
  proof (cases "(u, g) \<in> membership_key ` set (organization_memberships w)")
    case dup: True
    with n f True show ?thesis
      by (simp add: add_member_def organization_exists_def run_simps user_get_by_id_run [OF ok]
          organization_get_by_id_run [OF ok] add Let_def)
  next
    case False
    with n True have c: "membership_add X u g w = (Inr ?m, ?w1)" by (simp add: add Let_def)
    then have ok1: "db_ok X ?w1" using obeysD [OF membership_add_keeps c] ok by (simp add: keeps_def)
    from False n f True actor show ?thesis
      by (simp add: add_member_def organization_exists_def run_simps user_get_by_id_run [OF ok]
          organization_get_by_id_run [OF ok] c audit_record_run [OF ok1 cf])
  qed
qed

lemma remove_member_run [op_run]:
  assumes ok: "db_ok X w" and cf: "collision_free X n" and n: "draws w + 2 \<le> n"
    and actor: "actor \<in> ids usr_id (users w)"
  shows "remove_member X u g actor w =
    (if (u, g) \<in> membership_key ` set (organization_memberships w)
     then (Inr True, log_event X ORGANIZATION_MEMBER_REMOVED (Some actor) (Some ''user'') (Some u) (Some g) None
            (w\<lparr>organization_memberships :=
                 filter (\<lambda>m. membership_key m \<noteq> (u, g)) (organization_memberships w)\<rparr>))
     else (Inr False, w))"
proof (cases "(u, g) \<in> membership_key ` set (organization_memberships w)")
  case True
  let ?w1 = "w\<lparr>organization_memberships :=
      filter (\<lambda>m. membership_key m \<noteq> (u, g)) (organization_memberships w)\<rparr>"
  have rv: "membership_remove u g w = (Inr True, ?w1)"
    using True by (simp add: membership_remove_run [OF db_ok_memberships [OF ok]])
  then have ok1: "db_ok X ?w1" using obeysD [OF membership_remove_keeps rv] ok by (simp add: keeps_def)
  from True obtain m where "m \<in> set (organization_memberships w)" "membership_key m = (u, g)" by auto
  then have "g \<in> ids org_id (organizations w)"
    using ok by (auto simp: db_ok_def refs_ok_def membership_key_def)
  with True n actor show ?thesis
    by (simp add: remove_member_def run_simps rv audit_record_run [OF ok1 cf])
next
  case False
  have "membership_remove u g w = (Inr False, w)"
    using False filter_no_key [OF False] by (simp add: membership_remove_run [OF db_ok_memberships [OF ok]])
  with False show ?thesis by (simp add: remove_member_def run_simps)
qed

lemma list_events_run [op_run]:
  "0 \<le> limit \<Longrightarrow> 0 \<le> offset \<Longrightarrow> list_events og ac a limit offset w =
    (Inr \<lparr>page_events = take (nat limit) (drop (nat offset)
            (order_by newest_first (filter (audit_matches og ac a) (audit_logs w)))),
          page_total = int (length (filter (audit_matches og ac a) (audit_logs w))),
          page_limit = limit, page_offset = offset\<rparr>, w)"
  by (simp add: list_events_def run_simps audit_list_events_run audit_count_events_run)

section \<open>Listings\<close>

lemma list_members_run [op_run]:
  assumes "db_ok X w"
  shows "list_members g w =
    (if g \<in> ids org_id (organizations w)
     then (Inr (order_by by_joined_at
       [\<lparr>member_user_id = usr_id u, member_email = usr_email u, member_joined_at = mem_joined_at m\<rparr>.
          u \<leftarrow> users w, m \<leftarrow> organization_memberships w,
          mem_user_id m = usr_id u \<and> mem_organization_id m = g]), w)
     else (Inl (Domain (OrganizationNotFoundError (''Organization not found: '' @ uuid_str g))), w))"
  using find_key_None [of org_id g "organizations w"]
  by (cases "find (\<lambda>x. org_id x = g) (organizations w)")
    (simp_all add: ids_def list_members_def organization_exists_def run_simps organization_get_by_id_run [OF assms]
      get_members_for_organization_def)

text \<open>The members listed are the users with a membership row.\<close>

lemma listed_members:
  "(\<lambda>r. (member_user_id r, member_email r)) ` set
      [\<lparr>member_user_id = usr_id u, member_email = usr_email u, member_joined_at = mem_joined_at m\<rparr>.
        u \<leftarrow> users w, m \<leftarrow> organization_memberships w,
        mem_user_id m = usr_id u \<and> mem_organization_id m = g] =
    {(usr_id v, usr_email v) | v. v \<in> set (users w) \<and>
       (usr_id v, g) \<in> membership_key ` set (organization_memberships w)}"
  (is "?f ` set ?rows = ?members")
proof (rule set_eqI)
  fix x
  have "x \<in> ?f ` set ?rows \<longleftrightarrow> (\<exists>v \<in> set (users w). \<exists>m \<in> set (organization_memberships w).
      mem_user_id m = usr_id v \<and> mem_organization_id m = g \<and> x = (usr_id v, usr_email v))"
    by (auto simp: image_Union image_image)
  also have "\<dots> \<longleftrightarrow> x \<in> ?members"
    by (simp add: membership_key_def image_iff) metis
  finally show "x \<in> ?f ` set ?rows \<longleftrightarrow> x \<in> ?members" .
qed

end
