(* ===== verification/Api.thy ===== *)
theory Api
  imports Auth_Service Authorization_Service Organization_Service
begin

text \<open>
  \<open>app/core/dependencies.py\<close> and the routes of \<open>app/api/v1\<close>: who the caller is,
  whether the call is allowed, and how each domain exception becomes a status code.
  A request carries typed path and query values; the constraints the request
  models put on them are checked here, as FastAPI checks them.
\<close>

section \<open>Dependencies\<close>

definition AUTH_FAILURE_DETAIL :: string where
  "AUTH_FAILURE_DETAIL = ''Could not validate credentials.''"

definition PERMISSION_DENIED_DETAIL :: string where
  "PERMISSION_DENIED_DETAIL = ''You do not have permission to perform this action.''"

definition unauthorized :: exn where
  "unauthorized = HTTPException 401 AUTH_FAILURE_DETAIL"

text \<open>\<open>uuid.UUID(payload["sub"])\<close> with the exceptions it raises.\<close>

definition subject_id :: "dict \<Rightarrow> uuid py" where
  "subject_id payload =
     (case map_of payload ''sub'' of
        None \<Rightarrow> raise (Python KeyError)
      | Some (JStr s) \<Rightarrow>
          (case uuid_of_string s of None \<Rightarrow> raise (Python ValueError) | Some i \<Rightarrow> pure i)
      | Some JNull \<Rightarrow> raise (Python TypeError)
      | Some (JInt _) \<Rightarrow> raise (Python AttributeError)
      | Some (JBool _) \<Rightarrow> raise (Python AttributeError))"

definition get_current_user :: "env \<Rightarrow> string option \<Rightarrow> user py" where
  "get_current_user X authorization =
     (case authorization of
        None \<Rightarrow> raise unauthorized
      | Some header \<Rightarrow>
          if \<not> py_startswith header ''Bearer '' then raise unauthorized
          else
            let token = py_strip (py_removeprefix header ''Bearer '') in
            if token = '''' then raise unauthorized
            else
              and_then
                (try_except (decode_access_token X token)
                  (\<lambda>e. case e of TokenValidationError _ \<Rightarrow> Some (raise unauthorized) | _ \<Rightarrow> None))
                (\<lambda>payload.
              and_then
                (try_except (subject_id payload)
                  (\<lambda>e. case e of
                     Python KeyError \<Rightarrow> Some (raise unauthorized)
                   | Python ValueError \<Rightarrow> Some (raise unauthorized)
                   | Python TypeError \<Rightarrow> Some (raise unauthorized)
                   | _ \<Rightarrow> None)) (\<lambda>user_id.
              and_then (user_get_by_id user_id) (\<lambda>found.
              case found of None \<Rightarrow> raise unauthorized | Some u \<Rightarrow> pure u))))"

definition require_permission :: "env \<Rightarrow> string \<Rightarrow> string \<Rightarrow> string option \<Rightarrow> user py" where
  "require_permission X resource action authorization =
     and_then (get_current_user X authorization) (\<lambda>u.
     and_then (authorize X (usr_id u) resource action None) (\<lambda>d.
     if \<not> dec_allowed d then raise (HTTPException 403 PERMISSION_DENIED_DETAIL)
     else pure u))"

section \<open>Requests and responses\<close>

datatype body =
    EmptyBody
  | HealthBody
  | RegisterBody register_response
  | TokenBody token_response
  | DecisionBody authorization_decision
  | RoleBody role_response
  | PermissionsBody "permission_response list"
  | OrganizationBody organization_response
  | OrganizationsBody "organization_response list"
  | MembersBody "member_row list"
  | AuditPageBody audit_log_page

type_synonym response = "nat \<times> body"

text \<open>An endpoint's \<open>except\<close> clauses: the exceptions it lists, each with its status.\<close>

definition excepting :: "(domain_error \<Rightarrow> (nat \<times> string) option) \<Rightarrow> 'a py \<Rightarrow> 'a py" where
  "excepting clauses m =
     try_except m (\<lambda>e. case e of
       Domain d \<Rightarrow>
         (case clauses d of
            None \<Rightarrow> None
          | Some (status, detail) \<Rightarrow> Some (raise (HTTPException status detail)))
     | _ \<Rightarrow> None)"

definition unprocessable :: exn where
  "unprocessable = HTTPException 422 ''Unprocessable Entity''"

section \<open>\<open>/v1/auth\<close>\<close>

definition register_errors :: "domain_error \<Rightarrow> (nat \<times> string) option" where
  "register_errors d = (case d of
     EmailAlreadyExistsError _ \<Rightarrow> Some (409, ''Unable to register with the provided details.'')
   | _ \<Rightarrow> None)"

definition route_register :: "env \<Rightarrow> string \<Rightarrow> string \<Rightarrow> response py" where
  "route_register X email password =
     (case email_str X email of
        None \<Rightarrow> raise unprocessable
      | Some address \<Rightarrow>
          if length password < 10 then raise unprocessable
          else
            and_then
              (excepting register_errors
               (auth_register X address password))
              (\<lambda>result. pure (201, RegisterBody result)))"

definition login_errors :: "domain_error \<Rightarrow> (nat \<times> string) option" where
  "login_errors d = (case d of
     InvalidCredentialsError _ \<Rightarrow> Some (401, ''Invalid email or password.'')
   | InactiveUserError _ \<Rightarrow> Some (403, ''Account is inactive.'')
   | _ \<Rightarrow> None)"

definition route_login :: "env \<Rightarrow> string \<Rightarrow> string \<Rightarrow> response py" where
  "route_login X email password =
     (case email_str X email of
        None \<Rightarrow> raise unprocessable
      | Some address \<Rightarrow>
          and_then
            (excepting login_errors
             (auth_login X address password))
            (\<lambda>result. pure (200, TokenBody result)))"

definition refresh_errors :: "domain_error \<Rightarrow> (nat \<times> string) option" where
  "refresh_errors d = (case d of
     InvalidRefreshTokenError _ \<Rightarrow> Some (401, ''Invalid or expired refresh token.'')
   | _ \<Rightarrow> None)"

definition route_refresh :: "env \<Rightarrow> string \<Rightarrow> response py" where
  "route_refresh X presented =
     and_then
       (excepting refresh_errors
        (auth_refresh X presented))
       (\<lambda>result. pure (200, TokenBody result))"

definition route_logout :: "env \<Rightarrow> string \<Rightarrow> response py" where
  "route_logout X presented = and_then (auth_logout X presented) (\<lambda>_. pure (204, EmptyBody))"

section \<open>\<open>/v1/authorize\<close>, \<open>/v1/roles\<close>, \<open>/v1/users\<close>\<close>

definition route_authorize ::
  "env \<Rightarrow> string option \<Rightarrow> string \<Rightarrow> string \<Rightarrow> uuid option \<Rightarrow> response py" where
  "route_authorize X auth resource action organization_id =
     and_then (get_current_user X auth) (\<lambda>u.
     and_then (authorize X (usr_id u) resource action organization_id) (\<lambda>d.
     pure (200, DecisionBody d)))"

definition create_role_errors :: "domain_error \<Rightarrow> (nat \<times> string) option" where
  "create_role_errors d = (case d of
     OrganizationNotFoundError _ \<Rightarrow> Some (404, ''Organization not found.'')
   | RoleNameAlreadyExistsError _ \<Rightarrow> Some (409, ''A role with this name already exists.'')
   | _ \<Rightarrow> None)"

definition route_create_role ::
  "env \<Rightarrow> string option \<Rightarrow> string \<Rightarrow> string option \<Rightarrow> uuid option \<Rightarrow> response py" where
  "route_create_role X auth name description organization_id =
     and_then (require_permission X ''role'' ''manage'' auth) (\<lambda>admin.
     and_then
       (excepting create_role_errors
        (create_role X name description organization_id (usr_id admin)))
       (\<lambda>result. pure (201, RoleBody result)))"

definition assign_permission_errors :: "domain_error \<Rightarrow> (nat \<times> string) option" where
  "assign_permission_errors d = (case d of
     RoleNotFoundError _ \<Rightarrow> Some (404, ''Role not found.'')
   | PermissionNotFoundError _ \<Rightarrow> Some (404, ''Permission not found.'')
   | PermissionAlreadyAssignedError _ \<Rightarrow> Some (409, ''Role already has this permission.'')
   | _ \<Rightarrow> None)"

definition route_assign_permission_to_role ::
  "env \<Rightarrow> string option \<Rightarrow> uuid \<Rightarrow> uuid \<Rightarrow> response py" where
  "route_assign_permission_to_role X auth i permission_id =
     and_then (require_permission X ''role'' ''manage'' auth) (\<lambda>admin.
     and_then
       (excepting assign_permission_errors
        (assign_permission_to_role X i permission_id (usr_id admin)))
       (\<lambda>_. pure (204, EmptyBody)))"

definition remove_permission_errors :: "domain_error \<Rightarrow> (nat \<times> string) option" where
  "remove_permission_errors d = (case d of
     RoleNotFoundError _ \<Rightarrow> Some (404, ''Role not found.'')
   | _ \<Rightarrow> None)"

definition route_remove_permission_from_role ::
  "env \<Rightarrow> string option \<Rightarrow> uuid \<Rightarrow> uuid \<Rightarrow> response py" where
  "route_remove_permission_from_role X auth i permission_id =
     and_then (require_permission X ''role'' ''manage'' auth) (\<lambda>admin.
     and_then
       (excepting remove_permission_errors
        (remove_permission_from_role X i permission_id (usr_id admin)))
       (\<lambda>_. pure (204, EmptyBody)))"

definition route_my_permissions :: "env \<Rightarrow> string option \<Rightarrow> uuid option \<Rightarrow> response py" where
  "route_my_permissions X auth organization_id =
     and_then (get_current_user X auth) (\<lambda>u.
     and_then (get_user_permissions X (usr_id u) organization_id) (\<lambda>ps.
     pure (200, PermissionsBody ps)))"

definition assign_role_errors :: "domain_error \<Rightarrow> (nat \<times> string) option" where
  "assign_role_errors d = (case d of
     RoleNotFoundError _ \<Rightarrow> Some (404, ''Role not found.'')
   | OrganizationNotFoundError _ \<Rightarrow> Some (404, ''Organization not found.'')
   | RoleOrganizationMismatchError _ \<Rightarrow> Some (409, ''This role's organization scope does not match the requested assignment.'')
   | UserNotOrganizationMemberError _ \<Rightarrow> Some (409, ''User is not a member of this organization.'')
   | RoleAlreadyAssignedError _ \<Rightarrow> Some (409, ''User already has this role.'')
   | _ \<Rightarrow> None)"

definition route_assign_role ::
  "env \<Rightarrow> string option \<Rightarrow> uuid \<Rightarrow> uuid \<Rightarrow> uuid option \<Rightarrow> response py" where
  "route_assign_role X auth user_id i organization_id =
     and_then (require_permission X ''user'' ''manage'' auth) (\<lambda>admin.
     and_then
       (excepting assign_role_errors
        (assign_role X user_id i organization_id (usr_id admin)))
       (\<lambda>_. pure (204, EmptyBody)))"

definition route_revoke_role ::
  "env \<Rightarrow> string option \<Rightarrow> uuid \<Rightarrow> uuid \<Rightarrow> uuid option \<Rightarrow> response py" where
  "route_revoke_role X auth user_id i organization_id =
     and_then (require_permission X ''user'' ''manage'' auth) (\<lambda>admin.
     and_then (revoke_role X user_id i organization_id (usr_id admin)) (\<lambda>_.
     pure (204, EmptyBody)))"

definition route_user_permissions ::
  "env \<Rightarrow> string option \<Rightarrow> uuid \<Rightarrow> uuid option \<Rightarrow> response py" where
  "route_user_permissions X auth user_id organization_id =
     and_then (require_permission X ''user'' ''manage'' auth) (\<lambda>_.
     and_then (get_user_permissions X user_id organization_id) (\<lambda>ps.
     pure (200, PermissionsBody ps)))"

section \<open>\<open>/v1/organizations\<close> and \<open>/v1/audit-logs\<close>\<close>

definition create_organization_errors :: "domain_error \<Rightarrow> (nat \<times> string) option" where
  "create_organization_errors d = (case d of
     OrganizationNameAlreadyExistsError _ \<Rightarrow> Some (409, ''An organization with this name already exists.'')
   | _ \<Rightarrow> None)"

definition route_create_organization :: "env \<Rightarrow> string option \<Rightarrow> string \<Rightarrow> response py" where
  "route_create_organization X auth name =
     and_then (require_permission X ''organization'' ''manage'' auth) (\<lambda>admin.
     and_then
       (excepting create_organization_errors
        (create_organization X name (usr_id admin)))
       (\<lambda>result. pure (201, OrganizationBody result)))"

definition add_member_errors :: "domain_error \<Rightarrow> (nat \<times> string) option" where
  "add_member_errors d = (case d of
     UserNotFoundError _ \<Rightarrow> Some (404, ''User not found.'')
   | OrganizationNotFoundError _ \<Rightarrow> Some (404, ''Organization not found.'')
   | OrganizationMembershipAlreadyExistsError _ \<Rightarrow> Some (409, ''User is already a member of this organization.'')
   | _ \<Rightarrow> None)"

definition route_add_member :: "env \<Rightarrow> string option \<Rightarrow> uuid \<Rightarrow> uuid \<Rightarrow> response py" where
  "route_add_member X auth organization_id user_id =
     and_then (require_permission X ''organization'' ''manage'' auth) (\<lambda>admin.
     and_then
       (excepting add_member_errors
        (add_member X user_id organization_id (usr_id admin)))
       (\<lambda>_. pure (204, EmptyBody)))"

definition route_remove_member :: "env \<Rightarrow> string option \<Rightarrow> uuid \<Rightarrow> uuid \<Rightarrow> response py" where
  "route_remove_member X auth organization_id user_id =
     and_then (require_permission X ''organization'' ''manage'' auth) (\<lambda>admin.
     and_then (remove_member X user_id organization_id (usr_id admin)) (\<lambda>_.
     pure (204, EmptyBody)))"

definition list_members_errors :: "domain_error \<Rightarrow> (nat \<times> string) option" where
  "list_members_errors d = (case d of
     OrganizationNotFoundError _ \<Rightarrow> Some (404, ''Organization not found.'')
   | _ \<Rightarrow> None)"

definition route_list_members :: "env \<Rightarrow> string option \<Rightarrow> uuid \<Rightarrow> response py" where
  "route_list_members X auth organization_id =
     and_then (require_permission X ''organization'' ''manage'' auth) (\<lambda>_.
     and_then
       (excepting list_members_errors
        (list_members organization_id))
       (\<lambda>members. pure (200, MembersBody members)))"

definition route_my_organizations :: "env \<Rightarrow> string option \<Rightarrow> response py" where
  "route_my_organizations X auth =
     and_then (get_current_user X auth) (\<lambda>u.
     and_then (list_organizations_for_user X (usr_id u)) (\<lambda>gs.
     pure (200, OrganizationsBody gs)))"

definition route_list_audit_logs ::
  "env \<Rightarrow> string option \<Rightarrow> uuid option \<Rightarrow> uuid option \<Rightarrow> string option \<Rightarrow> int option \<Rightarrow> int option \<Rightarrow>
   response py" where
  "route_list_audit_logs X auth organization_id actor_user_id action limit offset =
     and_then (require_permission X ''audit'' ''view'' auth) (\<lambda>_.
     let l = (case limit of None \<Rightarrow> 50 | Some v \<Rightarrow> v); off = (case offset of None \<Rightarrow> 0 | Some v \<Rightarrow> v) in
     if l < 1 \<or> 200 < l \<or> off < 0 then raise unprocessable
     else
       and_then (list_events organization_id actor_user_id action l off) (\<lambda>page.
       pure (200, AuditPageBody page)))"

definition health_check :: "response py" where
  "health_check = pure (200, HealthBody)"

section \<open>The application\<close>

datatype request =
    Register string string
  | Login string string
  | Refresh string
  | Logout string
  | Authorize string string "uuid option"
  | CreateRole string "string option" "uuid option"
  | AssignPermission uuid uuid
  | RemovePermission uuid uuid
  | MyPermissions "uuid option"
  | AssignRole uuid uuid "uuid option"
  | RevokeRole uuid uuid "uuid option"
  | UserPermissions uuid "uuid option"
  | CreateOrganization string
  | AddMember uuid uuid
  | RemoveMember uuid uuid
  | ListMembers uuid
  | MyOrganizations
  | ListAuditLogs "uuid option" "uuid option" "string option" "int option" "int option"
  | Health

text \<open>The router: a request with its \<open>Authorization\<close> header.\<close>

fun dispatch :: "env \<Rightarrow> string option \<Rightarrow> request \<Rightarrow> response py" where
  "dispatch X auth (Register e p) = route_register X e p"
| "dispatch X auth (Login e p) = route_login X e p"
| "dispatch X auth (Refresh t) = route_refresh X t"
| "dispatch X auth (Logout t) = route_logout X t"
| "dispatch X auth (Authorize r a g) = route_authorize X auth r a g"
| "dispatch X auth (CreateRole name d g) = route_create_role X auth name d g"
| "dispatch X auth (AssignPermission i p) = route_assign_permission_to_role X auth i p"
| "dispatch X auth (RemovePermission i p) = route_remove_permission_from_role X auth i p"
| "dispatch X auth (MyPermissions g) = route_my_permissions X auth g"
| "dispatch X auth (AssignRole u i g) = route_assign_role X auth u i g"
| "dispatch X auth (RevokeRole u i g) = route_revoke_role X auth u i g"
| "dispatch X auth (UserPermissions u g) = route_user_permissions X auth u g"
| "dispatch X auth (CreateOrganization name) = route_create_organization X auth name"
| "dispatch X auth (AddMember g u) = route_add_member X auth g u"
| "dispatch X auth (RemoveMember g u) = route_remove_member X auth g u"
| "dispatch X auth (ListMembers g) = route_list_members X auth g"
| "dispatch X auth MyOrganizations = route_my_organizations X auth"
| "dispatch X auth (ListAuditLogs g u a l off) = route_list_audit_logs X auth g u a l off"
| "dispatch X auth Health = health_check"

text \<open>The status the client sees: an exception no layer catches is a 500.\<close>

definition status_of :: "exn + response \<Rightarrow> nat" where
  "status_of r = (case r of
     Inr (status, _) \<Rightarrow> status
   | Inl (HTTPException status _) \<Rightarrow> status
   | Inl _ \<Rightarrow> 500)"

end
