(* ===== verification/Token_Hashes.thy ===== *)
theory Token_Hashes
  imports Auth_Service
begin

text \<open>
  Why the lookup by hash finds one row: every stored hash is the hash of a
  generated token, and as long as the source of tokens does not repeat itself a
  new token's hash is in no row yet.
\<close>

definition hash_of_draw :: "env \<Rightarrow> nat \<Rightarrow> string" where
  "hash_of_draw X i = sha256_hexdigest X (token_urlsafe X i)"

definition hashes_ok :: "env \<Rightarrow> world \<Rightarrow> bool" where
  "hashes_ok X w = (distinct (map rt_token_hash (refresh_tokens w)) \<and>
     rt_token_hash ` set (refresh_tokens w) \<subseteq> hash_of_draw X ` {..<draws w})"

text \<open>The claim is for the first \<open>n\<close> draws, those that do not collide.\<close>

definition hashes_upto :: "env \<Rightarrow> nat \<Rightarrow> world \<Rightarrow> bool" where
  "hashes_upto X n w = (draws w \<le> n \<longrightarrow> hashes_ok X w)"

text \<open>A token has been generated at draw \<open>k\<close> and is not stored yet.\<close>

definition pending :: "env \<Rightarrow> nat \<Rightarrow> nat \<Rightarrow> world \<Rightarrow> bool" where
  "pending X n k w = (draws w \<le> n \<longrightarrow> hashes_ok X w \<and> k < draws w \<and>
     hash_of_draw X k \<notin> rt_token_hash ` set (refresh_tokens w))"

lemma hashes_ok_idents:
  "hashes_ok X w \<longleftrightarrow> distinct (map (snd \<circ> snd) (token_idents w)) \<and>
     (snd \<circ> snd) ` set (token_idents w) \<subseteq> hash_of_draw X ` {..<draws w}"
  by (simp add: hashes_ok_def token_idents_def o_def image_image)

lemma hash_images: "rt_token_hash ` set (refresh_tokens w) = (snd \<circ> snd) ` set (token_idents w)"
  by (simp add: token_idents_def image_image)

lemma hashes_ok_later:
  assumes "idents_kept w w'" and "hashes_ok X w"
  shows "hashes_ok X w'"
proof -
  have "hash_of_draw X ` {..<draws w} \<subseteq> hash_of_draw X ` {..<draws w'}"
    using assms(1) by (intro image_mono) (auto simp: idents_kept_def)
  with assms show ?thesis by (auto simp: hashes_ok_idents idents_kept_def)
qed

lemma idents_hashes_upto: "obeys idents_kept m \<Longrightarrow> obeys (keeps (hashes_upto X n)) m"
  by (erule obeys_mono)
    (auto simp: keeps_def hashes_upto_def intro: hashes_ok_later simp: idents_kept_def)

lemma idents_pending: "obeys idents_kept m \<Longrightarrow> obeys (keeps (pending X n k)) m"
proof (erule obeys_mono)
  fix s t
  assume k: "idents_kept s t"
  then have "draws s \<le> draws t" by (simp add: idents_kept_def)
  moreover have "rt_token_hash ` set (refresh_tokens t) = rt_token_hash ` set (refresh_tokens s)"
    using k by (simp add: hash_images idents_kept_def)
  ultimately show "keeps (pending X n k) s t"
    using hashes_ok_later [OF k] by (auto simp: keeps_def pending_def)
qed

section \<open>From one condition to another\<close>

definition leads :: "('s \<Rightarrow> bool) \<Rightarrow> ('s \<Rightarrow> bool) \<Rightarrow> 's \<Rightarrow> 's \<Rightarrow> bool" where
  "leads P Q s t = (P s \<longrightarrow> Q t)"

lemma leads_before:
  assumes "obeys (keeps P) m" and "\<And>x. obeys (leads P Q) (f x)" and "\<And>s. P s \<Longrightarrow> Q s"
  shows "obeys (leads P Q) (and_then m f)"
  using assms unfolding obeys_def leads_def keeps_def
  by (auto simp: run_simps split: prod.splits sum.splits)

lemma leads_after:
  assumes "obeys (leads P Q) m" and "\<And>x. obeys (keeps Q) (f x)"
  shows "obeys (leads P Q) (and_then m f)"
  using assms unfolding obeys_def leads_def keeps_def
  by (auto simp: run_simps split: prod.splits sum.splits)

lemma pending_hashes: "pending X n k w \<Longrightarrow> hashes_upto X n w"
  by (simp add: pending_def hashes_upto_def)

text \<open>Generating a token makes it pending.\<close>

lemma generate_pending:
  assumes cf: "collision_free X n"
    and rest: "\<And>k. obeys (leads (pending X n k) (hashes_upto X n)) (f (token_urlsafe X k))"
  shows "obeys (keeps (hashes_upto X n)) (and_then (generate_refresh_token X) f)"
proof -
  have "pending X n (draws w) (w\<lparr>draws := Suc (draws w)\<rparr>)" if "hashes_upto X n w" for w
    unfolding pending_def
  proof
    assume "draws (w\<lparr>draws := Suc (draws w)\<rparr>) \<le> n"
    then have n: "draws w < n" by simp
    with that have h: "hashes_ok X w" by (simp add: hashes_upto_def)
    have "idents_kept w (w\<lparr>draws := Suc (draws w)\<rparr>)" by (simp add: idents_kept_def token_idents_def)
    from hashes_ok_later [OF this h] have "hashes_ok X (w\<lparr>draws := Suc (draws w)\<rparr>)" .
    moreover have "hash_of_draw X (draws w) \<notin> rt_token_hash ` set (refresh_tokens w)"
    proof
      assume "hash_of_draw X (draws w) \<in> rt_token_hash ` set (refresh_tokens w)"
      with h obtain j where "j < draws w" "hash_of_draw X (draws w) = hash_of_draw X j"
        by (auto simp: hashes_ok_def)
      moreover have "inj_on (hash_of_draw X) {..<n}"
        using cf by (simp add: collision_free_def hash_of_draw_def [abs_def])
      ultimately have "draws w = j" using n by (auto dest: inj_onD)
      with \<open>j < draws w\<close> show False by simp
    qed
    ultimately show "hashes_ok X (w\<lparr>draws := Suc (draws w)\<rparr>) \<and>
        draws w < draws (w\<lparr>draws := Suc (draws w)\<rparr>) \<and>
        hash_of_draw X (draws w) \<notin> rt_token_hash ` set (refresh_tokens (w\<lparr>draws := Suc (draws w)\<rparr>))"
      by simp
  qed
  with rest show ?thesis
    by (simp add: obeys_def keeps_def leads_def generate_refresh_token_def run_simps)
qed

text \<open>Storing the pending token.\<close>

lemma hashes_store:
  assumes p: "pending X n k w" and h: "rt_token_hash t = hash_of_draw X k"
    and w': "map rt_token_hash (refresh_tokens w') = map rt_token_hash (refresh_tokens w) @ [rt_token_hash t]"
    and d: "draws w \<le> draws w'"
  shows "hashes_upto X n w'"
  unfolding hashes_upto_def hashes_ok_def
proof (intro impI conjI)
  assume "draws w' \<le> n"
  with d p have ok: "hashes_ok X w" "k < draws w" "hash_of_draw X k \<notin> rt_token_hash ` set (refresh_tokens w)"
    by (auto simp: pending_def)
  show "distinct (map rt_token_hash (refresh_tokens w'))"
    unfolding w' using ok h by (simp add: hashes_ok_def)
  have "rt_token_hash ` set (refresh_tokens w') = set (map rt_token_hash (refresh_tokens w'))" by simp
  also have "\<dots> = insert (hash_of_draw X k) (rt_token_hash ` set (refresh_tokens w))"
    unfolding w' using h by auto
  also have "\<dots> \<subseteq> hash_of_draw X ` {..<draws w'}"
  proof -
    have "hash_of_draw X k \<in> hash_of_draw X ` {..<draws w'}" using ok(2) d by simp
    moreover have "hash_of_draw X ` {..<draws w} \<subseteq> hash_of_draw X ` {..<draws w'}"
      using d by (intro image_mono) simp
    ultimately show ?thesis using ok(1) unfolding hashes_ok_def by blast
  qed
  finally show "rt_token_hash ` set (refresh_tokens w') \<subseteq> hash_of_draw X ` {..<draws w'}" .
qed

lemma pending_draws:
  "pending X n k w \<Longrightarrow> refresh_tokens w' = refresh_tokens w \<Longrightarrow> draws w \<le> draws w' \<Longrightarrow> hashes_upto X n w'"
  using hashes_ok_later [of w w' X]
  by (auto simp: pending_def hashes_upto_def idents_kept_def token_idents_def)

lemma refresh_token_create_hashes:
  "obeys (leads (pending X n k) (hashes_upto X n))
     (refresh_token_create X u (hash_of_draw X k) e)"
proof (rule obeysI)
  fix w r w'
  assume "refresh_token_create X u (hash_of_draw X k) e w = (r, w')"
  then show "leads (pending X n k) (hashes_upto X n) w w'"
  proof (cases rule: refresh_token_create_cases)
    case (stored t)
    then show ?thesis
      unfolding leads_def
      by (intro impI, elim hashes_store [where t = t]) (simp_all add: new_refresh_token_def)
  next
    case rejected
    then show ?thesis unfolding leads_def by (intro impI, elim pending_draws) simp_all
  qed
qed

lemma create_rotation_pair_hashes:
  "obeys (leads (pending X n k) (hashes_upto X n))
     (create_rotation_pair X old (hash_of_draw X k) e)"
proof (rule obeysI)
  fix w r w'
  assume "create_rotation_pair X old (hash_of_draw X k) e w = (r, w')"
  then show "leads (pending X n k) (hashes_upto X n) w w'"
  proof (cases rule: create_rotation_pair_cases)
    case (won new ts)
    have "map rt_token_hash ts = map rt_token_hash (refresh_tokens w)"
      unfolding won(3) by (rule update_where_map) simp
    moreover have "map rt_token_hash (refresh_tokens w') = map rt_token_hash (ts @ [new])"
      unfolding won(6) by (simp add: update_where_map)
    ultimately have "map rt_token_hash (refresh_tokens w') =
        map rt_token_hash (refresh_tokens w) @ [rt_token_hash new]"
      by simp
    then show ?thesis
      unfolding leads_def
      by (intro impI, elim hashes_store [where t = new]) (simp_all add: won(5,6) new_refresh_token_def)
  qed (unfold leads_def, (intro impI, elim pending_draws, simp_all)+)
qed

section \<open>The services keep the hashes apart\<close>

lemma create_user_idents: "obeys idents_kept (create_user X e h)"
  unfolding create_user_def
  by (rule insert_reporting_obeys [OF identity.history_axioms],
      rule insert_new_obeys, rule identity.refl, erule (1) identity.trans)
    (simp_all add: idents_kept_def token_idents_def store_user_def)

lemma update_last_login_idents: "obeys idents_kept (update_last_login X u)"
  by (simp add: obeys_def idents_kept_def token_idents_def update_last_login_run Let_def)

lemmas ident_steps = identity.rules auth_quiet [THEN quiet_idents] audit_record_idents
  create_user_idents update_last_login_idents revoke_idents revoke_descendants_idents

lemma auth_register_idents: "obeys idents_kept (auth_register X e p)"
  by (intro auth_register_obeys identity.history_axioms ident_steps)

lemma auth_logout_idents: "obeys idents_kept (auth_logout X t)"
  unfolding auth_logout_def by (intro ident_steps)

lemma handle_revoked_token_idents: "obeys idents_kept (handle_revoked_token X t)"
  unfolding handle_revoked_token_def record_rejection_def by (intro ident_steps)

lemma expiry_pending: "obeys (keeps (pending X n k)) (refresh_token_expiry X)"
  by (intro idents_pending quiet_idents refresh_token_expiry_quiet)

lemmas hash_steps = keeping.rules auth_quiet [THEN quiet_idents, THEN idents_hashes_upto]
  audit_record_idents [THEN idents_hashes_upto] update_last_login_idents [THEN idents_hashes_upto]
  handle_revoked_token_idents [THEN idents_hashes_upto]

lemma issue_token_pair_hashes:
  assumes "collision_free X n"
  shows "obeys (keeps (hashes_upto X n)) (issue_token_pair X u)"
  unfolding issue_token_pair_def Let_def hash_refresh_token_def
  by (rule keeping.and_then, intro hash_steps, rule generate_pending [OF assms])
    (intro leads_before [OF expiry_pending] leads_after keeping.pure
        refresh_token_create_hashes [unfolded hash_of_draw_def] pending_hashes)

lemma auth_login_hashes:
  assumes "collision_free X n"
  shows "obeys (keeps (hashes_upto X n)) (auth_login X e p)"
  unfolding auth_login_def by (intro hash_steps issue_token_pair_hashes [OF assms])

lemma rotate_token_hashes:
  assumes "collision_free X n"
  shows "obeys (keeps (hashes_upto X n)) (rotate_token X t u)"
  unfolding rotate_token_def Let_def hash_refresh_token_def record_rejection_def
  by (rule generate_pending [OF assms])
    (intro leads_before [OF expiry_pending] pending_hashes
      leads_after create_rotation_pair_hashes [unfolded hash_of_draw_def] hash_steps)

lemma auth_refresh_hashes:
  assumes "collision_free X n"
  shows "obeys (keeps (hashes_upto X n)) (auth_refresh X t)"
  unfolding auth_refresh_def record_rejection_def
  by (intro hash_steps rotate_token_hashes [OF assms])

end
