(* ===== verification/System.thy ===== *)
theory System
  imports Api Token_Hashes
begin

text \<open>
  The invariants of the running service: what every request preserves, whoever
  sends it and however it ends.
\<close>

section \<open>The dependencies only read\<close>

lemma subject_id_quiet: "obeys quiet (subject_id d)"
  unfolding subject_id_def
  by (auto intro: quieting.rules split: option.split json.split)

lemma unauthorized_handlers:
  "(case e of TokenValidationError _ \<Rightarrow> Some m | _ \<Rightarrow> None) = Some k \<Longrightarrow> k = m"
  "(case e of Python KeyError \<Rightarrow> Some m | Python ValueError \<Rightarrow> Some m | Python TypeError \<Rightarrow> Some m
     | _ \<Rightarrow> None) = Some k' \<Longrightarrow> k' = m"
  by (auto split: exn.splits python_error.splits)

lemma get_current_user_quiet: "obeys quiet (get_current_user X a)"
  unfolding get_current_user_def
  by (intro quieting.rules decode_access_token_quiet subject_id_quiet user_get_quiet)
    (auto dest!: unauthorized_handlers intro: quieting.raise)

lemma require_permission_quiet: "obeys quiet (require_permission X r a auth)"
  unfolding require_permission_def
  by (intro quieting.rules get_current_user_quiet authorize_quiet)

lemma excepting_obeys:
  assumes "history R" and "obeys R m"
  shows "obeys R (excepting c m)"
  unfolding excepting_def
  by (rule history.try_except [OF assms])
    (auto intro: history.raise [OF assms(1)] split: exn.splits option.splits)

section \<open>The invariant\<close>

text \<open>
  \<open>sound\<close>: keys and references of every table, the shape of the rotation chains,
  and the scopes of the role assignments.
\<close>

definition sound :: "env \<Rightarrow> world \<Rightarrow> bool" where
  "sound X w = (ledger_ok X w \<and> scopes_ok w)"

lemma quiet_sound: "obeys quiet m \<Longrightarrow> obeys (keeps (sound X)) m"
  using quiet_keeps_ledger [of m X] quiet_scoped [of m X]
  by (auto simp: obeys_def keeps_def sound_def scoped_def ledger_ok_def)

lemma auth_sound:
  assumes "obeys (keeps (ledger_ok X)) m" and "obeys (same but_auth) m"
  shows "obeys (keeps (sound X)) m"
proof -
  have "scopes_ok w' = scopes_ok w" if "but_auth w' = but_auth w" for w w'
  proof -
    from that have "roles (but_auth w') = roles (but_auth w)"
      "user_roles (but_auth w') = user_roles (but_auth w)" by simp_all
    then have "roles w' = roles w" "user_roles w' = user_roles w" by (simp_all add: but_auth_def)
    then show ?thesis by (simp add: scopes_ok_def)
  qed
  then have "scopes_ok (snd (m s)) = scopes_ok s" for s by this (rule obeys_sameD [OF assms(2)])
  with assms(1) show ?thesis by (simp add: obeys_def keeps_def sound_def)
qed

lemma graph_sound:
  "obeys (keeps (ledger_ok X)) m \<Longrightarrow> obeys (keeps (scoped X)) m \<Longrightarrow> obeys (keeps (sound X)) m"
  by (simp add: obeys_def keeps_def sound_def scoped_def ledger_ok_def)

lemma services_sound:
  "obeys (keeps (sound X)) (auth_register X e p)" "obeys (keeps (sound X)) (auth_login X e p)"
  "obeys (keeps (sound X)) (auth_refresh X t)" "obeys (keeps (sound X)) (auth_logout X t)"
  "obeys (keeps (sound X)) (create_role X name d g actor)"
  "obeys (keeps (sound X)) (assign_role X u i g actor)"
  "obeys (keeps (sound X)) (revoke_role X u i g actor)"
  "obeys (keeps (sound X)) (assign_permission_to_role X i pid actor)"
  "obeys (keeps (sound X)) (remove_permission_from_role X i pid actor)"
  "obeys (keeps (sound X)) (create_organization X name actor)"
  "obeys (keeps (sound X)) (add_member X u o1 actor)"
  "obeys (keeps (sound X)) (remove_member X u o1 actor)"
  by ((rule auth_sound, (rule auth_register_ledger auth_login_ledger auth_refresh_ledger
      auth_logout_ledger auth_register_but_auth auth_login_but_auth auth_refresh_but_auth
      auth_logout_but_auth)+)
    | (rule graph_sound, (rule authz_ledger authz_scoped orgs_ledger orgs_scoped)+))+

lemmas route_defs = route_register_def route_login_def route_refresh_def route_logout_def
  route_authorize_def route_create_role_def route_assign_permission_to_role_def
  route_remove_permission_from_role_def route_my_permissions_def route_assign_role_def
  route_revoke_role_def route_user_permissions_def route_create_organization_def
  route_add_member_def route_remove_member_def route_list_members_def route_my_organizations_def
  route_list_audit_logs_def health_check_def

lemmas error_clauses = register_errors_def login_errors_def refresh_errors_def create_role_errors_def
  assign_permission_errors_def remove_permission_errors_def assign_role_errors_def
  create_organization_errors_def add_member_errors_def list_members_errors_def

lemmas dependency_quiet = get_current_user_quiet require_permission_quiet authorize_quiet
  get_user_permissions_quiet organization_reads_quiet

lemma dispatch_sound: "obeys (keeps (sound X)) (dispatch X auth req)"
  by (cases req; simp only: dispatch.simps route_defs)
    (intro keeping.rules excepting_obeys keeping.history_axioms services_sound
      dependency_quiet [THEN quiet_sound])+

lemma dispatch_grows: "obeys (grows audit_logs) (dispatch X auth req)"
  by (cases req; simp only: dispatch.simps route_defs)
    (intro growing.rules excepting_obeys growing.history_axioms auth_register_grows auth_login_grows
      auth_refresh_grows auth_logout_grows authz_grows orgs_grows
      dependency_quiet [THEN quiet_log_grows])+

lemma dispatch_hashes:
  assumes "collision_free X n"
  shows "obeys (keeps (hashes_upto X n)) (dispatch X auth req)"
  by (cases req; simp only: dispatch.simps route_defs)
    (intro keeping.rules excepting_obeys keeping.history_axioms
      auth_register_idents [THEN idents_hashes_upto] auth_login_hashes [OF assms]
      auth_refresh_hashes [OF assms] auth_logout_idents [THEN idents_hashes_upto]
      authz_accounts [THEN accounts_idents, THEN idents_hashes_upto]
      orgs_accounts [THEN accounts_idents, THEN idents_hashes_upto]
      dependency_quiet [THEN quiet_idents, THEN idents_hashes_upto])+

section \<open>Runs\<close>

text \<open>The states the service can be in: any sequence of requests on the seeded database.\<close>

inductive reachable :: "env \<Rightarrow> world \<Rightarrow> world \<Rightarrow> bool" for X :: env and start :: world where
  started: "reachable X start start"
| served: "reachable X start w \<Longrightarrow> dispatch X auth req w = (res, w') \<Longrightarrow> reachable X start w'"

lemma reachable_keeps:
  assumes "reachable X start w" and "\<And>auth req. obeys R (dispatch X auth req)"
    and "\<And>w. R w w" and "\<And>s t u. R s t \<Longrightarrow> R t u \<Longrightarrow> R s u"
  shows "R start w"
  using assms(1)
proof induction
  case started
  show ?case by (rule assms(3))
next
  case (served w auth req res w')
  from obeysD [OF assms(2) served.hyps(2)] served.IH show ?case by (blast intro: assms(4))
qed

end
