(* ===== verification/Auth_Runs.thy ===== *)
theory Auth_Runs
  imports Token_Hashes
begin

text \<open>
  What register, login, refresh and logout do on every branch: the response, the
  tables and the audit log after the call.
\<close>

lemma action_lengths [simp]:
  "length USER_REGISTERED \<le> 100" "length USER_REGISTRATION_FAILED \<le> 100"
  "length USER_LOGIN_SUCCEEDED \<le> 100" "length USER_LOGIN_FAILED \<le> 100"
  "length USER_LOGOUT \<le> 100" "length REFRESH_TOKEN_ROTATED \<le> 100"
  "length REFRESH_TOKEN_REJECTED \<le> 100" "length REFRESH_TOKEN_REUSE_DETECTED \<le> 100"
  "length REFRESH_TOKEN_FAMILY_REVOKED \<le> 100"
  by (simp_all add: audit_action_defs)

lemma db_ok_user_found:
  assumes "find (\<lambda>u. usr_id u = i) (users w) = Some u"
  shows "usr_id u \<in> ids usr_id (users w)"
  using find_key_Some [OF assms] by (auto simp: ids_def)

section \<open>Registration\<close>

text \<open>The user a registration creates.\<close>

definition registered_user :: "env \<Rightarrow> string \<Rightarrow> string \<Rightarrow> world \<Rightarrow> user" where
  "registered_user X email password w =
     new_user (py_lower email) (argon2_hash X (password_hasher X) (draws w) password)
       (gen_random_uuid X (draws w + 1)) (db_now X (draws w + 2))"

lemma registered_user_consistent:
  assumes "db_ok X w" and "collision_free X n" and "draws w + 1 < n"
    and "py_lower email \<notin> usr_email ` set (users w)"
  shows "user_consistent w (registered_user X email password w)"
proof -
  have "gen_random_uuid X (draws w + 1) \<notin> ids usr_id (users w)"
    using fresh_id [of X w n "draws w + 1"] assms(1-3) by (auto simp: db_ok_def world_ids_def)
  with assms(4) show ?thesis
    by (simp add: registered_user_def new_user_def user_consistent_def)
qed

lemma register_run:
  assumes ok: "db_ok X w" and cf: "collision_free X n" and n: "draws w + 5 \<le> n"
    and hash: "argon2_ok X" and email: "length email \<le> 255"
  shows "auth_register X email password w =
    (let u = registered_user X email password w in
     if py_lower email \<in> usr_email ` set (users w)
     then (Inl (Domain (EmailAlreadyExistsError ''Unable to register with the provided details.'')),
           log_event X USER_REGISTRATION_FAILED None (Some ''user'') None None
             (Some [(''attempted_email'', JStr email), (''reason'', JStr ''duplicate_email'')])
             (w\<lparr>draws := draws w + 3\<rparr>))
     else (Inr \<lparr>reg_id = usr_id u, reg_email = py_lower email, reg_created_at = usr_created_at u\<rparr>,
           log_event X USER_REGISTERED (Some (usr_id u)) (Some ''user'') (Some (usr_id u)) None None
             (w\<lparr>users := users w @ [u], draws := draws w + 3\<rparr>)))"
proof -
  let ?u = "registered_user X email password w"
  have ok1: "db_ok X (w\<lparr>draws := k\<rparr>)" if "draws w \<le> k" for k
    using ok that by (rule db_ok_draws [rotated])
  note create = create_user_run [OF ok1 cf, of "Suc (draws w)" email
      "argon2_hash X (password_hasher X) (draws w) password"]
  show ?thesis
  proof (cases "py_lower email \<in> usr_email ` set (users w)")
    case True
    with n hash email ok1 show ?thesis
      by (simp add: auth_register_def run_simps hash_password_def create argon2_ok_def
          audit_record_run [OF ok1 cf] Let_def numeral_3_eq_3)
  next
    case False
    have "user_consistent (w\<lparr>draws := draws w + 3\<rparr>) ?u"
      using registered_user_consistent [OF ok cf _ False] n by simp
    then have ok2: "db_ok X ((w\<lparr>draws := draws w + 3\<rparr>)\<lparr>users := users (w\<lparr>draws := draws w + 3\<rparr>) @ [?u]\<rparr>)"
      by (intro db_ok_insert_user ok1) (simp_all add: registered_user_def new_user_def)
    then have ok3: "db_ok X (w\<lparr>users := users w @ [?u], draws := Suc (Suc (Suc (draws w)))\<rparr>)"
      by (simp add: numeral_3_eq_3)
    have u: "new_user (py_lower email) (argon2_hash X (password_hasher X) (draws w) password)
        (gen_random_uuid X (Suc (draws w))) (db_now X (Suc (Suc (draws w)))) = ?u"
      by (simp add: registered_user_def)
    have e: "usr_email ?u = py_lower email" by (simp add: registered_user_def new_user_def)
    from False n hash email show ?thesis
      by (simp add: auth_register_def run_simps hash_password_def create argon2_ok_def u e
          audit_record_run [OF ok3 cf] Let_def numeral_3_eq_3)
  qed
qed

section \<open>Login\<close>

text \<open>The access token, the pair and the stored row issued from draw \<open>d\<close> on.\<close>

definition issued_access_token :: "env \<Rightarrow> uuid \<Rightarrow> nat \<Rightarrow> string" where
  "issued_access_token X i d =
     jwt_encode X (access_token_payload X (uuid_str i) (utc_clock X d) (uuid4 X (d + 1)))
       (jwt_secret_key (config X)) (jwt_algorithm (config X))"

definition token_pair :: "env \<Rightarrow> string \<Rightarrow> string \<Rightarrow> token_response" where
  "token_pair X access raw =
     \<lparr>resp_access_token = access, resp_refresh_token = raw, resp_token_type = ''bearer'',
      resp_expires_in = access_token_ttl_minutes (config X) * 60\<rparr>"

definition issued_token :: "env \<Rightarrow> uuid \<Rightarrow> nat \<Rightarrow> refresh_token" where
  "issued_token X i d =
     new_refresh_token i (sha256_hexdigest X (token_urlsafe X d))
       (utc_clock X (d + 1) + days (refresh_token_ttl_days (config X)))
       (gen_random_uuid X (d + 2)) (db_now X (d + 3))"

lemma create_access_token_run [op_run]:
  "create_access_token X (uuid_str i) w =
     (Inr (issued_access_token X i (draws w)), w\<lparr>draws := draws w + 2\<rparr>)"
  by (simp add: create_access_token_def utc_now_def run_simps issued_access_token_def)

lemma issue_token_pair_run [op_run]:
  assumes ok: "db_ok X w" and cf: "collision_free X n" and n: "draws w + 6 \<le> n"
    and hash: "sha256_ok X" and u: "usr_id u \<in> ids usr_id (users w)"
  shows "issue_token_pair X u w =
    (Inr (token_pair X (issued_access_token X (usr_id u) (draws w)) (token_urlsafe X (draws w + 2))),
     w\<lparr>refresh_tokens := refresh_tokens w @ [issued_token X (usr_id u) (draws w + 2)],
       draws := draws w + 6\<rparr>)"
proof -
  let ?d = "draws w"
  have ok1: "db_ok X (w\<lparr>draws := Suc (Suc (Suc (Suc ?d)))\<rparr>)" using ok by (simp add: db_ok_draws)
  have "refresh_token_create X (usr_id u) (sha256_hexdigest X (token_urlsafe X (Suc (Suc ?d)))) e
      (w\<lparr>draws := Suc (Suc (Suc (Suc ?d)))\<rparr>) =
    (Inr (new_refresh_token (usr_id u) (sha256_hexdigest X (token_urlsafe X (Suc (Suc ?d)))) e
        (gen_random_uuid X (Suc (Suc (Suc (Suc ?d))))) (db_now X (Suc (Suc (Suc (Suc (Suc ?d))))))),
     w\<lparr>refresh_tokens := refresh_tokens w @ [new_refresh_token (usr_id u)
          (sha256_hexdigest X (token_urlsafe X (Suc (Suc ?d)))) e
          (gen_random_uuid X (Suc (Suc (Suc (Suc ?d))))) (db_now X (Suc (Suc (Suc (Suc (Suc ?d))))))],
       draws := Suc (Suc (Suc (Suc (Suc (Suc ?d)))))\<rparr>)" for e
    using n u hash by (subst refresh_token_create_run [OF ok1 cf]) (simp_all add: sha256_ok_def Let_def)
  then show ?thesis
    by (simp add: issue_token_pair_def create_access_token_run generate_refresh_token_def
        refresh_token_expiry_def utc_now_def run_simps hash_refresh_token_def
        issued_token_def token_pair_def access_token_ttl_seconds_def Let_def)
      (simp add: numeral_eq_Suc)
qed

lemma login_unknown_run:
  assumes ok: "db_ok X w" and cf: "collision_free X n" and n: "draws w + 2 \<le> n"
    and none: "py_lower email \<notin> usr_email ` set (users w)"
  shows "auth_login X email password w =
    (Inl (Domain (InvalidCredentialsError ''Invalid email or password.'')),
     log_event X USER_LOGIN_FAILED None (Some ''user'') None None
       (Some [(''attempted_email'', JStr email), (''reason'', JStr ''unknown_email'')]) w)"
proof -
  have "find (\<lambda>u. usr_email u = py_lower email) (users w) = None"
    using none by (simp only: find_key_None not_False_eq_True)
  with n show ?thesis
    by (simp add: auth_login_def run_simps user_get_by_email_run [OF ok] audit_record_run [OF ok cf])
qed

text \<open>The rejection of an account that exists.\<close>

definition log_login_failure :: "env \<Rightarrow> user \<Rightarrow> string \<Rightarrow> world \<Rightarrow> world" where
  "log_login_failure X u reason =
     log_event X USER_LOGIN_FAILED (Some (usr_id u)) (Some ''user'') (Some (usr_id u)) None
       (Some [(''reason'', JStr reason)])"

lemma user_by_email:
  assumes "db_ok X w" and "u \<in> set (users w)" and "usr_email u = py_lower email"
  shows "find (\<lambda>v. usr_email v = py_lower email) (users w) = Some u"
    and "usr_id u \<in> ids usr_id (users w)"
proof -
  have "distinct (map usr_email (users w))" using assms(1) by (simp add: db_ok_def keys_unique_def)
  from find_key_unique [OF this assms(2)] assms(3)
  show "find (\<lambda>v. usr_email v = py_lower email) (users w) = Some u" by simp
  show "usr_id u \<in> ids usr_id (users w)" using assms(2) by (simp add: ids_def)
qed

lemma login_inactive_run:
  assumes ok: "db_ok X w" and cf: "collision_free X n" and n: "draws w + 2 \<le> n"
    and u: "u \<in> set (users w)" "usr_email u = py_lower email" and off: "\<not> usr_is_active u"
  shows "auth_login X email password w =
    (Inl (Domain (InactiveUserError ''Account is inactive.'')),
     log_login_failure X u ''inactive_account'' w)"
  using n off user_by_email [OF ok u]
  by (simp add: auth_login_def run_simps user_get_by_email_run [OF ok] audit_record_run [OF ok cf]
      log_login_failure_def)

lemma login_wrong_password_run:
  assumes ok: "db_ok X w" and cf: "collision_free X n" and n: "draws w + 2 \<le> n"
    and u: "u \<in> set (users w)" "usr_email u = py_lower email" and on: "usr_is_active u"
    and bad: "\<not> verify_password X password (usr_password_hash u)"
  shows "auth_login X email password w =
    (Inl (Domain (InvalidCredentialsError ''Invalid email or password.'')),
     log_login_failure X u ''wrong_password'' w)"
  using n on bad user_by_email [OF ok u]
  by (simp add: auth_login_def run_simps user_get_by_email_run [OF ok] audit_record_run [OF ok cf]
      log_login_failure_def)

text \<open>The state after a successful login, up to the issue of the tokens.\<close>

definition logged_in :: "env \<Rightarrow> user \<Rightarrow> world \<Rightarrow> world" where
  "logged_in X u w =
     log_event X USER_LOGIN_SUCCEEDED (Some (usr_id u)) (Some ''user'') (Some (usr_id u)) None None
       (w\<lparr>users := update_where (\<lambda>v. usr_id v = usr_id u)
            (\<lambda>v. v\<lparr>usr_last_login_at := Some (utc_clock X (draws w)),
                  usr_updated_at := db_now X (draws w + 1)\<rparr>) (users w),
          draws := draws w + 2\<rparr>)"

lemma login_success_run:
  assumes ok: "db_ok X w" and cf: "collision_free X n" and n: "draws w + 10 \<le> n"
    and u: "u \<in> set (users w)" "usr_email u = py_lower email" and on: "usr_is_active u"
    and good: "verify_password X password (usr_password_hash u)" and hash: "sha256_ok X"
  shows "auth_login X email password w =
    (Inr (token_pair X (issued_access_token X (usr_id u) (draws w + 4)) (token_urlsafe X (draws w + 6))),
     (logged_in X u w)\<lparr>
        refresh_tokens := refresh_tokens w @ [issued_token X (usr_id u) (draws w + 6)],
        draws := draws w + 10\<rparr>)"
proof -
  let ?stamp = "\<lambda>v. v\<lparr>usr_last_login_at := Some (utc_clock X (draws w)),
      usr_updated_at := db_now X (Suc (draws w))\<rparr>"
  let ?us = "update_where (\<lambda>v. usr_id v = usr_id u) ?stamp (users w)"
  let ?w1 = "w\<lparr>users := ?us, draws := Suc (Suc (draws w))\<rparr>"
  have "map usr_id ?us = map usr_id (users w)" by (rule update_where_map) simp
  then have ids: "ids usr_id ?us = ids usr_id (users w)" by (metis ids_def list.set_map)
  have "db_ok X (w\<lparr>users := ?us\<rparr>)" using ok by (intro db_ok_update_users) simp_all
  then have "db_ok X (w\<lparr>users := ?us\<rparr>\<lparr>draws := Suc (Suc (draws w))\<rparr>)"
    by (rule db_ok_draws [rotated]) simp
  then have ok1: "db_ok X ?w1" by simp
  have l: "logged_in X u w = log_event X USER_LOGIN_SUCCEEDED (Some (usr_id u)) (Some ''user'')
      (Some (usr_id u)) None None ?w1"
    by (simp add: logged_in_def)
  have ok2: "db_ok X (logged_in X u w)"
    unfolding l using n ids user_by_email(2) [OF ok u] by (intro db_ok_log_event [OF ok1 cf]) simp_all
  have issue: "issue_token_pair X u (logged_in X u w) =
    (Inr (token_pair X (issued_access_token X (usr_id u) (draws w + 4)) (token_urlsafe X (draws w + 6))),
     (logged_in X u w)\<lparr>
        refresh_tokens := refresh_tokens w @ [issued_token X (usr_id u) (draws w + 6)],
        draws := draws w + 10\<rparr>)"
    using n ids user_by_email(2) [OF ok u]
    by (subst issue_token_pair_run [OF ok2 cf _ hash]) (simp_all add: l numeral_eq_Suc)
  have "auth_login X email password w = issue_token_pair X u (logged_in X u w)"
    using n on good ids user_by_email [OF ok u]
    by (simp add: auth_login_def run_simps user_get_by_email_run [OF ok] update_last_login_run
        audit_record_run [OF ok1 cf] Let_def l)
  with issue show ?thesis by simp
qed

section \<open>Refresh and logout\<close>

text \<open>What the audit log records of a rejected token.\<close>

definition log_rejection :: "env \<Rightarrow> refresh_token \<Rightarrow> string \<Rightarrow> world \<Rightarrow> world" where
  "log_rejection X t reason =
     log_event X REFRESH_TOKEN_REJECTED (Some (rt_user_id t)) (Some ''user'') (Some (rt_user_id t))
       None (Some [(''reason'', JStr reason)])"

text \<open>\<open>presents w p t\<close>: the raw token \<open>p\<close> is the one whose row is \<open>t\<close>.\<close>

definition presents :: "env \<Rightarrow> world \<Rightarrow> string \<Rightarrow> refresh_token \<Rightarrow> bool" where
  "presents X w p t = (distinct (map rt_token_hash (refresh_tokens w)) \<and>
     t \<in> set (refresh_tokens w) \<and> rt_token_hash t = sha256_hexdigest X p)"

lemma presents_found:
  assumes "presents X w p t"
  shows "token_get_by_hash (hash_refresh_token X p) w = (Inr (Some t), w)"
proof -
  have d: "distinct (map rt_token_hash (refresh_tokens w))" and t: "t \<in> set (refresh_tokens w)"
    and h: "rt_token_hash t = sha256_hexdigest X p"
    using assms by (auto simp: presents_def)
  from find_key_unique [OF d t] show ?thesis
    by (simp add: token_get_by_hash_run [OF d] hash_refresh_token_def h)
qed

lemma presents_owner:
  assumes "db_ok X w" and "presents X w p t"
  obtains u where "find (\<lambda>u. usr_id u = rt_user_id t) (users w) = Some u" "usr_id u = rt_user_id t"
    "rt_user_id t \<in> ids usr_id (users w)"
proof -
  from assms have i: "rt_user_id t \<in> ids usr_id (users w)"
    by (auto simp: db_ok_def refs_ok_def presents_def)
  then have "find (\<lambda>u. usr_id u = rt_user_id t) (users w) \<noteq> None"
    by (simp only: find_key_None ids_def) simp
  then obtain u where u: "find (\<lambda>u. usr_id u = rt_user_id t) (users w) = Some u" by blast
  from that [OF u _ i] find_key_Some [OF u] show ?thesis by blast
qed

lemma record_rejection_run [op_run]:
  assumes "db_ok X w" and "collision_free X n" and "draws w < n"
    and "rt_user_id t \<in> ids usr_id (users w)"
  shows "record_rejection X t reason w =
    (Inr (audit_row REFRESH_TOKEN_REJECTED (Some (rt_user_id t)) (Some ''user'') (Some (rt_user_id t))
        None (Some [(''reason'', JStr reason)]) (gen_random_uuid X (draws w)) (db_now X (Suc (draws w)))),
     log_rejection X t reason w)"
  using assms by (simp add: record_rejection_def log_rejection_def audit_record_run [OF assms(1,2)])

lemma refresh_unknown_run:
  assumes ok: "db_ok X w" and cf: "collision_free X n" and n: "draws w + 2 \<le> n"
    and none: "sha256_hexdigest X p \<notin> rt_token_hash ` set (refresh_tokens w)"
  shows "auth_refresh X p w =
    (Inl invalid_refresh_token,
     log_event X REFRESH_TOKEN_REJECTED None None None None
       (Some [(''reason'', JStr ''unknown_token'')]) w)"
proof -
  have "filter (\<lambda>t. rt_token_hash t = sha256_hexdigest X p) (refresh_tokens w) = []"
    using none by (rule filter_key_none)
  with n show ?thesis
    by (simp add: auth_refresh_def run_simps token_get_by_hash_def scalar_one_or_none_def
        hash_refresh_token_def audit_record_run [OF ok cf] Let_def)
qed

lemma refresh_logged_out_run:
  assumes ok: "db_ok X w" and cf: "collision_free X n" and n: "draws w + 2 \<le> n"
    and t: "presents X w p t" and r: "rt_revoked_at t \<noteq> None" "rt_replaced_by t = None"
  shows "auth_refresh X p w = (Inl invalid_refresh_token, log_rejection X t ''revoked_token'' w)"
proof (rule presents_owner [OF ok t])
  assume "rt_user_id t \<in> ids usr_id (users w)"
  with n r show ?thesis
    by (simp add: auth_refresh_def run_simps presents_found [OF t] handle_revoked_token_def
        record_rejection_run [OF ok cf] Let_def)
qed

lemma refresh_expired_run:
  assumes ok: "db_ok X w" and cf: "collision_free X n" and n: "draws w + 3 \<le> n"
    and t: "presents X w p t" and r: "rt_revoked_at t = None"
    and e: "rt_expires_at t \<le> utc_clock X (draws w)"
  shows "auth_refresh X p w =
    (Inl invalid_refresh_token, log_rejection X t ''expired_token'' (w\<lparr>draws := Suc (draws w)\<rparr>))"
proof (rule presents_owner [OF ok t])
  assume "rt_user_id t \<in> ids usr_id (users w)"
  moreover have "db_ok X (w\<lparr>draws := Suc (draws w)\<rparr>)" using ok by (simp add: db_ok_draws)
  ultimately show ?thesis using n r e
    by (simp add: auth_refresh_def run_simps presents_found [OF t] utc_now_def
        record_rejection_run [OF _ cf] Let_def)
qed

lemma refresh_inactive_run:
  assumes ok: "db_ok X w" and cf: "collision_free X n" and n: "draws w + 3 \<le> n"
    and t: "presents X w p t" and r: "rt_revoked_at t = None"
    and e: "utc_clock X (draws w) < rt_expires_at t"
    and u: "u \<in> set (users w)" "usr_id u = rt_user_id t" "\<not> usr_is_active u"
  shows "auth_refresh X p w =
    (Inl invalid_refresh_token,
     log_rejection X t ''inactive_or_deleted_owner'' (w\<lparr>draws := Suc (draws w)\<rparr>))"
proof -
  have ok1: "db_ok X (w\<lparr>draws := Suc (draws w)\<rparr>)" using ok by (simp add: db_ok_draws)
  have "distinct (map usr_id (users w))" using ok by (simp add: db_ok_def keys_unique_def)
  from find_key_unique [OF this u(1)] have f: "find (\<lambda>v. usr_id v = rt_user_id t) (users w) = Some u"
    by (simp add: u(2))
  have "rt_user_id t \<in> ids usr_id (users w)" using key_in [where k = usr_id, OF u(1,2)] by (simp add: ids_def)
  with n r e f u(3) show ?thesis
    by (simp add: auth_refresh_def run_simps presents_found [OF t] utc_now_def
        user_get_by_id_run [OF ok1] record_rejection_run [OF ok1 cf] Let_def)
qed

text \<open>A rotation: the state after the pair has been swapped and the event recorded.\<close>

definition rotated :: "env \<Rightarrow> refresh_token \<Rightarrow> world \<Rightarrow> world" where
  "rotated X t w =
     log_event X REFRESH_TOKEN_ROTATED (Some (rt_user_id t)) (Some ''user'') (Some (rt_user_id t))
       None None
       (w\<lparr>refresh_tokens := rotate_rows (rt_id t) (utc_clock X (draws w + 3))
            (new_refresh_token (rt_user_id t) (sha256_hexdigest X (token_urlsafe X (draws w + 1)))
               (utc_clock X (draws w + 2) + days (refresh_token_ttl_days (config X)))
               (gen_random_uuid X (draws w + 4)) (db_now X (draws w + 5)))
            (refresh_tokens w),
          draws := draws w + 6\<rparr>)"

lemma refresh_rotates_run:
  assumes ledger: "ledger_ok X w" and cf: "collision_free X n" and n: "draws w + 10 \<le> n"
    and hash: "sha256_ok X" and t: "presents X w p t" and r: "rt_revoked_at t = None"
    and e: "utc_clock X (draws w) < rt_expires_at t"
    and u: "u \<in> set (users w)" "usr_id u = rt_user_id t" "usr_is_active u"
  shows "auth_refresh X p w =
    (Inr (token_pair X (issued_access_token X (rt_user_id t) (draws w + 8)) (token_urlsafe X (draws w + 1))),
     (rotated X t w)\<lparr>draws := draws w + 10\<rparr>)"
proof -
  have ok: "db_ok X w" using ledger by (simp add: ledger_ok_def)
  let ?w1 = "w\<lparr>draws := Suc (draws w)\<rparr>"
  let ?w3 = "w\<lparr>draws := Suc (Suc (Suc (draws w)))\<rparr>"
  let ?h = "sha256_hexdigest X (token_urlsafe X (Suc (draws w)))"
  let ?e = "utc_clock X (Suc (Suc (draws w))) + days (refresh_token_ttl_days (config X))"
  let ?new = "new_refresh_token (rt_user_id t) ?h ?e (gen_random_uuid X (Suc (Suc (Suc (Suc (draws w))))))
      (db_now X (Suc (Suc (Suc (Suc (Suc (draws w)))))))"
  let ?w6 = "w\<lparr>refresh_tokens := rotate_rows (rt_id t) (utc_clock X (Suc (Suc (Suc (draws w))))) ?new
      (refresh_tokens w), draws := Suc (Suc (Suc (Suc (Suc (Suc (draws w))))))\<rparr>"
  have ts: "t \<in> set (refresh_tokens w)" using t by (simp add: presents_def)
  have ok1: "db_ok X ?w1" and ok3: "db_ok X ?w3" and l3: "ledger_ok X ?w3"
    using ledger by (simp_all add: ledger_ok_def db_ok_draws chains_ok_def)
  have "distinct (map usr_id (users w))" using ok by (simp add: db_ok_def keys_unique_def)
  from find_key_unique [OF this u(1)] have f: "find (\<lambda>v. usr_id v = rt_user_id t) (users w) = Some u"
    by (simp add: u(2))
  have i: "rt_user_id t \<in> ids usr_id (users w)" using key_in [where k = usr_id, OF u(1,2)] by (simp add: ids_def)
  have pair: "create_rotation_pair X t ?h ?e ?w3 = (Inr (Some ?new), ?w6)"
    using n r ts hash
    by (subst create_rotation_pair_run [OF ok3 cf, where s = t]) (simp_all add: sha256_ok_def Let_def)
  have "rt_user_id s = rt_user_id t" if "s \<in> set (refresh_tokens w)" "rt_id s = rt_id t" for s
    using that held_row [OF ledger ts] by (simp add: held_def)
  then have ok6: "db_ok X ?w6"
    using create_rotation_pair_ledger [OF l3 pair] by (simp add: ledger_ok_def)
  have rot: "log_event X REFRESH_TOKEN_ROTATED (Some (rt_user_id t)) (Some ''user'')
      (Some (rt_user_id t)) None None ?w6 = rotated X t w"
    by (simp add: rotated_def numeral_eq_Suc)
  have dr: "draws (rotated X t w) = draws w + 8" by (simp add: rotated_def)
  show ?thesis
    using n r e i
    by (simp add: auth_refresh_def run_simps presents_found [OF t, unfolded hash_refresh_token_def] utc_now_def
        user_get_by_id_run [OF ok1] f u rotate_token_def generate_refresh_token_def
        hash_refresh_token_def refresh_token_expiry_def pair audit_record_run [OF ok6 cf] rot
        create_access_token_run token_pair_def access_token_ttl_seconds_def dr Let_def)
qed

text \<open>
  Reuse of a rotated token. \<open>family_leaf\<close> is the live end of the presented
  token's chain, if the walk reaches one within its bound.
\<close>

definition family_leaf :: "world \<Rightarrow> refresh_token \<Rightarrow> refresh_token option" where
  "family_leaf w t =
     (case rt_replaced_by t of None \<Rightarrow> None
      | Some i \<Rightarrow>
          (case leaf_within (refresh_tokens w) MAX_FAMILY_WALK_STEPS i of None \<Rightarrow> None
           | Some s \<Rightarrow> if rt_revoked_at s = None then Some s else None))"

definition log_reuse :: "env \<Rightarrow> refresh_token \<Rightarrow> bool \<Rightarrow> world \<Rightarrow> world" where
  "log_reuse X t already_revoked =
     log_event X REFRESH_TOKEN_REUSE_DETECTED (Some (rt_user_id t)) (Some ''user'')
       (Some (rt_user_id t)) None
       (Some [(''presented_token_id'', JStr (uuid_str (rt_id t))),
              (''family_already_revoked'', JBool already_revoked)])"

definition log_family_revoked :: "env \<Rightarrow> refresh_token \<Rightarrow> refresh_token \<Rightarrow> world \<Rightarrow> world" where
  "log_family_revoked X t leaf =
     log_event X REFRESH_TOKEN_FAMILY_REVOKED (Some (rt_user_id t)) (Some ''refresh_token'')
       (Some (rt_id leaf)) None
       (Some [(''presented_token_id'', JStr (uuid_str (rt_id t)))])"

definition revoke_row :: "env \<Rightarrow> refresh_token \<Rightarrow> world \<Rightarrow> world" where
  "revoke_row X s w = w\<lparr>refresh_tokens := update_where (\<lambda>r. rt_id r = rt_id s)
     (set_revoked (utc_clock X (draws w))) (refresh_tokens w), draws := Suc (draws w)\<rparr>"

lemma ledger_revoke_row: "ledger_ok X w \<Longrightarrow> ledger_ok X (revoke_row X s w)"
proof -
  assume "ledger_ok X w"
  from ledger_ok_draws [OF _ ledger_ok_revoke_rows [OF this], of _ _ "Suc (draws w)"]
  show ?thesis by (simp add: revoke_row_def)
qed

lemma refresh_reuse_live_run:
  assumes ledger: "ledger_ok X w" and cf: "collision_free X n" and n: "draws w + 5 \<le> n"
    and t: "presents X w p t" and r: "rt_revoked_at t \<noteq> None" and s: "family_leaf w t = Some s"
  shows "auth_refresh X p w =
    (Inl invalid_refresh_token,
     log_family_revoked X t s (log_reuse X t False (revoke_row X s w)))"
proof (rule presents_owner [OF ledger_okD(1) [OF ledger] t])
  assume i: "rt_user_id t \<in> ids usr_id (users w)"
  from s obtain j where j: "rt_replaced_by t = Some j"
      "leaf_within (refresh_tokens w) MAX_FAMILY_WALK_STEPS j = Some s" "rt_revoked_at s = None"
    by (auto simp: family_leaf_def split: option.splits if_splits)
  have d: "distinct (map rt_id (refresh_tokens w))"
    using ledger by (intro db_ok_token_ids ledger_okD)
  have walk: "revoke_descendants X t w = (Inr (Some (set_revoked (utc_clock X (draws w)) s)), revoke_row X s w)"
    by (simp add: revoke_descendants_def j family_walk_run [OF d] revoke_row_def Let_def)
  have ok1: "db_ok X (revoke_row X s w)"
    using ledger_revoke_row [OF ledger] by (simp add: ledger_ok_def)
  have us: "users (revoke_row X s w) = users w" "draws (revoke_row X s w) = Suc (draws w)"
    by (simp_all add: revoke_row_def)
  have ok2: "db_ok X (log_reuse X t False (revoke_row X s w))"
    unfolding log_reuse_def using n i by (intro db_ok_log_event [OF ok1 cf]) (simp_all add: us)
  from r show ?thesis
    using n i
    by (simp add: auth_refresh_def run_simps presents_found [OF t] handle_revoked_token_def j walk
        audit_record_run [OF ok1 cf] us audit_record_run [OF ok2 [unfolded log_reuse_def] cf]
        log_family_revoked_def log_reuse_def Let_def)
qed

text \<open>
  No live leaf within the bound: the family is dead already, or the chain is longer
  than the walk. The audit log says \<open>family_already_revoked\<close> in both cases.
\<close>

lemma refresh_reuse_none_run:
  assumes ledger: "ledger_ok X w" and cf: "collision_free X n" and n: "draws w + 3 \<le> n"
    and t: "presents X w p t" and r: "rt_revoked_at t \<noteq> None" "rt_replaced_by t = Some j"
    and s: "family_leaf w t = None"
  shows "\<exists>k \<le> 1. auth_refresh X p w =
    (Inl invalid_refresh_token, log_reuse X t True (w\<lparr>draws := draws w + k\<rparr>))"
proof (rule presents_owner [OF ledger_okD(1) [OF ledger] t])
  assume i: "rt_user_id t \<in> ids usr_id (users w)"
  have d: "distinct (map rt_id (refresh_tokens w))"
    using ledger by (intro db_ok_token_ids ledger_okD)
  obtain k where k: "k \<le> 1" "revoke_descendants X t w = (Inr None, w\<lparr>draws := draws w + k\<rparr>)"
  proof (cases "leaf_within (refresh_tokens w) MAX_FAMILY_WALK_STEPS j")
    case None
    then show ?thesis
      by (intro that [of 0]) (simp_all add: revoke_descendants_def r family_walk_run [OF d])
  next
    case (Some l)
    then have "rt_revoked_at l \<noteq> None" using s r by (simp add: family_leaf_def split: if_splits)
    then obtain v where "rt_revoked_at l = Some v" by auto
    with Some show ?thesis
      by (intro that [of 1]) (simp_all add: revoke_descendants_def r family_walk_run [OF d] Let_def)
  qed
  have ok1: "db_ok X (w\<lparr>draws := draws w + k\<rparr>)"
    using ledger by (simp add: ledger_ok_def db_ok_draws)
  from r k i n have "auth_refresh X p w =
      (Inl invalid_refresh_token, log_reuse X t True (w\<lparr>draws := draws w + k\<rparr>))"
    by (simp add: auth_refresh_def run_simps presents_found [OF t] handle_revoked_token_def
        audit_record_run [OF ok1 cf] log_reuse_def Let_def)
  with k(1) show ?thesis by blast
qed

text \<open>Logout.\<close>

lemma revoke_run [op_run]:
  assumes "distinct (map rt_id (refresh_tokens w))" and t: "t \<in> set (refresh_tokens w)"
  shows "revoke X t w = (Inr (set_revoked (utc_clock X (draws w)) t), revoke_row X t w)"
proof -
  let ?ts = "update_where (\<lambda>r. rt_id r = rt_id t) (set_revoked (utc_clock X (draws w))) (refresh_tokens w)"
  have "set_revoked (utc_clock X (draws w)) t \<in> set ?ts"
    using t by (auto simp: update_where_def)
  moreover have "distinct (map rt_id ?ts)" using assms(1) by simp
  ultimately have "filter (\<lambda>r. rt_id r = rt_id t) ?ts = [set_revoked (utc_clock X (draws w)) t]"
    using filter_row [of ?ts "set_revoked (utc_clock X (draws w)) t"] by simp
  then show ?thesis
    by (simp add: revoke_def run_simps utc_now_def token_refresh_def session_refresh_def revoke_row_def)
qed

lemma logout_live_run:
  assumes ledger: "ledger_ok X w" and cf: "collision_free X n" and n: "draws w + 3 \<le> n"
    and t: "presents X w p t" and r: "rt_revoked_at t = None"
  shows "auth_logout X p w =
    (Inr (), log_event X USER_LOGOUT (Some (rt_user_id t)) (Some ''user'') (Some (rt_user_id t))
       None None (revoke_row X t w))"
proof (rule presents_owner [OF ledger_okD(1) [OF ledger] t])
  assume i: "rt_user_id t \<in> ids usr_id (users w)"
  have d: "distinct (map rt_id (refresh_tokens w))"
    using ledger by (intro db_ok_token_ids ledger_okD)
  have ts: "t \<in> set (refresh_tokens w)" using t by (simp add: presents_def)
  have ok1: "db_ok X (revoke_row X t w)"
    using ledger_revoke_row [OF ledger] by (simp add: ledger_ok_def)
  have us: "users (revoke_row X t w) = users w" "draws (revoke_row X t w) = Suc (draws w)"
    by (simp_all add: revoke_row_def)
  from n i r show ?thesis
    by (simp add: auth_logout_def run_simps presents_found [OF t] revoke_run [OF d ts]
        audit_record_run [OF ok1 cf] us Let_def)
qed

lemma logout_revoked_run:
  assumes "presents X w p t" and "rt_revoked_at t \<noteq> None"
  shows "auth_logout X p w = (Inr (), w)"
  using assms(2) by (simp add: auth_logout_def run_simps presents_found [OF assms(1)] Let_def)

lemma logout_unknown_run:
  assumes "sha256_hexdigest X p \<notin> rt_token_hash ` set (refresh_tokens w)"
  shows "auth_logout X p w = (Inr (), w)"
  using filter_key_none [OF assms]
  by (simp add: auth_logout_def run_simps token_get_by_hash_def scalar_one_or_none_def
      hash_refresh_token_def Let_def)

section \<open>Events and examples\<close>

text \<open>The event a state transition has appended to the log.\<close>

definition logs :: "world \<Rightarrow> string \<Rightarrow> uuid option \<Rightarrow> dict option \<Rightarrow> world \<Rightarrow> bool" where
  "logs w action actor metadata w' =
     (\<exists>l. audit_logs w' = audit_logs w @ [l] \<and> log_action l = action \<and>
        log_actor_user_id l = actor \<and> log_event_metadata l = metadata)"

lemma logs_event [simp]:
  "audit_logs v = audit_logs w \<Longrightarrow>
   logs w ac actor md (log_event X ac actor tt ti og md v)"
  by (simp add: logs_def audit_row_def)

lemma logs_cong: "audit_logs v' = audit_logs v \<Longrightarrow> logs w ac actor md v' = logs w ac actor md v"
  by (simp add: logs_def)

text \<open>A fresh service with one account, for the examples.\<close>

definition sample_user :: user where
  "sample_user = new_user ''a@x.io'' ''correct horse'' 1 2"

definition sample_world :: world where
  "sample_world = empty_world\<lparr>users := [sample_user], draws := 3\<rparr>"

lemma sample_world_ok: "ledger_ok sample_env sample_world" "db_ok sample_env sample_world"
proof -
  have "1 \<in> (word_of_nat :: nat \<Rightarrow> uuid) ` {..<3}" by (rule image_eqI [of _ _ 1]) simp_all
  then show "db_ok sample_env sample_world"
    by (simp add: db_ok_def keys_unique_def refs_ok_def ids_drawn_def world_ids_def sample_world_def
        empty_world_def sample_user_def new_user_def)
  then show "ledger_ok sample_env sample_world"
    by (simp add: ledger_ok_def chains_ok_def single_parent_def sample_world_def empty_world_def)
qed

lemma sample_world_simps [simp]:
  "users sample_world = [sample_user]" "draws sample_world = 3" "refresh_tokens sample_world = []"
  "audit_logs sample_world = []" "usr_email sample_user = ''a@x.io''" "usr_id sample_user = 1"
  "usr_is_active sample_user" "usr_password_hash sample_user = ''correct horse''"
  by (simp_all add: sample_world_def sample_user_def new_user_def empty_world_def)

lemma lower_sample [simp]:
  "py_lower ''a@x.io'' = ''a@x.io''" "py_lower ''A@X.io'' = ''a@x.io''" "py_lower ''b@x.io'' = ''b@x.io''"
  by code_simp+

end
