(* ===== verification/Session_Runs.thy ===== *)
theory Session_Runs
  imports Auth_Runs
begin

text \<open>
  When a presented refresh token is rotated, that every other token is refused with
  the same exception, and the ledger after a rotation.
\<close>

section \<open>When a refresh succeeds\<close>

text \<open>The conditions under which a presented token is rotated.\<close>

definition rotatable :: "env \<Rightarrow> world \<Rightarrow> string \<Rightarrow> refresh_token \<Rightarrow> bool" where
  "rotatable X w p t =
     (presents X w p t \<and> rt_revoked_at t = None \<and> utc_clock X (draws w) < rt_expires_at t \<and>
      (\<exists>u \<in> set (users w). usr_id u = rt_user_id t \<and> usr_is_active u))"

lemma hashes_ok_presents:
  "hashes_ok X w \<Longrightarrow> t \<in> set (refresh_tokens w) \<Longrightarrow> rt_token_hash t = sha256_hexdigest X p \<Longrightarrow>
   presents X w p t"
  by (simp add: presents_def hashes_ok_def)

lemma rotatable_run:
  assumes "ledger_ok X w" and "collision_free X n" and "draws w + 10 \<le> n" and "sha256_ok X"
    and "rotatable X w p t"
  shows "auth_refresh X p w =
    (Inr (token_pair X (issued_access_token X (rt_user_id t) (draws w + 8)) (token_urlsafe X (draws w + 1))),
     (rotated X t w)\<lparr>draws := draws w + 10\<rparr>)"
  using assms(5) refresh_rotates_run [OF assms(1-4)] by (auto simp: rotatable_def)

text \<open>Every other token is refused with the one exception.\<close>

lemma refresh_refused:
  assumes ledger: "ledger_ok X w" and h: "hashes_ok X w" and cf: "collision_free X n"
    and n: "draws w + 10 \<le> n" and no: "\<And>t. \<not> rotatable X w p t"
  shows "fst (auth_refresh X p w) = Inl invalid_refresh_token"
proof -
  have ok: "db_ok X w" using ledger by (simp add: ledger_ok_def)
  show ?thesis
  proof (cases "sha256_hexdigest X p \<in> rt_token_hash ` set (refresh_tokens w)")
    case False
    then show ?thesis using n by (subst refresh_unknown_run [OF ok cf]) simp_all
  next
    case True
    then obtain t where "t \<in> set (refresh_tokens w)" "rt_token_hash t = sha256_hexdigest X p" by auto
    then have t: "presents X w p t" by (rule hashes_ok_presents [OF h])
    show ?thesis
    proof (cases "rt_revoked_at t = None")
      case live: True
      show ?thesis
      proof (cases "utc_clock X (draws w) < rt_expires_at t")
        case False
        then show ?thesis using n live by (subst refresh_expired_run [OF ok cf _ t]) simp_all
      next
        case True
        from presents_owner [OF ok t] obtain u where
          u: "find (\<lambda>u. usr_id u = rt_user_id t) (users w) = Some u" by blast
        from find_key_Some [OF u] have "u \<in> set (users w)" "usr_id u = rt_user_id t" by auto
        moreover from this have "\<not> usr_is_active u"
          using no [of t] t live True by (auto simp: rotatable_def)
        ultimately show ?thesis
          using n by (subst refresh_inactive_run [OF ok cf _ t live True]) simp_all
      qed
    next
      case revoked: False
      show ?thesis
      proof (cases "rt_replaced_by t")
        case None
        then show ?thesis using n by (subst refresh_logged_out_run [OF ok cf _ t revoked]) simp_all
      next
        case (Some j)
        show ?thesis
        proof (cases "family_leaf w t")
          case None
          with n refresh_reuse_none_run [OF ledger cf _ t revoked Some] show ?thesis by auto
        next
          case (Some s)
          with n show ?thesis by (subst refresh_reuse_live_run [OF ledger cf _ t revoked]) simp_all
        qed
      qed
    qed
  qed
qed

lemma refresh_success:
  assumes "ledger_ok X w" and "hashes_ok X w" and "collision_free X n" and "draws w + 10 \<le> n"
    and "auth_refresh X p w = (Inr pair, w')"
  obtains t where "rotatable X w p t"
  using refresh_refused [OF assms(1-4), of p] assms(5) by fastforce

section \<open>The ledger after a rotation\<close>

definition rotation_child :: "env \<Rightarrow> refresh_token \<Rightarrow> world \<Rightarrow> refresh_token" where
  "rotation_child X t w =
     new_refresh_token (rt_user_id t) (sha256_hexdigest X (token_urlsafe X (draws w + 1)))
       (utc_clock X (draws w + 2) + days (refresh_token_ttl_days (config X)))
       (gen_random_uuid X (draws w + 4)) (db_now X (draws w + 5))"

definition rotation_parent :: "env \<Rightarrow> refresh_token \<Rightarrow> world \<Rightarrow> refresh_token" where
  "rotation_parent X t w =
     set_replaced (rt_id (rotation_child X t w)) (set_revoked (utc_clock X (draws w + 3)) t)"

lemma rotation_child_simps [simp]:
  "rt_revoked_at (rotation_child X t w) = None" "rt_replaced_by (rotation_child X t w) = None"
  "rt_user_id (rotation_child X t w) = rt_user_id t"
  "rt_token_hash (rotation_child X t w) = sha256_hexdigest X (token_urlsafe X (draws w + 1))"
  by (simp_all add: rotation_child_def new_refresh_token_def)

lemma rotated_tokens:
  assumes "ledger_ok X w" and t: "t \<in> set (refresh_tokens w)"
  shows "refresh_tokens (rotated X t w) =
      map (\<lambda>r. if r = t then rotation_parent X t w else r) (refresh_tokens w) @ [rotation_child X t w]"
proof -
  have d: "distinct (map rt_id (refresh_tokens w))" using assms(1) by (intro db_ok_token_ids ledger_okD)
  have "(rt_id r = rt_id t) = (r = t)" if "r \<in> set (refresh_tokens w)" for r
    using that t distinct_map_eqD [OF d] by blast
  then show ?thesis
    by (simp add: rotated_def rotate_rows_def update_where_def rotation_parent_def rotation_child_def)
qed

lemma after_rotation:
  assumes ledger: "ledger_ok X w" and hashes: "hashes_ok X w" and cf: "collision_free X n"
    and n: "draws w + 10 \<le> n" and sha: "sha256_ok X" and t: "rotatable X w p t"
  defines "w' \<equiv> (rotated X t w)\<lparr>draws := draws w + 10\<rparr>"
  shows "ledger_ok X w'" and "hashes_ok X w'" and "presents X w' p (rotation_parent X t w)"
    and "presents X w' (token_urlsafe X (draws w + 1)) (rotation_child X t w)"
    and "family_leaf w' (rotation_parent X t w) = Some (rotation_child X t w)"
proof -
  have ts: "t \<in> set (refresh_tokens w)" and th: "rt_token_hash t = sha256_hexdigest X p"
    using t by (simp_all add: rotatable_def presents_def)
  have run: "auth_refresh X p w = (Inr (token_pair X (issued_access_token X (rt_user_id t) (draws w + 8))
      (token_urlsafe X (draws w + 1))), w')"
    unfolding w'_def by (rule rotatable_run [OF ledger cf n sha t])
  show l: "ledger_ok X w'" using obeysD [OF auth_refresh_ledger run] ledger by (simp add: keeps_def)
  have "draws w' \<le> n" using n by (simp add: w'_def)
  then show h: "hashes_ok X w'"
    using obeysD [OF auth_refresh_hashes [OF cf] run] hashes by (simp add: keeps_def hashes_upto_def)
  have in1: "rotation_parent X t w \<in> set (refresh_tokens w')"
    and in2: "rotation_child X t w \<in> set (refresh_tokens w')"
    using ts by (auto simp: w'_def rotated_tokens [OF ledger ts])
  show "presents X w' p (rotation_parent X t w)"
    by (rule hashes_ok_presents [OF h in1]) (simp add: rotation_parent_def th)
  show "presents X w' (token_urlsafe X (draws w + 1)) (rotation_child X t w)"
    by (rule hashes_ok_presents [OF h in2]) simp
  have "distinct (map rt_id (refresh_tokens w'))" using l by (intro db_ok_token_ids ledger_okD)
  from find_key_unique [OF this in2]
  show "family_leaf w' (rotation_parent X t w) = Some (rotation_child X t w)"
    by (simp add: family_leaf_def rotation_parent_def MAX_FAMILY_WALK_STEPS_def numeral_eq_Suc)
qed

lemma leaf_hop:
  "hop ts k i = Some s \<Longrightarrow> rt_replaced_by s = None \<Longrightarrow> leaf_within ts (Suc k) i = Some s"
proof (induction k arbitrary: i)
  case 0
  then show ?case by simp
next
  case (Suc k)
  then obtain t j where t: "find (\<lambda>t. rt_id t = i) ts = Some t" "rt_replaced_by t = Some j"
      "hop ts k j = Some s"
    by (auto split: option.splits)
  from Suc.IH [OF t(3) Suc.prems(2)] t(1,2) show ?case by simp
qed

end
