(* ===== verification/Authorization_Runs.thy ===== *)
theory Authorization_Runs
  imports Authorization_Service
begin

text \<open>
  What the permission check decides, and what each change of the graph does to
  the decisions that follow.
\<close>

lemma authz_action_lengths [simp]:
  "length ROLE_CREATED \<le> 100" "length ROLE_ASSIGNED \<le> 100" "length ROLE_REVOKED \<le> 100"
  "length PERMISSION_ASSIGNED_TO_ROLE \<le> 100" "length PERMISSION_REMOVED_FROM_ROLE \<le> 100"
  by (simp_all add: audit_action_defs)

section \<open>The decision\<close>

text \<open>
  The specification: an active user some of whose assignments in force in the scope
  carries a permission with the resource and action.
\<close>

definition may :: "world \<Rightarrow> uuid \<Rightarrow> string \<Rightarrow> string \<Rightarrow> uuid option \<Rightarrow> bool" where
  "may w user_id resource action organization_id =
     ((\<exists>u \<in> set (users w). usr_id u = user_id \<and> usr_is_active u) \<and>
      (\<exists>p \<in> set (permissions w). perm_resource p = resource \<and> perm_action p = action \<and>
         grants w user_id organization_id p))"

lemma authorize_run [op_run]:
  assumes ok: "db_ok X w"
  shows "authorize X u r a g w = (Inr (decision (may w u r a g) r a g), w)"
proof (cases "find (\<lambda>v. usr_id v = u) (users w)")
  case None
  then have "u \<notin> usr_id ` set (users w)" by (simp only: find_key_None not_False_eq_True)
  then have "\<not> may w u r a g" by (auto simp: may_def)
  with None show ?thesis
    by (simp add: authorize_def run_simps user_get_by_id_run [OF ok])
next
  case (Some v)
  have v: "v \<in> set (users w)" "usr_id v = u" using find_key_Some [OF Some] by auto
  have d: "distinct (map usr_id (users w))" using ok by (simp add: db_ok_def keys_unique_def)
  have active: "(\<exists>x \<in> set (users w). usr_id x = u \<and> usr_is_active x) \<longleftrightarrow> usr_is_active v"
    using v distinct_map_eqD [OF d, of _ v] by metis
  have held: "(\<exists>p \<in> set (order_by (by_resource_action X) (remdups (permissions_of w u g))).
      perm_resource p = r \<and> perm_action p = a) \<longleftrightarrow>
      (\<exists>p \<in> set (permissions w). perm_resource p = r \<and> perm_action p = a \<and> grants w u g p)"
    unfolding set_order_by set_remdups set_permissions_of by blast
  show ?thesis
    unfolding may_def active held [symmetric]
    using Some by (simp add: authorize_def run_simps user_get_by_id_run [OF ok]
        get_permissions_for_user_run Let_def del: set_order_by set_remdups)
qed

text \<open>\<open>may\<close> reads four tables only.\<close>

lemma may_cong:
  assumes "users w' = users w" "permissions w' = permissions w"
    "role_permissions w' = role_permissions w" "user_roles w' = user_roles w"
  shows "may w' u r a g = may w u r a g"
  using assms by (simp add: may_def grants_def)

section \<open>Assigning and revoking roles\<close>

text \<open>\<open>may\<close> with the joins written out.\<close>

lemma scope_filter_iff:
  "organization_scope_filter g s \<longleftrightarrow>
     ur_organization_id s = None \<or> g \<noteq> None \<and> ur_organization_id s = g"
  by (cases g) auto

lemma may_iff:
  "may w u r a g \<longleftrightarrow>
     (\<exists>v \<in> set (users w). usr_id v = u \<and> usr_is_active v) \<and>
     (\<exists>s \<in> set (user_roles w). ur_user_id s = u \<and>
        (ur_organization_id s = None \<or> g \<noteq> None \<and> ur_organization_id s = g) \<and>
        (\<exists>m \<in> set (role_permissions w). rp_role_id m = ur_role_id s \<and>
           (\<exists>p \<in> set (permissions w). perm_id p = rp_permission_id m \<and>
              perm_resource p = r \<and> perm_action p = a)))"
proof -
  have "(\<exists>p \<in> set (permissions w). perm_resource p = r \<and> perm_action p = a \<and> grants w u g p) \<longleftrightarrow>
      (\<exists>s \<in> set (user_roles w). ur_user_id s = u \<and> organization_scope_filter g s \<and>
        (\<exists>m \<in> set (role_permissions w). rp_role_id m = ur_role_id s \<and>
          (\<exists>p \<in> set (permissions w). perm_id p = rp_permission_id m \<and>
             perm_resource p = r \<and> perm_action p = a)))"
    unfolding grants_def by (rule iffI; elim bexE conjE; intro bexI conjI; simp)
  then show ?thesis unfolding may_def scope_filter_iff by (simp only: )
qed

text \<open>The reason an organization-scoped assignment is refused, if there is one.\<close>

definition membership_refusal :: "world \<Rightarrow> uuid \<Rightarrow> uuid option \<Rightarrow> domain_error option" where
  "membership_refusal w u g = (case g of None \<Rightarrow> None
     | Some i \<Rightarrow>
         if i \<notin> ids org_id (organizations w)
         then Some (OrganizationNotFoundError (''Organization not found: '' @ uuid_str i))
         else if (u, i) \<notin> membership_key ` set (organization_memberships w)
         then Some (UserNotOrganizationMemberError
                (''User '' @ uuid_str u @ '' is not a member of organization '' @ uuid_str i))
         else None)"

lemma find_id_None: "find (\<lambda>x. k x = i) xs = None \<longleftrightarrow> i \<notin> ids k xs"
  by (simp add: ids_def find_key_None)

lemma check_membership_run [op_run]:
  assumes ok: "db_ok X w"
  shows "check_membership u g w =
    (case membership_refusal w u g of None \<Rightarrow> Inr () | Some e \<Rightarrow> Inl (Domain e), w)"
proof (cases g)
  case None
  then show ?thesis by (simp add: check_membership_def membership_refusal_def run_simps)
next
  case (Some i)
  show ?thesis
  proof (cases "find (\<lambda>x. org_id x = i) (organizations w)")
    case None
    with Some show ?thesis
      using find_id_None [of org_id i "organizations w"]
      by (simp add: check_membership_def membership_refusal_def run_simps require_organization_def
          organization_get_by_id_run [OF ok])
  next
    case (Some x)
    then have "i \<in> ids org_id (organizations w)"
      using find_id_None [of org_id i "organizations w"] by simp
    with Some \<open>g = Some i\<close> show ?thesis
      by (simp add: check_membership_def membership_refusal_def run_simps require_organization_def
          organization_get_by_id_run [OF ok] is_member_run [OF db_ok_memberships(1) [OF ok]])
  qed
qed

lemma membership_refusal_refers:
  "membership_refusal w u g = None \<Longrightarrow> refers g (ids org_id (organizations w))"
  by (cases g) (auto simp: membership_refusal_def split: if_splits)

lemma assign_role_run [op_run]:
  assumes ok: "db_ok X w" and cf: "collision_free X n" and n: "draws w + 4 \<le> n"
    and actor: "actor \<in> ids usr_id (users w)"
  shows "assign_role X u i g actor w =
    (case find (\<lambda>r. role_id r = i) (roles w) of
       None \<Rightarrow> (Inl (Domain (RoleNotFoundError (''Role not found: '' @ uuid_str i))), w)
     | Some r \<Rightarrow>
         if role_organization_id r \<noteq> None \<and> role_organization_id r \<noteq> g
         then (Inl (Domain (RoleOrganizationMismatchError (mismatch_message i r g))), w)
         else case membership_refusal w u g of
           Some e \<Rightarrow> (Inl (Domain e), w)
         | None \<Rightarrow>
             if (u, i, g) \<in> assignment_key ` set (user_roles w) \<or> u \<notin> ids usr_id (users w)
             then (Inl (Domain (RoleAlreadyAssignedError (assignment_message u i g))),
                   w\<lparr>draws := draws w + 2\<rparr>)
             else (Inr (), log_event X ROLE_ASSIGNED (Some actor) (Some ''user'') (Some u) g
                    (Some [(''role_id'', JStr (uuid_str i))])
                    (w\<lparr>user_roles := user_roles w @
                         [new_user_role u i g (gen_random_uuid X (draws w)) (db_now X (draws w + 1))],
                       draws := draws w + 2\<rparr>)))"
proof (cases "find (\<lambda>r. role_id r = i) (roles w)")
  case None
  then show ?thesis
    by (simp add: assign_role_def run_simps require_role_def role_get_by_id_run [OF ok])
next
  case (Some r)
  have i: "i \<in> ids role_id (roles w)" using find_id_None [of role_id i "roles w"] Some by simp
  have req: "require_role i w = (Inr r, w)"
    using Some by (simp add: require_role_def run_simps role_get_by_id_run [OF ok])
  note assign = user_role_assign_run [OF ok cf, of u i g]
  show ?thesis
  proof (cases "role_organization_id r \<noteq> None \<and> role_organization_id r \<noteq> g")
    case True
    with Some show ?thesis by (simp add: assign_role_def run_simps req)
  next
    case fit: False
    show ?thesis
    proof (cases "membership_refusal w u g")
      case (Some e)
      with \<open>find _ _ = Some r\<close> fit show ?thesis
        by (auto simp: assign_role_def run_simps req check_membership_run [OF ok])
    next
      case None
      have g: "refers g (ids org_id (organizations w))" by (rule membership_refusal_refers [OF None])
      show ?thesis
      proof (cases "(u, i, g) \<in> assignment_key ` set (user_roles w) \<or> u \<notin> ids usr_id (users w)")
        case True
        with Some None fit n i show ?thesis
          by (auto simp: assign_role_def run_simps req check_membership_run [OF ok] assign Let_def)
      next
        case False
        let ?a = "new_user_role u i g (gen_random_uuid X (draws w)) (db_now X (Suc (draws w)))"
        let ?w1 = "w\<lparr>user_roles := user_roles w @ [?a], draws := Suc (Suc (draws w))\<rparr>"
        have a: "user_role_assign X u i g w = (Inr ?a, ?w1)"
          using False i g n by (simp add: assign Let_def)
        then have ok1: "db_ok X ?w1"
          using obeysD [OF user_role_assign_keeps a] ok by (simp add: keeps_def)
        from False Some None fit n actor g show ?thesis
          by (auto simp: assign_role_def run_simps req check_membership_run [OF ok] a
              audit_record_run [OF ok1 cf])
      qed
    qed
  qed
qed

lemma revoke_role_run [op_run]:
  assumes ok: "db_ok X w" and cf: "collision_free X n" and n: "draws w + 2 \<le> n"
    and actor: "actor \<in> ids usr_id (users w)"
  shows "revoke_role X u i g actor w =
    (if (u, i, g) \<in> assignment_key ` set (user_roles w)
     then (Inr True, log_event X ROLE_REVOKED (Some actor) (Some ''user'') (Some u) g
             (Some [(''role_id'', JStr (uuid_str i))])
             (w\<lparr>user_roles := filter (\<lambda>a. assignment_key a \<noteq> (u, i, g)) (user_roles w)\<rparr>))
     else (Inr False, w))"
proof (cases "(u, i, g) \<in> assignment_key ` set (user_roles w)")
  case True
  let ?w1 = "w\<lparr>user_roles := filter (\<lambda>a. assignment_key a \<noteq> (u, i, g)) (user_roles w)\<rparr>"
  have rv: "user_role_revoke u i g w = (Inr True, ?w1)"
    using True by (simp add: user_role_revoke_run [OF ok])
  then have ok1: "db_ok X ?w1"
    using obeysD [OF user_role_revoke_keeps rv] ok by (simp add: keeps_def)
  from True obtain a where "a \<in> set (user_roles w)" "assignment_key a = (u, i, g)" by auto
  then have "refers g (ids org_id (organizations w))"
    using ok by (auto simp: db_ok_def refs_ok_def assignment_key_def)
  with True n actor show ?thesis
    by (simp add: revoke_role_def run_simps rv audit_record_run [OF ok1 cf])
next
  case False
  have "user_role_revoke u i g w = (Inr False, w)"
    using False filter_no_key [OF False] by (simp add: user_role_revoke_run [OF ok])
  with False show ?thesis by (simp add: revoke_role_def run_simps)
qed

text \<open>
  Tenant isolation: changing the assignments of one organization changes no decision
  outside it.
\<close>

lemma grants_other_scope:
  assumes "\<And>a. organization_scope_filter g' a \<Longrightarrow>
      a \<in> set (user_roles w') \<longleftrightarrow> a \<in> set (user_roles w)"
    and "role_permissions w' = role_permissions w"
  shows "grants w' v g' p = grants w v g' p"
  unfolding grants_def using assms by auto

lemma other_scope:
  "ur_organization_id a = Some g \<Longrightarrow> g' \<noteq> Some g \<Longrightarrow> \<not> organization_scope_filter g' a"
  by (cases g') auto

text \<open>A successful assignment: its row, and the conditions it has passed.\<close>

lemma assign_role_success:
  assumes ok: "db_ok X w" and cf: "collision_free X n" and n: "draws w + 4 \<le> n"
    and actor: "actor \<in> ids usr_id (users w)"
    and run: "assign_role X u i g actor w = (Inr (), w')"
  defines "a \<equiv> new_user_role u i g (gen_random_uuid X (draws w)) (db_now X (draws w + 1))"
  shows "w' = log_event X ROLE_ASSIGNED (Some actor) (Some ''user'') (Some u) g
      (Some [(''role_id'', JStr (uuid_str i))])
      (w\<lparr>user_roles := user_roles w @ [a], draws := draws w + 2\<rparr>)"
    and "(u, i, g) \<notin> assignment_key ` set (user_roles w)" and "membership_refusal w u g = None"
    and "\<exists>r \<in> set (roles w). role_id r = i \<and> (role_organization_id r = None \<or> role_organization_id r = g)"
    and "u \<in> ids usr_id (users w)"
  using run unfolding assign_role_run [OF ok cf n actor] a_def
  by (auto split: option.splits if_splits dest!: find_key_Some)

lemma revoke_role_result:
  assumes ok: "db_ok X w" and cf: "collision_free X n" and n: "draws w + 2 \<le> n"
    and actor: "actor \<in> ids usr_id (users w)"
    and run: "revoke_role X u i g actor w = (res, w')"
  shows "res = Inr ((u, i, g) \<in> assignment_key ` set (user_roles w))"
    and "user_roles w' = filter (\<lambda>a. assignment_key a \<noteq> (u, i, g)) (user_roles w)"
    and "users w' = users w" and "permissions w' = permissions w"
    and "role_permissions w' = role_permissions w"
  using run filter_no_key [of "(u, i, g)" assignment_key "user_roles w"]
  unfolding revoke_role_run [OF ok cf n actor]
  by (auto split: if_splits)

section \<open>New roles and the permission listing\<close>

lemma create_role_run [op_run]:
  assumes ok: "db_ok X w" and cf: "collision_free X n" and n: "draws w + 4 \<le> n"
    and actor: "actor \<in> ids usr_id (users w)" and len: "length name \<le> 100"
  shows "create_role X name d g actor w =
    (let r = new_role name d g (gen_random_uuid X (draws w)) (db_now X (draws w + 1)) in
     if \<not> refers g (ids org_id (organizations w))
     then (Inl (Domain (OrganizationNotFoundError (''Organization not found: '' @ opt_uuid_str g))), w)
     else if name \<in> role_name ` set (roles w)
     then (Inl (Domain (RoleNameAlreadyExistsError (''Role name already exists: '' @ name))),
           w\<lparr>draws := draws w + 2\<rparr>)
     else (Inr (role_response r),
           log_event X ROLE_CREATED (Some actor) (Some ''role'') (Some (role_id r)) g
             (Some [(''name'', JStr name)])
             (w\<lparr>roles := roles w @ [r], draws := draws w + 2\<rparr>)))"
proof (cases "refers g (ids org_id (organizations w))")
  case False
  then obtain o1 where g: "g = Some o1" "o1 \<notin> ids org_id (organizations w)" by (cases g) auto
  then have "find (\<lambda>x. org_id x = o1) (organizations w) = None" by (simp only: find_id_None not_False_eq_True)
  with g show ?thesis
    by (simp add: create_role_def run_simps require_organization_def organization_get_by_id_run [OF ok])
next
  case True
  have exists: "(case g of None \<Rightarrow> pure () | Some i \<Rightarrow> and_then (require_organization i) (\<lambda>_. pure ())) w =
      (Inr (), w)"
  proof (cases g)
    case (Some o1)
    with True obtain x where "find (\<lambda>x. org_id x = o1) (organizations w) = Some x"
      using find_id_None [of org_id o1 "organizations w"] by auto
    with Some show ?thesis
      by (simp add: run_simps require_organization_def organization_get_by_id_run [OF ok])
  qed (simp add: run_simps)
  let ?r = "new_role name d g (gen_random_uuid X (draws w)) (db_now X (Suc (draws w)))"
  let ?w1 = "w\<lparr>roles := roles w @ [?r], draws := Suc (Suc (draws w))\<rparr>"
  note create = role_create_run [OF ok cf _ len True]
  have r: "role_organization_id ?r = g" "role_name ?r = name" by (simp_all add: new_role_def)
  show ?thesis
  proof (cases "name \<in> role_name ` set (roles w)")
    case dup: True
    with True n show ?thesis by (simp add: create_role_def run_simps exists create Let_def)
  next
    case False
    with n have c: "role_create X name d g w = (Inr ?r, ?w1)" by (simp add: create Let_def)
    then have ok1: "db_ok X ?w1" using obeysD [OF role_create_keeps c] ok by (simp add: keeps_def)
    from False True n actor show ?thesis
      by (simp add: create_role_def run_simps exists c audit_record_run [OF ok1 cf] r Let_def)
  qed
qed

lemma get_user_permissions_run [op_run]:
  "get_user_permissions X u g w =
    (Inr (map permission_response (order_by (by_resource_action X) (remdups (permissions_of w u g)))), w)"
  by (simp add: get_user_permissions_def run_simps get_permissions_for_user_run)

section \<open>Attaching and detaching permissions\<close>

lemma require_role_run [op_run]:
  assumes "db_ok X w"
  shows "require_role i w = (case find (\<lambda>r. role_id r = i) (roles w) of
      None \<Rightarrow> Inl (Domain (RoleNotFoundError (''Role not found: '' @ uuid_str i))) | Some r \<Rightarrow> Inr r, w)"
  by (simp add: require_role_def run_simps role_get_by_id_run [OF assms] split: option.splits)

lemma role_organization_refers:
  "db_ok X w \<Longrightarrow> r \<in> set (roles w) \<Longrightarrow> refers (role_organization_id r) (ids org_id (organizations w))"
  by (simp add: db_ok_def refs_ok_def)

lemma assign_permission_run [op_run]:
  assumes ok: "db_ok X w" and cf: "collision_free X n" and n: "draws w + 2 \<le> n"
    and actor: "actor \<in> ids usr_id (users w)"
  shows "assign_permission_to_role X i p actor w =
    (case find (\<lambda>r. role_id r = i) (roles w) of
       None \<Rightarrow> (Inl (Domain (RoleNotFoundError (''Role not found: '' @ uuid_str i))), w)
     | Some r \<Rightarrow>
         if p \<notin> ids perm_id (permissions w)
         then (Inl (Domain (PermissionNotFoundError (''Permission not found: '' @ uuid_str p))), w)
         else if (i, p) \<in> grant_key ` set (role_permissions w)
         then (Inl (Domain (PermissionAlreadyAssignedError
                 (''Role '' @ uuid_str i @ '' already has permission '' @ uuid_str p))), w)
         else (Inr (), log_event X PERMISSION_ASSIGNED_TO_ROLE (Some actor) (Some ''role'') (Some i)
                (role_organization_id r) (Some [(''permission_id'', JStr (uuid_str p))])
                (w\<lparr>role_permissions := role_permissions w @ [\<lparr>rp_role_id = i, rp_permission_id = p\<rparr>]\<rparr>)))"
proof (cases "find (\<lambda>r. role_id r = i) (roles w)")
  case None
  then show ?thesis by (simp add: assign_permission_to_role_def run_simps require_role_run [OF ok])
next
  case (Some r)
  have r: "r \<in> set (roles w)" "i \<in> ids role_id (roles w)"
    using find_key_Some [OF Some] by (auto simp: ids_def)
  show ?thesis
  proof (cases "p \<in> ids perm_id (permissions w)")
    case False
    then have "find (\<lambda>q. perm_id q = p) (permissions w) = None" by (simp only: find_id_None not_False_eq_True)
    with Some False show ?thesis
      by (simp add: assign_permission_to_role_def run_simps require_role_run [OF ok]
          permission_get_by_id_run [OF ok])
  next
    case True
    then obtain q where q: "find (\<lambda>q. perm_id q = p) (permissions w) = Some q"
      using find_id_None [of perm_id p "permissions w"] by auto
    show ?thesis
    proof (cases "(i, p) \<in> grant_key ` set (role_permissions w)")
      case dup: True
      with Some q True show ?thesis
        by (simp add: assign_permission_to_role_def run_simps require_role_run [OF ok]
            permission_get_by_id_run [OF ok] add_permission_run)
    next
      case False
      let ?w1 = "w\<lparr>role_permissions := role_permissions w @ [\<lparr>rp_role_id = i, rp_permission_id = p\<rparr>]\<rparr>"
      have a: "add_permission i p w = (Inr (), ?w1)" using False True r(2) by (simp add: add_permission_run)
      then have ok1: "db_ok X ?w1" using obeysD [OF add_permission_keeps a] ok by (simp add: keeps_def)
      from False Some q True n actor role_organization_refers [OF ok r(1)] show ?thesis
        by (simp add: assign_permission_to_role_def run_simps require_role_run [OF ok]
            permission_get_by_id_run [OF ok] a audit_record_run [OF ok1 cf])
    qed
  qed
qed

lemma remove_permission_role_run [op_run]:
  assumes ok: "db_ok X w" and cf: "collision_free X n" and n: "draws w + 2 \<le> n"
    and actor: "actor \<in> ids usr_id (users w)"
  shows "remove_permission_from_role X i p actor w =
    (case find (\<lambda>r. role_id r = i) (roles w) of
       None \<Rightarrow> (Inl (Domain (RoleNotFoundError (''Role not found: '' @ uuid_str i))), w)
     | Some r \<Rightarrow>
         if (i, p) \<in> grant_key ` set (role_permissions w)
         then (Inr True, log_event X PERMISSION_REMOVED_FROM_ROLE (Some actor) (Some ''role'') (Some i)
                (role_organization_id r) (Some [(''permission_id'', JStr (uuid_str p))])
                (w\<lparr>role_permissions := filter (\<lambda>m. grant_key m \<noteq> (i, p)) (role_permissions w)\<rparr>))
         else (Inr False, w))"
proof (cases "find (\<lambda>r. role_id r = i) (roles w)")
  case None
  then show ?thesis by (simp add: remove_permission_from_role_def run_simps require_role_run [OF ok])
next
  case (Some r)
  have r: "r \<in> set (roles w)" using find_key_Some [OF Some] by auto
  show ?thesis
  proof (cases "(i, p) \<in> grant_key ` set (role_permissions w)")
    case True
    let ?w1 = "w\<lparr>role_permissions := filter (\<lambda>m. grant_key m \<noteq> (i, p)) (role_permissions w)\<rparr>"
    have a: "remove_permission i p w = (Inr True, ?w1)" using True by (simp add: remove_permission_run)
    then have ok1: "db_ok X ?w1" using obeysD [OF remove_permission_keeps a] ok by (simp add: keeps_def)
    from True Some n actor role_organization_refers [OF ok r] show ?thesis
      by (simp add: remove_permission_from_role_def run_simps require_role_run [OF ok] a
          audit_record_run [OF ok1 cf])
  next
    case False
    with Some show ?thesis
      by (simp add: remove_permission_from_role_def run_simps require_role_run [OF ok]
          remove_permission_run filter_no_key)
  qed
qed

section \<open>An example\<close>

text \<open>
  Two accounts, one organization with one member, a global role with a permission, a
  role of the organization, and one global assignment.
\<close>

definition sample_account :: "uuid \<Rightarrow> string \<Rightarrow> user" where
  "sample_account i email = new_user email ''secret'' i 0"

definition sample_graph :: world where
  "sample_graph = empty_world\<lparr>
     users := [sample_account 1 ''root@x.io'', sample_account 2 ''ann@x.io''],
     organizations := [\<lparr>org_id = 3, org_name = ''Acme'', org_created_at = 0\<rparr>],
     roles := [\<lparr>role_id = 4, role_name = ''Editor'', role_description = None,
                role_is_system_role = False, role_organization_id = None, role_created_at = 0\<rparr>,
               \<lparr>role_id = 5, role_name = ''Acme staff'', role_description = None,
                role_is_system_role = False, role_organization_id = Some 3, role_created_at = 0\<rparr>],
     permissions := [\<lparr>perm_id = 6, perm_resource = ''document'', perm_action = ''edit'', perm_description = None\<rparr>],
     role_permissions := [\<lparr>rp_role_id = 4, rp_permission_id = 6\<rparr>],
     user_roles := [\<lparr>ur_id = 7, ur_user_id = 1, ur_role_id = 4, ur_organization_id = None, ur_assigned_at = 0\<rparr>],
     organization_memberships := [\<lparr>mem_id = 8, mem_user_id = 2, mem_organization_id = 3, mem_joined_at = 0\<rparr>],
     draws := 9\<rparr>"

lemma sample_graph_simps [simp]:
  "users sample_graph = [sample_account 1 ''root@x.io'', sample_account 2 ''ann@x.io'']"
  "organizations sample_graph = [\<lparr>org_id = 3, org_name = ''Acme'', org_created_at = 0\<rparr>]"
  "roles sample_graph = [\<lparr>role_id = 4, role_name = ''Editor'', role_description = None,
      role_is_system_role = False, role_organization_id = None, role_created_at = 0\<rparr>,
     \<lparr>role_id = 5, role_name = ''Acme staff'', role_description = None,
      role_is_system_role = False, role_organization_id = Some 3, role_created_at = 0\<rparr>]"
  "permissions sample_graph =
     [\<lparr>perm_id = 6, perm_resource = ''document'', perm_action = ''edit'', perm_description = None\<rparr>]"
  "role_permissions sample_graph = [\<lparr>rp_role_id = 4, rp_permission_id = 6\<rparr>]"
  "user_roles sample_graph =
     [\<lparr>ur_id = 7, ur_user_id = 1, ur_role_id = 4, ur_organization_id = None, ur_assigned_at = 0\<rparr>]"
  "organization_memberships sample_graph =
     [\<lparr>mem_id = 8, mem_user_id = 2, mem_organization_id = 3, mem_joined_at = 0\<rparr>]"
  "draws sample_graph = 9" "audit_logs sample_graph = []" "refresh_tokens sample_graph = []"
  by (simp_all add: sample_graph_def empty_world_def)

lemma sample_account_simps [simp]:
  "usr_id (sample_account i e) = i" "usr_email (sample_account i e) = e" "usr_is_active (sample_account i e)"
  by (simp_all add: sample_account_def new_user_def)

lemma sample_graph_ok: "db_ok sample_env sample_graph"
proof -
  have "word_of_nat k \<in> (word_of_nat :: nat \<Rightarrow> uuid) ` {..<9}" if "k < 9" for k using that by simp
  from this [of 1] this [of 2] this [of 3] this [of 4] this [of 5] this [of 6] this [of 7] this [of 8]
  have "{1, 2, 3, 4, 5, 6, 7, 8} \<subseteq> (word_of_nat :: nat \<Rightarrow> uuid) ` {..<9}" by simp
  then have "ids_drawn sample_env sample_graph"
    by (simp add: ids_drawn_def world_ids_def)
  moreover have "keys_unique sample_graph"
    by (simp add: keys_unique_def permission_key_def grant_key_def assignment_key_def membership_key_def)
  moreover have "refs_ok sample_graph"
    by (simp add: refs_ok_def)
  ultimately show ?thesis by (simp add: db_ok_def)
qed

lemma sample_graph_scopes: "scopes_ok sample_graph"
  by (simp add: scopes_ok_def)

text \<open>The member of the example holding the organization's own role.\<close>

definition sample_staff :: world where
  "sample_staff = snd (assign_role sample_env 2 5 (Some 3) 1 sample_graph)"

lemma sample_staff_run:
  "sample_staff = log_event sample_env ROLE_ASSIGNED (Some 1) (Some ''user'') (Some 2) (Some 3)
     (Some [(''role_id'', JStr (uuid_str 5))])
     (sample_graph\<lparr>user_roles := user_roles sample_graph @
        [new_user_role 2 5 (Some 3) (gen_random_uuid sample_env 9) (db_now sample_env 10)], draws := 11\<rparr>)"
  by (simp add: sample_staff_def assign_role_run [OF sample_graph_ok sample_collision_free]
      membership_refusal_def assignment_key_def membership_key_def)

lemma sample_staff_ok: "db_ok sample_env sample_staff"
  unfolding sample_staff_def by (rule obeys_keepsD [OF authz_db_ok(2) sample_graph_ok])

lemma sample_staff_simps [simp]:
  "users sample_staff = users sample_graph" "roles sample_staff = roles sample_graph"
  "permissions sample_staff = permissions sample_graph"
  "role_permissions sample_staff = role_permissions sample_graph"
  "user_roles sample_staff = user_roles sample_graph @ [new_user_role 2 5 (Some 3) 9 10]"
  "draws sample_staff = 13"
  by (simp_all add: sample_staff_run)

end
