(* ===== verification/Requests.thy ===== *)
theory Requests
  imports System Auth_Runs Session_Runs Authorization_Runs
begin

text \<open>
  What a request does before its handler: who the caller is, and whether the
  permission a route demands is there. Every protected route starts with one of the two
  dependencies, so these facts hold for all of them.
\<close>

section \<open>The caller\<close>

text \<open>
  The assumptions on PyJWT: a payload it returns has a string subject (the claim is
  required, and other types are rejected), and an encoded token is not empty and has no
  surrounding white space.
\<close>

definition subjects_are_strings :: "env \<Rightarrow> bool" where
  "subjects_are_strings X = (\<forall>token key algs iss now payload.
     jwt_decode X token key algs iss required_claims now = Some payload \<longrightarrow>
     (\<exists>s. map_of payload ''sub'' = Some (JStr s)))"

definition tokens_are_compact :: "env \<Rightarrow> bool" where
  "tokens_are_compact X = (\<forall>i now jti.
     let token = jwt_encode X (access_token_payload X (uuid_str i) now jti)
           (jwt_secret_key (config X)) (jwt_algorithm (config X))
     in token \<noteq> '''' \<and> py_strip token = token)"

text \<open>The bearer token of a header, the subject it names, and the account of that subject.\<close>

definition bearer :: "string option \<Rightarrow> string option" where
  "bearer auth = (case auth of
     Some h \<Rightarrow> if py_startswith h ''Bearer '' \<and> py_strip (py_removeprefix h ''Bearer '') \<noteq> ''''
              then Some (py_strip (py_removeprefix h ''Bearer '')) else None
   | None \<Rightarrow> None)"

definition subject :: "env \<Rightarrow> string \<Rightarrow> datetime \<Rightarrow> uuid option" where
  "subject X token now =
     (case jwt_decode X token (jwt_secret_key (config X)) [jwt_algorithm (config X)]
             (jwt_issuer (config X)) required_claims now of
        None \<Rightarrow> None
      | Some payload \<Rightarrow>
          (case map_of payload ''sub'' of Some (JStr s) \<Rightarrow> uuid_of_string s | _ \<Rightarrow> None))"

definition caller :: "env \<Rightarrow> string option \<Rightarrow> world \<Rightarrow> user option" where
  "caller X auth w = (case bearer auth of
     None \<Rightarrow> None
   | Some token \<Rightarrow>
       (case subject X token (utc_clock X (draws w)) of
          None \<Rightarrow> None
        | Some i \<Rightarrow> find (\<lambda>u. usr_id u = i) (users w)))"

lemma bearer_header:
  assumes "token \<noteq> ''''" and "py_strip token = token"
  shows "bearer (Some (''Bearer '' @ token)) = Some token"
  unfolding bearer_def option.case py_startswith_append py_removeprefix_append assms(2)
  using assms(1) by (simp only: simp_thms py_startswith_append if_True)

lemma caller_stored: "caller X auth w = Some u \<Longrightarrow> u \<in> set (users w)"
  by (auto simp: caller_def dest: find_key_Some split: option.splits)

text \<open>The state after the header has been read: at most one clock reading.\<close>

definition read_header :: "string option \<Rightarrow> world \<Rightarrow> world" where
  "read_header auth w = (if bearer auth = None then w else w\<lparr>draws := Suc (draws w)\<rparr>)"

lemma read_header_simps [simp]:
  "tables (read_header auth w) = tables w" "draws w \<le> draws (read_header auth w)"
  "draws (read_header auth w) \<le> Suc (draws w)" "users (read_header auth w) = users w"
  "permissions (read_header auth w) = permissions w" "user_roles (read_header auth w) = user_roles w"
  "role_permissions (read_header auth w) = role_permissions w" "audit_logs (read_header auth w) = audit_logs w"
  "roles (read_header auth w) = roles w" "organizations (read_header auth w) = organizations w"
  by (simp_all add: read_header_def tables_def)

lemma read_header_ok: "db_ok X w \<Longrightarrow> db_ok X (read_header auth w)"
  by (simp add: read_header_def db_ok_draws)

lemma get_current_user_run [op_run]:
  assumes ok: "db_ok X w" and sub: "subjects_are_strings X"
  shows "get_current_user X auth w =
    (case caller X auth w of None \<Rightarrow> Inl unauthorized | Some u \<Rightarrow> Inr u, read_header auth w)"
proof (cases "bearer auth")
  case None
  then show ?thesis
    by (auto simp: get_current_user_def bearer_def caller_def read_header_def run_simps Let_def
        split: option.splits if_splits)
next
  case (Some token)
  then obtain h where h: "auth = Some h" "py_startswith h ''Bearer ''" "token \<noteq> ''''"
      "py_strip (py_removeprefix h ''Bearer '') = token"
    by (auto simp: bearer_def split: option.splits if_splits)
  have ok1: "db_ok X (w\<lparr>draws := Suc (draws w)\<rparr>)" using ok by (simp add: db_ok_draws)
  show ?thesis
  proof (cases "jwt_decode X token (jwt_secret_key (config X)) [jwt_algorithm (config X)]
      (jwt_issuer (config X)) required_claims (utc_clock X (draws w))")
    case None
    with Some h show ?thesis
      by (simp add: get_current_user_def decode_access_token_def utc_now_def run_simps Let_def
          caller_def subject_def read_header_def)
  next
    case dec: (Some payload)
    with sub have "\<exists>s. map_of payload ''sub'' = Some (JStr s)" unfolding subjects_are_strings_def by blast
    then obtain s where s: "map_of payload ''sub'' = Some (JStr s)" ..
    from Some h dec s show ?thesis
      by (cases "uuid_of_string s")
        (simp_all add: get_current_user_def decode_access_token_def utc_now_def run_simps Let_def
          caller_def subject_def read_header_def subject_id_def user_get_by_id_run [OF ok1]
          split: option.split)
  qed
qed

lemma require_permission_run [op_run]:
  assumes ok: "db_ok X w" and sub: "subjects_are_strings X"
  shows "require_permission X r a auth w =
    (case caller X auth w of
       None \<Rightarrow> Inl unauthorized
     | Some u \<Rightarrow> if may w (usr_id u) r a None then Inr u
                else Inl (HTTPException 403 PERMISSION_DENIED_DETAIL), read_header auth w)"
proof -
  have "may (read_header auth w) u r a None = may w u r a None" for u by (rule may_cong) simp_all
  then show ?thesis
    by (simp add: require_permission_def run_simps get_current_user_run [OF ok sub]
        authorize_run [OF read_header_ok [OF ok]] decision_def split: option.split)
qed

section \<open>The routes\<close>

text \<open>The permission a route demands, and the routes that demand a caller at all.\<close>

fun demands :: "request \<Rightarrow> (string \<times> string) option" where
  "demands (CreateRole _ _ _) = Some (''role'', ''manage'')"
| "demands (AssignPermission _ _) = Some (''role'', ''manage'')"
| "demands (RemovePermission _ _) = Some (''role'', ''manage'')"
| "demands (AssignRole _ _ _) = Some (''user'', ''manage'')"
| "demands (RevokeRole _ _ _) = Some (''user'', ''manage'')"
| "demands (UserPermissions _ _) = Some (''user'', ''manage'')"
| "demands (CreateOrganization _) = Some (''organization'', ''manage'')"
| "demands (AddMember _ _) = Some (''organization'', ''manage'')"
| "demands (RemoveMember _ _) = Some (''organization'', ''manage'')"
| "demands (ListMembers _) = Some (''organization'', ''manage'')"
| "demands (ListAuditLogs _ _ _ _ _) = Some (''audit'', ''view'')"
| "demands _ = None"

fun personal :: "request \<Rightarrow> bool" where
  "personal (Authorize _ _ _) = True"
| "personal (MyPermissions _) = True"
| "personal MyOrganizations = True"
| "personal _ = False"

lemma demands_guard:
  assumes "demands req = Some (r, a)"
  obtains f where "dispatch X auth req = and_then (require_permission X r a auth) f"
proof -
  have "\<exists>f. dispatch X auth req = and_then (require_permission X r a auth) f"
    using assms by (cases req; simp only: dispatch.simps route_defs demands.simps option.inject
        prod.inject option.distinct; blast)
  with that show ?thesis by blast
qed

lemma personal_guard:
  assumes "personal req"
  obtains f where "dispatch X auth req = and_then (get_current_user X auth) f"
proof -
  have "\<exists>f. dispatch X auth req = and_then (get_current_user X auth) f"
    using assms by (cases req; simp only: dispatch.simps route_defs personal.simps; blast)
  with that show ?thesis by blast
qed

end
