(* ===== verification/Answers.thy ===== *)
theory Answers
  imports Requests Organization_Service
begin

text \<open>
  What every request is answered with: the status codes each route documents, and which
  handler runs once the caller has been let in.
\<close>

text \<open>The statuses the routes declare, with the 422 of their request models.\<close>

fun documented :: "request \<Rightarrow> nat set" where
  "documented (Register _ _) = {201, 409, 422}"
| "documented (Login _ _) = {200, 401, 403, 422}"
| "documented (Refresh _) = {200, 401}"
| "documented (Logout _) = {204}"
| "documented (Authorize _ _ _) = {200, 401}"
| "documented (CreateRole _ _ _) = {201, 401, 403, 404, 409}"
| "documented (AssignPermission _ _) = {204, 401, 403, 404, 409}"
| "documented (RemovePermission _ _) = {204, 401, 403, 404}"
| "documented (MyPermissions _) = {200, 401}"
| "documented (AssignRole _ _ _) = {204, 401, 403, 404, 409}"
| "documented (RevokeRole _ _ _) = {204, 401, 403}"
| "documented (UserPermissions _ _) = {200, 401, 403}"
| "documented (CreateOrganization _) = {201, 401, 403, 409}"
| "documented (AddMember _ _) = {204, 401, 403, 404, 409}"
| "documented (RemoveMember _ _) = {204, 401, 403}"
| "documented (ListMembers _) = {200, 401, 403, 404}"
| "documented MyOrganizations = {200, 401}"
| "documented (ListAuditLogs _ _ _ _ _) = {200, 401, 403, 422}"
| "documented Health = {200}"

text \<open>The texts that are stored fit their columns.\<close>

fun fits_columns :: "env \<Rightarrow> request \<Rightarrow> bool" where
  "fits_columns X (Register email _) = (\<forall>address. email_str X email = Some address \<longrightarrow> length address \<le> 255)"
| "fits_columns X (CreateRole name _ _) = (length name \<le> 100)"
| "fits_columns X (CreateOrganization name) = (length name \<le> 255)"
| "fits_columns X _ = True"

lemma excepting_run:
  "excepting c m w = (case m w of
     (Inl (Domain d), w') \<Rightarrow>
       (case c d of None \<Rightarrow> Inl (Domain d) | Some (status, detail) \<Rightarrow> Inl (HTTPException status detail), w')
   | (Inl e, w') \<Rightarrow> (Inl e, w')
   | (Inr x, w') \<Rightarrow> (Inr x, w'))"
  by (auto simp: excepting_def run_simps split: sum.split exn.split option.split prod.split)

lemma status_simps [simp]:
  "status_of (Inr (s, b)) = s" "status_of (Inl (HTTPException s d)) = s"
  by (simp_all add: status_of_def)

section \<open>The routes of the accounts\<close>

lemma login_outcome:
  assumes "db_ok X w" and "collision_free X n" and "draws w + 10 \<le> n" and "sha256_ok X"
  shows "(\<exists>pair. fst (auth_login X email password w) = Inr pair) \<or>
    fst (auth_login X email password w) = Inl (Domain (InvalidCredentialsError ''Invalid email or password.'')) \<or>
    fst (auth_login X email password w) = Inl (Domain (InactiveUserError ''Account is inactive.''))"
proof (cases "py_lower email \<in> usr_email ` set (users w)")
  case False
  with assms(3) show ?thesis by (subst login_unknown_run [OF assms(1,2)]) simp_all
next
  case True
  then obtain u where u: "u \<in> set (users w)" "usr_email u = py_lower email" by auto
  have n: "draws w + 2 \<le> n" using assms(3) by simp
  show ?thesis
    using login_inactive_run [OF assms(1,2) n u] login_wrong_password_run [OF assms(1,2) n u]
      login_success_run [OF assms(1-3) u] assms(4)
    by (cases "usr_is_active u"; cases "verify_password X password (usr_password_hash u)") auto
qed

lemma refresh_outcome:
  assumes "ledger_ok X w" and "hashes_ok X w" and "collision_free X n" and "draws w + 10 \<le> n"
    and "sha256_ok X"
  shows "(\<exists>pair. fst (auth_refresh X p w) = Inr pair) \<or> fst (auth_refresh X p w) = Inl invalid_refresh_token"
proof (cases "\<exists>t. rotatable X w p t")
  case True
  then obtain t where "rotatable X w p t" ..
  from rotatable_run [OF assms(1,3,4,5) this] show ?thesis by simp
next
  case False
  with refresh_refused [OF assms(1-4)] show ?thesis by blast
qed

lemma logout_outcome:
  assumes "ledger_ok X w" and "hashes_ok X w" and "collision_free X n" and "draws w + 10 \<le> n"
  shows "fst (auth_logout X p w) = Inr ()"
proof (cases "sha256_hexdigest X p \<in> rt_token_hash ` set (refresh_tokens w)")
  case False
  then show ?thesis by (simp add: logout_unknown_run)
next
  case True
  then obtain t where "t \<in> set (refresh_tokens w)" "rt_token_hash t = sha256_hexdigest X p" by auto
  then have t: "presents X w p t" by (rule hashes_ok_presents [OF assms(2)])
  have n: "draws w + 3 \<le> n" using assms(4) by simp
  show ?thesis
    using logout_revoked_run [OF t] logout_live_run [OF _ assms(3) n t] assms(1)
    by (cases "rt_revoked_at t = None") (auto simp: ledger_ok_def)
qed

section \<open>The protected routes\<close>

text \<open>The state a handler starts in, once the caller is known.\<close>

lemma handler_start:
  assumes "db_ok X w" and "draws w + 5 \<le> n" and "caller X auth w = Some u"
  shows "db_ok X (read_header auth w)" and "draws (read_header auth w) + 4 \<le> n"
    and "draws (read_header auth w) + 2 \<le> n" and "usr_id u \<in> ids usr_id (users (read_header auth w))"
  using read_header_ok [OF assms(1)] read_header_simps(3) [of auth w] assms(2) caller_stored [OF assms(3)]
  by (simp_all add: ids_def del: read_header_simps(3))

lemma admitted:
  assumes "db_ok X w" and "subjects_are_strings X"
    and "dispatch X auth req = and_then (require_permission X r a auth) f"
  shows "dispatch X auth req w = (case caller X auth w of
      None \<Rightarrow> (Inl unauthorized, read_header auth w)
    | Some u \<Rightarrow> if may w (usr_id u) r a None then f u (read_header auth w)
               else (Inl (HTTPException 403 PERMISSION_DENIED_DETAIL), read_header auth w))"
  by (simp add: assms(3) run_simps require_permission_run [OF assms(1,2)] split: option.split)

lemma identified:
  assumes "db_ok X w" and "subjects_are_strings X"
    and "dispatch X auth req = and_then (get_current_user X auth) f"
  shows "dispatch X auth req w = (case caller X auth w of
      None \<Rightarrow> (Inl unauthorized, read_header auth w)
    | Some u \<Rightarrow> f u (read_header auth w))"
  by (simp add: assms(3) run_simps get_current_user_run [OF assms(1,2)] split: option.split)

lemma unauthorized_status [simp]: "status_of (Inl unauthorized) = 401"
  by (simp add: unauthorized_def)

lemma admin_status:
  assumes "db_ok X w" and "subjects_are_strings X" and "draws w + 5 \<le> n"
    and "dispatch X auth req = and_then (require_permission X r a auth) f"
    and "{401, 403} \<subseteq> S"
    and "\<And>u v. db_ok X v \<Longrightarrow> draws v + 4 \<le> n \<Longrightarrow> draws v + 2 \<le> n \<Longrightarrow> usr_id u \<in> ids usr_id (users v) \<Longrightarrow>
      status_of (fst (f u v)) \<in> S"
  shows "status_of (fst (dispatch X auth req w)) \<in> S"
proof (cases "caller X auth w")
  case None
  with assms(5) show ?thesis by (simp add: admitted [OF assms(1,2,4)])
next
  case (Some u)
  with assms(6) [OF handler_start [OF assms(1,3) Some]] assms(5) show ?thesis
    by (simp add: admitted [OF assms(1,2,4)])
qed

lemma personal_status:
  assumes "db_ok X w" and "subjects_are_strings X"
    and "dispatch X auth req = and_then (get_current_user X auth) f"
    and "401 \<in> S"
    and "\<And>u v. db_ok X v \<Longrightarrow> status_of (fst (f u v)) \<in> S"
  shows "status_of (fst (dispatch X auth req w)) \<in> S"
  using assms(4) assms(5) [OF read_header_ok [OF assms(1)]]
  by (simp add: identified [OF assms(1-3)] split: option.split)

lemmas handler_runs = excepting_run run_simps error_clauses

lemma role_routes_status:
  assumes "db_ok X w" and "subjects_are_strings X" and "draws w + 5 \<le> n" and cf: "collision_free X n"
  shows "length name \<le> 100 \<Longrightarrow>
      status_of (fst (dispatch X auth (CreateRole name d g) w)) \<in> documented (CreateRole name d g)"
    and "status_of (fst (dispatch X auth (AssignPermission i p) w)) \<in> documented (AssignPermission i p)"
    and "status_of (fst (dispatch X auth (RemovePermission i p) w)) \<in> documented (RemovePermission i p)"
  by (rule admin_status [OF assms(1-3)], simp only: dispatch.simps route_defs, simp,
      simp add: handler_runs create_role_run [OF _ cf] assign_permission_run [OF _ cf]
        remove_permission_role_run [OF _ cf] Let_def split: option.split)+

lemma user_routes_status:
  assumes "db_ok X w" and "subjects_are_strings X" and "draws w + 5 \<le> n" and cf: "collision_free X n"
  shows "status_of (fst (dispatch X auth (AssignRole u i g) w)) \<in> documented (AssignRole u i g)"
    and "status_of (fst (dispatch X auth (RevokeRole u i g) w)) \<in> documented (RevokeRole u i g)"
    and "status_of (fst (dispatch X auth (UserPermissions u g) w)) \<in> documented (UserPermissions u g)"
  by (rule admin_status [OF assms(1-3)], simp only: dispatch.simps route_defs, simp,
      (cases g; simp add: handler_runs assign_role_run [OF _ cf] revoke_role_run [OF _ cf]
        get_user_permissions_run membership_refusal_def Let_def split: option.split))+

lemma organization_routes_status:
  assumes "db_ok X w" and "subjects_are_strings X" and "draws w + 5 \<le> n" and cf: "collision_free X n"
  shows "length name \<le> 255 \<Longrightarrow>
      status_of (fst (dispatch X auth (CreateOrganization name) w)) \<in> documented (CreateOrganization name)"
    and "status_of (fst (dispatch X auth (AddMember g u) w)) \<in> documented (AddMember g u)"
    and "status_of (fst (dispatch X auth (RemoveMember g u) w)) \<in> documented (RemoveMember g u)"
    and "status_of (fst (dispatch X auth (ListMembers g) w)) \<in> documented (ListMembers g)"
    and "status_of (fst (dispatch X auth (ListAuditLogs og ac al l off) w)) \<in> documented (ListAuditLogs og ac al l off)"
  by (rule admin_status [OF assms(1-3)], simp only: dispatch.simps route_defs, simp,
      simp add: handler_runs create_organization_run [OF _ cf] add_member_run [OF _ cf]
        remove_member_run [OF _ cf] list_members_run list_events_run unprocessable_def Let_def
        split: option.split)+

section \<open>Every request\<close>

lemma request_status:
  assumes "ledger_ok X w" and "hashes_ok X w" and cf: "collision_free X n" and n: "draws w + 10 \<le> n"
    and "argon2_ok X" and "sha256_ok X" and sub: "subjects_are_strings X" and "fits_columns X req"
  shows "status_of (fst (dispatch X auth req w)) \<in> documented req"
proof -
  have ok: "db_ok X w" using assms(1) by (simp add: ledger_ok_def)
  have n5: "draws w + 5 \<le> n" using n by simp
  note admin = role_routes_status [OF ok sub n5 cf] user_routes_status [OF ok sub n5 cf]
    organization_routes_status [OF ok sub n5 cf]
  note person = personal_status [OF ok sub]
  show ?thesis
  proof (cases req)
    case (Register email password)
    then show ?thesis
      using assms(8) register_run [OF ok cf n5 assms(5)]
      by (auto simp: route_register_def unprocessable_def handler_runs Let_def split: option.split)
  next
    case (Login email password)
    show ?thesis
    proof (cases "email_str X email")
      case None
      with Login show ?thesis by (simp add: route_login_def unprocessable_def run_simps)
    next
      case (Some address)
      obtain res w' where run: "auth_login X address password w = (res, w')"
        by (cases "auth_login X address password w")
      with login_outcome [OF ok cf n assms(6), of address password] Login Some show ?thesis
        by (auto simp: route_login_def handler_runs)
    qed
  next
    case (Refresh p)
    then show ?thesis
      using refresh_outcome [OF assms(1-3) n assms(6), of p]
      by (auto simp: route_refresh_def invalid_refresh_token_def handler_runs split: prod.split)
  next
    case (Logout p)
    then show ?thesis
      using logout_outcome [OF assms(1-3) n, of p] by (auto simp: route_logout_def handler_runs split: prod.split)
  next
    case (Authorize r a g)
    show ?thesis unfolding Authorize
      by (rule person, simp only: dispatch.simps route_authorize_def)
        (simp_all add: handler_runs authorize_run)
  next
    case (MyPermissions g)
    show ?thesis unfolding MyPermissions
      by (rule person, simp only: dispatch.simps route_my_permissions_def)
        (simp_all add: handler_runs get_user_permissions_run)
  next
    case MyOrganizations
    show ?thesis unfolding MyOrganizations
      by (rule person, simp only: dispatch.simps route_my_organizations_def)
        (simp_all add: handler_runs list_organizations_for_user_def get_organizations_for_user_def)
  qed (use admin assms(8) in \<open>simp_all add: health_check_def run_simps\<close>)
qed

section \<open>Who changed what\<close>

text \<open>
  \<open>attributed\<close>: a step that changed a table has succeeded and has appended exactly one
  event, whose actor is the given user.
\<close>

definition attributed :: "user \<Rightarrow> world \<Rightarrow> (exn + response) \<times> world \<Rightarrow> bool" where
  "attributed u v result =
     (tables (snd result) = tables v \<or>
      status_of (fst result) \<in> {201, 204} \<and>
      (\<exists>l. audit_logs (snd result) = audit_logs v @ [l] \<and> log_actor_user_id l = Some (usr_id u)))"

lemma attributed_draws [simp]: "attributed u v (res, v\<lparr>draws := k\<rparr>)" "attributed u v (res, v)"
  by (simp_all add: attributed_def tables_def)

lemma attributed_log [simp]:
  "audit_logs v1 = audit_logs v \<Longrightarrow> s \<in> {201, 204} \<Longrightarrow>
   attributed u v (Inr (s, b), log_event X ac (Some (usr_id u)) tt ti og md v1)"
  by (simp add: attributed_def audit_row_def)

lemma attributed_after_header:
  "attributed u (read_header auth w) result \<Longrightarrow> attributed u w result"
  by (simp add: attributed_def)

text \<open>
  \<open>accounted\<close>: a request that changed a table came from a caller with the demanded
  permission, and is attributed to them.
\<close>

definition accounted :: "env \<Rightarrow> string option \<Rightarrow> world \<Rightarrow> string \<Rightarrow> string \<Rightarrow> request \<Rightarrow> bool" where
  "accounted X auth w r a req =
     (tables (snd (dispatch X auth req w)) = tables w \<or>
      (\<exists>u. caller X auth w = Some u \<and> may w (usr_id u) r a None \<and>
         attributed u w (dispatch X auth req w)))"

lemma admin_accounted:
  assumes "db_ok X w" and "subjects_are_strings X" and "draws w + 5 \<le> n"
    and "dispatch X auth req = and_then (require_permission X r a auth) f"
    and "\<And>u v. db_ok X v \<Longrightarrow> draws v + 4 \<le> n \<Longrightarrow> draws v + 2 \<le> n \<Longrightarrow> usr_id u \<in> ids usr_id (users v) \<Longrightarrow>
      attributed u v (f u v)"
  shows "accounted X auth w r a req"
proof (cases "caller X auth w")
  case (Some u)
  with assms(5) [OF handler_start [OF assms(1,3) Some]] show ?thesis
    by (auto simp: accounted_def admitted [OF assms(1,2,4)] intro: attributed_after_header)
qed (simp add: accounted_def admitted [OF assms(1,2,4)])

lemma role_routes_accounted:
  assumes "db_ok X w" and "subjects_are_strings X" and "draws w + 5 \<le> n" and cf: "collision_free X n"
  shows "length name \<le> 100 \<Longrightarrow> accounted X auth w ''role'' ''manage'' (CreateRole name d g)"
    and "accounted X auth w ''role'' ''manage'' (AssignPermission i p)"
    and "accounted X auth w ''role'' ''manage'' (RemovePermission i p)"
  by (rule admin_accounted [OF assms(1-3)], simp only: dispatch.simps route_defs,
      simp add: handler_runs create_role_run [OF _ cf] assign_permission_run [OF _ cf]
        remove_permission_role_run [OF _ cf] Let_def split: option.split)+

lemma user_routes_accounted:
  assumes "db_ok X w" and "subjects_are_strings X" and "draws w + 5 \<le> n" and cf: "collision_free X n"
  shows "accounted X auth w ''user'' ''manage'' (AssignRole u i g)"
    and "accounted X auth w ''user'' ''manage'' (RevokeRole u i g)"
    and "accounted X auth w ''user'' ''manage'' (UserPermissions u g)"
  by (rule admin_accounted [OF assms(1-3)], simp only: dispatch.simps route_defs,
      (cases g; simp add: handler_runs assign_role_run [OF _ cf] revoke_role_run [OF _ cf]
        get_user_permissions_run membership_refusal_def Let_def split: option.split))+

lemma organization_routes_accounted:
  assumes "db_ok X w" and "subjects_are_strings X" and "draws w + 5 \<le> n" and cf: "collision_free X n"
  shows "length name \<le> 255 \<Longrightarrow> accounted X auth w ''organization'' ''manage'' (CreateOrganization name)"
    and "accounted X auth w ''organization'' ''manage'' (AddMember g u)"
    and "accounted X auth w ''organization'' ''manage'' (RemoveMember g u)"
    and "accounted X auth w ''organization'' ''manage'' (ListMembers g)"
    and "accounted X auth w ''audit'' ''view'' (ListAuditLogs og ac al l off)"
  by (rule admin_accounted [OF assms(1-3)], simp only: dispatch.simps route_defs,
      simp add: handler_runs create_organization_run [OF _ cf] add_member_run [OF _ cf]
        remove_member_run [OF _ cf] list_members_run list_events_run Let_def split: option.split)+

lemma admin_changes:
  assumes "db_ok X w" and "subjects_are_strings X" and "draws w + 5 \<le> n" and "collision_free X n"
    and "demands req = Some (r, a)" and "fits_columns X req"
  shows "accounted X auth w r a req"
  using assms(5,6) role_routes_accounted [OF assms(1-4)] user_routes_accounted [OF assms(1-4)]
    organization_routes_accounted [OF assms(1-4)]
  by (cases req) auto

end
