(* ===== verification/System_Properties.thy ===== *)
theory System_Properties
  imports Answers
begin

text \<open>
  The properties of the service as a whole: its invariants under every sequence of
  requests, authentication and authorization of every protected route, and the status
  each request ends with.
\<close>

section \<open>Examples\<close>

lemma sample_subjects: "subjects_are_strings sample_env"
  by (simp add: subjects_are_strings_def sample_decode_def)

lemma sample_graph_ledger: "ledger_ok sample_env sample_graph"
  using sample_graph_ok by (simp add: ledger_ok_def chains_ok_def single_parent_def)

lemma sample_graph_hashes: "hashes_ok sample_env sample_graph"
  by (simp add: hashes_ok_def)

text \<open>The header of the second account of the example, whose access token is its id.\<close>

definition sample_header :: "string option" where
  "sample_header = Some (''Bearer '' @ uuid_str 2)"

lemma sample_bearer [simp]: "bearer sample_header = Some (uuid_str 2)"
  unfolding sample_header_def by (rule bearer_header [OF uuid_str_nonempty uuid_str_strip])

lemma sample_caller:
  "caller sample_env sample_header sample_graph = Some (sample_account 2 ''ann@x.io'')"
  "caller sample_env sample_header sample_staff = Some (sample_account 2 ''ann@x.io'')"
  by (simp_all add: caller_def subject_def sample_decode_def uuid_round_trip uuid_str_nonempty)

section \<open>Invariants of the running service\<close>

text \<open>
  C16: whatever requests are served, in any order and with any result, the database stays
  sound: keys and references hold in every table, the rotation chains keep their shape, and
  no role of an organization is assigned outside it.
\<close>

theorem service_stays_sound:
  assumes "ledger_ok X start" and "scopes_ok start" and "reachable X start w"
  shows "ledger_ok X w \<and> scopes_ok w"
proof -
  have "keeps (sound X) start w"
    by (rule reachable_keeps [OF assms(3) dispatch_sound]) (auto simp: keeps_def)
  with assms(1,2) show ?thesis by (simp add: keeps_def sound_def)
qed

lemma sample_reachable:
  "reachable sample_env sample_graph (snd (dispatch sample_env sample_header (CreateOrganization ''B'')
     (snd (dispatch sample_env None (Login ''ann@x.io'' ''secret'') sample_graph))))"
  by (rule reachable.served [OF reachable.served [OF reachable.started]]) (rule prod.collapse [symmetric])+

theorem service_stays_sound_witness:
  "ledger_ok sample_env (snd (dispatch sample_env sample_header (CreateOrganization ''B'')
     (snd (dispatch sample_env None (Login ''ann@x.io'' ''secret'') sample_graph))))"
  using service_stays_sound [OF sample_graph_ledger sample_graph_scopes sample_reachable] ..

text \<open>
  C27: the audit log is append-only. No request, of any caller and with any result,
  removes, changes or reorders an event that is in it.
\<close>

theorem audit_log_append_only:
  assumes "reachable X start w"
  shows "\<exists>events. audit_logs w = audit_logs start @ events"
proof -
  have "grows audit_logs start w"
    by (rule reachable_keeps [OF assms dispatch_grows]) (auto simp: grows_iff)
  then show ?thesis by (simp add: grows_iff)
qed

theorem audit_log_append_only_witness:
  "\<exists>events. audit_logs (snd (dispatch sample_env sample_header (CreateOrganization ''B'')
     (snd (dispatch sample_env None (Login ''ann@x.io'' ''secret'') sample_graph)))) =
     audit_logs sample_graph @ events"
  by (rule audit_log_append_only [OF sample_reachable])

text \<open>
  as long as the random sources do not repeat themselves, no two refresh tokens
  ever share a hash, so the lookup of a presented token never finds more than one row.
\<close>

theorem token_hashes_stay_unique:
  assumes "collision_free X n" and "hashes_ok X start" and "reachable X start w" and "draws w \<le> n"
  shows "distinct (map rt_token_hash (refresh_tokens w)) \<and>
    fst (token_get_by_hash h w) \<noteq> Inl (Sql MultipleResultsFound)"
proof -
  have "keeps (hashes_upto X n) start w"
    by (rule reachable_keeps [OF assms(3) dispatch_hashes [OF assms(1)]]) (auto simp: keeps_def)
  with assms(2,4) have "distinct (map rt_token_hash (refresh_tokens w))"
    by (simp add: keeps_def hashes_upto_def hashes_ok_def)
  then show ?thesis by (simp add: token_get_by_hash_run)
qed

section \<open>Authentication\<close>

text \<open>
  a protected route answers a request whose header names no account (none, not a
  bearer token, rejected by PyJWT, a subject that is no id or nobody's) with the one 401,
  and changes no table.
\<close>

theorem anonymous_refused:
  assumes "db_ok X w" and "subjects_are_strings X" and "personal req \<or> demands req \<noteq> None"
    and "caller X auth w = None"
  shows "\<exists>w'. dispatch X auth req w =
      (Inl (HTTPException 401 ''Could not validate credentials.''), w') \<and> tables w' = tables w"
proof -
  have refused: "unauthorized = HTTPException 401 ''Could not validate credentials.''"
    by (simp add: unauthorized_def AUTH_FAILURE_DETAIL_def)
  from assms(3) show ?thesis
  proof
    assume "personal req"
    then obtain f where "dispatch X auth req = and_then (get_current_user X auth) f" by (rule personal_guard)
    with assms(4) show ?thesis
      by (simp add: run_simps get_current_user_run [OF assms(1,2)] refused)
  next
    assume "demands req \<noteq> None"
    then obtain r a where "demands req = Some (r, a)" by auto
    then obtain f where "dispatch X auth req = and_then (require_permission X r a auth) f" by (rule demands_guard)
    with assms(4) show ?thesis
      by (simp add: run_simps require_permission_run [OF assms(1,2)] refused)
  qed
qed

theorem anonymous_refused_witness:
  "\<exists>w'. dispatch sample_env (Some ''Basic abc'') (CreateOrganization ''B'') sample_graph =
     (Inl (HTTPException 401 ''Could not validate credentials.''), w') \<and> tables w' = tables sample_graph"
  by (rule anonymous_refused [OF sample_graph_ok sample_subjects])
    (simp_all add: caller_def bearer_def py_startswith_def)

section \<open>Authorization of the routes\<close>

text \<open>
  C4: complete mediation. Every administrative route answers a caller who does not hold
  the permission it demands, outside of every organization, with the one 403 and changes no
  table; so only a caller who holds it globally can obtain anything else.
\<close>

theorem admin_routes_mediated:
  assumes "db_ok X w" and "subjects_are_strings X" and "demands req = Some (r, a)"
    and "caller X auth w = Some u" and "\<not> may w (usr_id u) r a None"
  shows "\<exists>w'. dispatch X auth req w =
      (Inl (HTTPException 403 ''You do not have permission to perform this action.''), w') \<and>
    tables w' = tables w"
  using assms(3)
proof (rule demands_guard)
  fix f assume "dispatch X auth req = and_then (require_permission X r a auth) f"
  with assms(4,5) show ?thesis
    by (simp add: run_simps require_permission_run [OF assms(1,2)] PERMISSION_DENIED_DETAIL_def)
qed

theorem admin_routes_mediated_witness:
  "\<exists>w'. dispatch sample_env sample_header (AssignRole 2 4 None) sample_graph =
      (Inl (HTTPException 403 ''You do not have permission to perform this action.''), w') \<and>
    tables w' = tables sample_graph"
  by (rule admin_routes_mediated [OF sample_graph_ok sample_subjects _ sample_caller(1)])
    (simp_all add: may_iff)

text \<open>
  a role assigned within an organization never opens an administrative route,
  not even one about that organization: the demanded permission is resolved without an
  organization.
\<close>

theorem scoped_roles_open_no_admin_route:
  assumes "db_ok X w" and "subjects_are_strings X" and "demands req = Some (r, a)"
    and "caller X auth w = Some u"
    and "\<And>s. s \<in> set (user_roles w) \<Longrightarrow> ur_user_id s = usr_id u \<Longrightarrow> ur_organization_id s \<noteq> None"
  shows "status_of (fst (dispatch X auth req w)) = 403"
  using assms(3)
proof (rule demands_guard)
  fix f assume d: "dispatch X auth req = and_then (require_permission X r a auth) f"
  have "\<not> may w (usr_id u) r a None" unfolding may_iff using assms(5) by auto
  with d assms(4) show ?thesis
    by (simp add: run_simps require_permission_run [OF assms(1,2)] status_of_def)
qed

theorem scoped_roles_open_no_admin_route_witness:
  "status_of (fst (dispatch sample_env sample_header (ListMembers 3) sample_staff)) = 403"
  by (rule scoped_roles_open_no_admin_route [OF sample_staff_ok sample_subjects _ sample_caller(2)])
    (auto simp: new_user_role_def)

section \<open>Access tokens\<close>

lemma sample_compact: "tokens_are_compact sample_env"
  by (simp add: tokens_are_compact_def access_token_payload_def uuid_str_strip uuid_str_nonempty)

text \<open>
  C22: the access token a login returns authenticates the account that logged in: sent
  as a bearer token while PyJWT accepts it, it makes that account the current user.
\<close>

theorem access_token_identifies:
  assumes "ledger_ok X w" and "collision_free X n" and "draws w + 10 \<le> n" and "sha256_ok X"
    and "subjects_are_strings X" and "tokens_are_compact X"
    and "u \<in> set (users w)" and "usr_email u = py_lower email"
    and "auth_login X email password w = (Inr pair, w')"
    and "jwt_accepts X (access_token_payload X (uuid_str (usr_id u)) (utc_clock X (draws w + 4))
           (uuid4 X (draws w + 5))) (utc_clock X (draws w'))"
  shows "\<exists>v. fst (get_current_user X (Some (''Bearer '' @ resp_access_token pair)) w') = Inr v \<and>
    usr_id v = usr_id u \<and> usr_email v = usr_email u"
proof -
  have ledger: "ledger_ok X w" and db: "db_ok X w" using assms(1) by (simp_all add: ledger_ok_def)
  have n2: "draws w + 2 \<le> n" using assms(3) by simp
  have on: "usr_is_active u"
    using login_inactive_run [OF db assms(2) n2 assms(7,8)] assms(9) by fastforce
  have good: "verify_password X password (usr_password_hash u)"
    using login_wrong_password_run [OF db assms(2) n2 assms(7,8) on] assms(9) by fastforce
  from assms(9) have pair: "resp_access_token pair = issued_access_token X (usr_id u) (draws w + 4)"
    and w': "w' = (logged_in X u w)\<lparr>
        refresh_tokens := refresh_tokens w @ [issued_token X (usr_id u) (draws w + 6)],
        draws := draws w + 10\<rparr>"
    unfolding login_success_run [OF db assms(2,3,7,8) on good assms(4)] by (auto simp: token_pair_def)
  let ?t = "issued_access_token X (usr_id u) (draws w + 4)"
  have "?t \<noteq> ''''" "py_strip ?t = ?t"
    using assms(6) by (simp_all add: tokens_are_compact_def issued_access_token_def Let_def)
  then have b: "bearer (Some (''Bearer '' @ resp_access_token pair)) = Some ?t"
    unfolding pair by (rule bearer_header)
  let ?p = "access_token_payload X (uuid_str (usr_id u)) (utc_clock X (draws w + 4)) (uuid4 X (draws w + 5))"
  have t: "?t = jwt_encode X ?p (jwt_secret_key (config X)) (jwt_algorithm (config X))"
    by (simp add: issued_access_token_def numeral_eq_Suc)
  have "map_of ?p ''sub'' = Some (JStr (uuid_str (usr_id u)))" by (simp add: access_token_payload_def)
  then have s: "subject X ?t (utc_clock X (draws w')) = Some (usr_id u)"
    using assms(10) unfolding t subject_def jwt_accepts_def by (auto simp: uuid_round_trip)
  have "ledger_ok X w'" using obeysD [OF auth_login_ledger assms(9)] ledger by (simp add: keeps_def)
  then have ok: "db_ok X w'" by (simp add: ledger_ok_def)
  let ?stamp = "\<lambda>v. v\<lparr>usr_last_login_at := Some (utc_clock X (draws w)), usr_updated_at := db_now X (draws w + 1)\<rparr>"
  have users: "users w' = update_where (\<lambda>v. usr_id v = usr_id u) ?stamp (users w)"
    by (simp add: w' logged_in_def)
  have "distinct (map usr_id (users w))" using db by (simp add: db_ok_def keys_unique_def)
  from find_key_unique [OF this assms(7)]
  have "find (\<lambda>v. usr_id v = usr_id u) (users w') = Some (?stamp u)"
    unfolding users by (subst find_update_where) simp_all
  with b s have "caller X (Some (''Bearer '' @ resp_access_token pair)) w' = Some (?stamp u)"
    by (simp only: caller_def option.case)
  then show ?thesis by (simp add: get_current_user_run [OF ok assms(5)])
qed

lemma sample_lower [simp]: "py_lower ''ann@x.io'' = ''ann@x.io''"
  by code_simp

lemma sample_login:
  "auth_login sample_env ''ann@x.io'' ''secret'' sample_graph =
     (Inr (token_pair sample_env (issued_access_token sample_env 2 13) (token_urlsafe sample_env 15)),
      snd (auth_login sample_env ''ann@x.io'' ''secret'' sample_graph))"
  using login_success_run [OF sample_graph_ok sample_collision_free,
      of "sample_account 2 ''ann@x.io''" "''ann@x.io''" "''secret''"]
  by (simp add: sample_hashes_ok verify_password_iff sample_account_def new_user_def)

lemma sample_login_draws:
  "draws (snd (auth_login sample_env ''ann@x.io'' ''secret'' sample_graph)) \<le> 64"
  using login_success_run [OF sample_graph_ok sample_collision_free,
      of "sample_account 2 ''ann@x.io''" "''ann@x.io''" "''secret''"]
  by (simp add: sample_hashes_ok verify_password_iff sample_account_def new_user_def logged_in_def)

theorem token_hashes_stay_unique_witness:
  "distinct (map rt_token_hash (refresh_tokens
       (snd (dispatch sample_env None (Login ''ann@x.io'' ''secret'') sample_graph)))) \<and>
   fst (token_get_by_hash (hash_of_draw sample_env 15)
       (snd (dispatch sample_env None (Login ''ann@x.io'' ''secret'') sample_graph)))
     \<noteq> Inl (Sql MultipleResultsFound)"
proof (rule token_hashes_stay_unique [OF sample_collision_free sample_graph_hashes])
  show "reachable sample_env sample_graph
      (snd (dispatch sample_env None (Login ''ann@x.io'' ''secret'') sample_graph))"
    by (rule reachable.served [OF reachable.started]) (rule prod.collapse [symmetric])
  show "draws (snd (dispatch sample_env None (Login ''ann@x.io'' ''secret'') sample_graph)) \<le> 64"
  proof (cases "auth_login sample_env ''ann@x.io'' ''secret'' sample_graph")
    case (Pair r w')
    with sample_login sample_login_draws show ?thesis
      by (auto simp: route_login_def excepting_run run_simps)
  qed
qed

theorem access_token_identifies_witness:
  "\<exists>v. fst (get_current_user sample_env (Some (''Bearer '' @ resp_access_token
       (token_pair sample_env (issued_access_token sample_env 2 13) (token_urlsafe sample_env 15))))
       (snd (auth_login sample_env ''ann@x.io'' ''secret'' sample_graph))) = Inr v \<and> usr_id v = 2"
  using access_token_identifies [OF sample_graph_ledger sample_collision_free _ sample_hashes_ok(2)
      sample_subjects sample_compact _ _ sample_login, of "sample_account 2 ''ann@x.io''"]
  by (auto simp: jwt_accepts_def access_token_payload_def sample_decode_def uuid_str_nonempty)

section \<open>What requests are answered with\<close>



text \<open>
  C28: every change an administrative route makes is authorized and attributed. When the
  request leaves any table different, its caller was identified and held the demanded
  permission globally, it was answered with success, and exactly one event was appended,
  naming that caller as the actor.
\<close>

theorem admin_changes_attributed:
  assumes "db_ok X w" and "subjects_are_strings X" and "draws w + 5 \<le> n" and "collision_free X n"
    and "demands req = Some (r, a)" and "fits_columns X req"
    and "tables (snd (dispatch X auth req w)) \<noteq> tables w"
  shows "\<exists>u l. caller X auth w = Some u \<and> fst (authorize X (usr_id u) r a None w) = Inr (decision True r a None) \<and>
    status_of (fst (dispatch X auth req w)) \<in> {201, 204} \<and>
    audit_logs (snd (dispatch X auth req w)) = audit_logs w @ [l] \<and>
    log_actor_user_id l = Some (usr_id u)"
proof -
  from admin_changes [OF assms(1-6)] assms(7) obtain u where
    u: "caller X auth w = Some u" "may w (usr_id u) r a None" "attributed u w (dispatch X auth req w)"
    by (auto simp: accounted_def)
  with assms(7) show ?thesis by (auto simp: attributed_def authorize_run [OF assms(1)])
qed

text \<open>An administrator for the example: the second account, with the global role of the example
  and the permission to manage organizations attached to it.\<close>

definition sample_admin :: world where
  "sample_admin = sample_graph\<lparr>
     permissions := permissions sample_graph @
       [\<lparr>perm_id = 0, perm_resource = ''organization'', perm_action = ''manage'', perm_description = None\<rparr>],
     role_permissions := role_permissions sample_graph @ [\<lparr>rp_role_id = 4, rp_permission_id = 0\<rparr>],
     user_roles := user_roles sample_graph @
       [\<lparr>ur_id = 10, ur_user_id = 2, ur_role_id = 4, ur_organization_id = None, ur_assigned_at = 0\<rparr>],
     draws := 11\<rparr>"

lemma sample_admin_ok: "db_ok sample_env sample_admin"
proof -
  have "word_of_nat k \<in> (word_of_nat :: nat \<Rightarrow> uuid) ` {..<11}" if "k < 11" for k using that by simp
  from this [of 0] this [of 1] this [of 2] this [of 3] this [of 4] this [of 5] this [of 6] this [of 7]
    this [of 8] this [of 10]
  have "{0, 1, 2, 3, 4, 5, 6, 7, 8, 10} \<subseteq> (word_of_nat :: nat \<Rightarrow> uuid) ` {..<11}" by simp
  then have "ids_drawn sample_env sample_admin"
    by (simp add: ids_drawn_def world_ids_def ids_def sample_admin_def)
  moreover have "keys_unique sample_admin"
    by (simp add: keys_unique_def permission_key_def grant_key_def assignment_key_def membership_key_def
        sample_admin_def)
  moreover have "refs_ok sample_admin"
    by (simp add: refs_ok_def ids_def sample_admin_def)
  ultimately show ?thesis by (simp add: db_ok_def)
qed

lemma sample_admin_simps [simp]:
  "users sample_admin = users sample_graph" "organizations sample_admin = organizations sample_graph"
  "draws sample_admin = 11"
  by (simp_all add: sample_admin_def)

lemma sample_admin_caller:
  "caller sample_env sample_header sample_admin = Some (sample_account 2 ''ann@x.io'')"
  by (simp add: caller_def subject_def sample_decode_def uuid_round_trip uuid_str_nonempty)

lemma organizations_tables: "organizations (tables w) = organizations w"
  by (simp add: tables_def)

lemma sample_admin_creates:
  "tables (snd (dispatch sample_env sample_header (CreateOrganization ''B'') sample_admin)) \<noteq> tables sample_admin"
proof -
  have "\<exists>m \<in> set (role_permissions sample_admin). rp_role_id m = 4 \<and>
      (\<exists>p \<in> set (permissions sample_admin). perm_id p = rp_permission_id m \<and>
        perm_resource p = ''organization'' \<and> perm_action p = ''manage'')"
    by (simp add: sample_admin_def)
  then have may: "may sample_admin 2 ''organization'' ''manage'' None"
    by (simp add: may_iff) (simp add: sample_admin_def)
  have ok: "db_ok sample_env (sample_admin\<lparr>draws := 12\<rparr>)" by (rule db_ok_draws [OF _ sample_admin_ok]) simp
  have "\<exists>x v. create_organization sample_env ''B'' 2 (sample_admin\<lparr>draws := 12\<rparr>) = (Inr x, v) \<and>
      length (organizations v) = 2"
    by (simp add: create_organization_run [OF ok sample_collision_free] Let_def ids_def)
  then obtain x v where c: "create_organization sample_env ''B'' 2 (sample_admin\<lparr>draws := 12\<rparr>) = (Inr x, v)"
    and v: "length (organizations v) = 2" by blast
  have h: "read_header sample_header sample_admin = sample_admin\<lparr>draws := 12\<rparr>" by (simp add: read_header_def)
  have "dispatch sample_env sample_header (CreateOrganization ''B'') sample_admin = (Inr (201, OrganizationBody x), v)"
    by (subst admitted [OF sample_admin_ok sample_subjects], simp only: dispatch.simps route_defs)
      (simp add: sample_admin_caller may h and_then_run excepting_run c pure_run)
  moreover have "organizations v \<noteq> organizations sample_admin" using v by auto
  then have "tables v \<noteq> tables sample_admin" by (metis organizations_tables)
  ultimately show ?thesis by simp
qed

theorem admin_changes_attributed_witness:
  "\<exists>l. audit_logs (snd (dispatch sample_env sample_header (CreateOrganization ''B'') sample_admin)) =
      audit_logs sample_admin @ [l] \<and> log_actor_user_id l = Some 2"
  using admin_changes_attributed [OF sample_admin_ok sample_subjects _ sample_collision_free _ _
      sample_admin_creates, of "''organization''" "''manage''"]
  by (auto simp: sample_admin_caller)

end
