(* ===== verification/Auth_Properties.thy ===== *)
theory Auth_Properties
  imports Auth_Runs
begin

text \<open>
  The properties of registration and login: what is stored, what is answered, and which
  failures cannot be told apart.
\<close>

text \<open>
  C30: registration succeeds exactly when no account has the email in any capitalisation.
  It then stores one active user under the lower-cased email, whose password hash verifies
  the password, answers with that user, opens no session and appends one
  \<open>user.registered\<close> event. Otherwise it is refused with the one generic message, changes
  no table but the audit log, and records the attempt.
\<close>

theorem register_outcome:
  assumes "db_ok X w" and "collision_free X n" and "draws w + 5 \<le> n" and "argon2_ok X"
    and "length email \<le> 255"
  shows "if py_lower email \<notin> usr_email ` set (users w)
     then \<exists>u w'. auth_register X email password w =
         (Inr \<lparr>reg_id = usr_id u, reg_email = py_lower email, reg_created_at = usr_created_at u\<rparr>, w') \<and>
       users w' = users w @ [u] \<and> usr_email u = py_lower email \<and> usr_is_active u \<and>
       verify_password X password (usr_password_hash u) \<and> refresh_tokens w' = refresh_tokens w \<and>
       logs w USER_REGISTERED (Some (usr_id u)) None w'
     else \<exists>w'. auth_register X email password w =
         (Inl (Domain (EmailAlreadyExistsError ''Unable to register with the provided details.'')), w') \<and>
       users w' = users w \<and> refresh_tokens w' = refresh_tokens w \<and>
       logs w USER_REGISTRATION_FAILED None
         (Some [(''attempted_email'', JStr email), (''reason'', JStr ''duplicate_email'')]) w'"
proof (cases "py_lower email \<in> usr_email ` set (users w)")
  case False
  with assms(4) show ?thesis unfolding register_run [OF assms(1-5)]
    by (auto intro!: exI [of _ "registered_user X email password w"]
        simp: Let_def registered_user_def new_user_def verify_password_iff argon2_ok_def)
qed (simp add: register_run [OF assms(1-5)] Let_def)

theorem register_outcome_witness:
  "(\<exists>u w'. auth_register sample_env ''b@x.io'' ''hunter2 hunter2'' sample_world =
      (Inr \<lparr>reg_id = usr_id u, reg_email = py_lower ''b@x.io'', reg_created_at = usr_created_at u\<rparr>, w') \<and>
    users w' = users sample_world @ [u]) \<and>
   (\<exists>w'. auth_register sample_env ''A@X.io'' ''hunter2 hunter2'' sample_world =
      (Inl (Domain (EmailAlreadyExistsError ''Unable to register with the provided details.'')), w') \<and>
    users w' = users sample_world)"
  using register_outcome [OF sample_world_ok(2) sample_collision_free _ sample_hashes_ok(1),
      of "''b@x.io''" "''hunter2 hunter2''"]
    register_outcome [OF sample_world_ok(2) sample_collision_free _ sample_hashes_ok(1),
      of "''A@X.io''" "''hunter2 hunter2''"]
  by auto

text \<open>
  C29: an active account's right password opens a session: one refresh token row
  is added, live, owned by the account, holding the hash of the returned token and
  expiring after the configured number of days; the account changes only in its
  stamps; one \<open>user.login_succeeded\<close> event is appended.
\<close>

theorem login_opens_session:
  assumes "db_ok X w" and "collision_free X n" and "draws w + 10 \<le> n"
    and "u \<in> set (users w)" and "usr_email u = py_lower email" and "usr_is_active u"
    and "verify_password X password (usr_password_hash u)" and "sha256_ok X"
  shows "\<exists>access raw t w'. auth_login X email password w = (Inr (token_pair X access raw), w') \<and>
    refresh_tokens w' = refresh_tokens w @ [t] \<and> rt_user_id t = usr_id u \<and>
    rt_token_hash t = sha256_hexdigest X raw \<and> rt_revoked_at t = None \<and> rt_replaced_by t = None \<and>
    rt_expires_at t = utc_clock X (draws w + 7) + days (refresh_token_ttl_days (config X)) \<and>
    map (\<lambda>v. (usr_id v, usr_email v, usr_password_hash v, usr_is_active v)) (users w') =
      map (\<lambda>v. (usr_id v, usr_email v, usr_password_hash v, usr_is_active v)) (users w) \<and>
    logs w USER_LOGIN_SUCCEEDED (Some (usr_id u)) None w'"
proof -
  have "map (\<lambda>v. (usr_id v, usr_email v, usr_password_hash v, usr_is_active v)) (users (logged_in X u w)) =
      map (\<lambda>v. (usr_id v, usr_email v, usr_password_hash v, usr_is_active v)) (users w)"
    by (simp add: logged_in_def update_where_map)
  moreover have "logs w USER_LOGIN_SUCCEEDED (Some (usr_id u)) None
      (logged_in X u w\<lparr>refresh_tokens := ts, draws := k\<rparr>)" for ts k
    by (simp add: logs_def logged_in_def audit_row_def)
  ultimately show ?thesis
    unfolding login_success_run [OF assms]
    by - (rule exI [of _ "issued_access_token X (usr_id u) (draws w + 4)"],
        rule exI [of _ "token_urlsafe X (draws w + 6)"], rule exI [of _ "issued_token X (usr_id u) (draws w + 6)"],
        simp add: issued_token_def new_refresh_token_def add.commute)
qed

theorem login_opens_session_witness:
  "\<exists>access raw t w'. auth_login sample_env ''A@X.io'' ''correct horse'' sample_world =
      (Inr (token_pair sample_env access raw), w') \<and>
    refresh_tokens w' = refresh_tokens sample_world @ [t] \<and> rt_user_id t = usr_id sample_user \<and>
    rt_token_hash t = sha256_hexdigest sample_env raw \<and> rt_revoked_at t = None \<and> rt_replaced_by t = None \<and>
    rt_expires_at t = utc_clock sample_env (draws sample_world + 7) +
      days (refresh_token_ttl_days (config sample_env)) \<and>
    map (\<lambda>v. (usr_id v, usr_email v, usr_password_hash v, usr_is_active v)) (users w') =
      map (\<lambda>v. (usr_id v, usr_email v, usr_password_hash v, usr_is_active v)) (users sample_world) \<and>
    logs sample_world USER_LOGIN_SUCCEEDED (Some (usr_id sample_user)) None w'"
  by (rule login_opens_session [OF sample_world_ok(2) sample_collision_free]) 
    (simp_all add: verify_password_iff sample_hashes_ok)

text \<open>
  C31: a login with an email no account has and a login with a wrong password
  for an active account end in the same exception with the same message, and neither
  changes an account or a session; only the audit log tells them apart.
\<close>

theorem login_failures_alike:
  assumes "db_ok X w" and "collision_free X n" and "draws w + 2 \<le> n"
    and "py_lower unknown \<notin> usr_email ` set (users w)"
    and "u \<in> set (users w)" and "usr_email u = py_lower email" and "usr_is_active u"
    and "\<not> verify_password X wrong (usr_password_hash u)"
  shows "fst (auth_login X unknown password w) = fst (auth_login X email wrong w) \<and>
    fst (auth_login X email wrong w) =
      Inl (Domain (InvalidCredentialsError ''Invalid email or password.'')) \<and>
    users (snd (auth_login X unknown password w)) = users w \<and>
    users (snd (auth_login X email wrong w)) = users w \<and>
    refresh_tokens (snd (auth_login X unknown password w)) = refresh_tokens w \<and>
    refresh_tokens (snd (auth_login X email wrong w)) = refresh_tokens w \<and>
    logs w USER_LOGIN_FAILED (Some (usr_id u)) (Some [(''reason'', JStr ''wrong_password'')])
      (snd (auth_login X email wrong w))"
  unfolding login_unknown_run [OF assms(1-4)] login_wrong_password_run [OF assms(1-3,5-8)]
  by (simp add: log_login_failure_def)

theorem login_failures_alike_witness:
  "fst (auth_login sample_env ''b@x.io'' ''x'' sample_world) =
     fst (auth_login sample_env ''a@x.io'' ''guess'' sample_world)"
  using login_failures_alike [OF sample_world_ok(2) sample_collision_free,
      of "''b@x.io''" sample_user "''a@x.io''" "''guess''" "''x''"]
  by (simp add: verify_password_iff)

text \<open>
  for a deactivated account the password is not looked at: whatever is
  sent, the answer is the \<open>InactiveUserError\<close>.
\<close>

theorem login_inactive_any_password:
  assumes "db_ok X w" and "collision_free X n" and "draws w + 2 \<le> n"
    and "u \<in> set (users w)" and "usr_email u = py_lower email" and "\<not> usr_is_active u"
  shows "\<forall>password. fst (auth_login X email password w) =
    Inl (Domain (InactiveUserError ''Account is inactive.''))"
  using login_inactive_run [OF assms] by simp

definition sample_inactive_world :: world where
  "sample_inactive_world = empty_world\<lparr>users := [sample_user\<lparr>usr_is_active := False\<rparr>], draws := 3\<rparr>"

lemma sample_inactive_world_ok: "db_ok sample_env sample_inactive_world"
proof -
  have "1 \<in> (word_of_nat :: nat \<Rightarrow> uuid) ` {..<3}" by (rule image_eqI [of _ _ 1]) simp_all
  then show ?thesis
    by (simp add: db_ok_def keys_unique_def refs_ok_def ids_drawn_def world_ids_def
        sample_inactive_world_def empty_world_def)
qed

theorem login_inactive_any_password_witness:
  "\<forall>password. fst (auth_login sample_env ''a@x.io'' password sample_inactive_world) =
    Inl (Domain (InactiveUserError ''Account is inactive.''))"
  by (rule login_inactive_any_password [OF sample_inactive_world_ok sample_collision_free,
        of "sample_user\<lparr>usr_is_active := False\<rparr>"])
    (simp_all add: sample_inactive_world_def)

text \<open>
  after a successful registration, the account's email in any
  capitalisation logs in with exactly the passwords that verify against the stored
  hash, the registered one among them.
\<close>

theorem register_then_login:
  assumes "ledger_ok X w" and "collision_free X n" and "draws w + 15 \<le> n" and "argon2_ok X"
    and "sha256_ok X" and "length email \<le> 255"
    and "auth_register X email password w = (Inr r, w')" and "py_lower email' = py_lower email"
  shows "\<exists>h. verify_password X password h \<and>
    (\<forall>p. (\<exists>pair. fst (auth_login X email' p w') = Inr pair) \<longleftrightarrow> verify_password X p h)"
proof -
  let ?u = "registered_user X email password w"
  have ok: "db_ok X w" using assms(1) by (simp add: ledger_ok_def)
  have new: "py_lower email \<notin> usr_email ` set (users w)"
    and w': "w' = log_event X USER_REGISTERED (Some (usr_id ?u)) (Some ''user'') (Some (usr_id ?u)) None None
      (w\<lparr>users := users w @ [?u], draws := draws w + 3\<rparr>)"
    using assms(3,7) unfolding register_run [OF ok assms(2) _ assms(4,6), simplified]
    by (auto simp: register_run [OF ok assms(2) _ assms(4,6)] Let_def split: if_splits)
  have ok': "db_ok X w'"
    using obeysD [OF auth_register_ledger assms(7)] assms(1) by (simp add: keeps_def ledger_ok_def)
  have d: "draws w' + 10 \<le> n" "draws w' + 2 \<le> n" and u: "?u \<in> set (users w')"
    using assms(3) by (simp_all add: w')
  have e: "usr_email ?u = py_lower email'" "usr_is_active ?u"
    "verify_password X password (usr_password_hash ?u)"
    using assms(4,8) by (simp_all add: registered_user_def new_user_def verify_password_iff argon2_ok_def)
  have "(\<exists>pair. fst (auth_login X email' p w') = Inr pair) \<longleftrightarrow> verify_password X p (usr_password_hash ?u)" for p
  proof (cases "verify_password X p (usr_password_hash ?u)")
    case True
    then show ?thesis
      using login_success_run [OF ok' assms(2) d(1) u e(1,2) _ assms(5), of p] by simp
  next
    case False
    then show ?thesis
      using login_wrong_password_run [OF ok' assms(2) d(2) u e(1,2), of p] by simp
  qed
  with e(3) show ?thesis by blast
qed

theorem register_then_login_witness:
  "\<exists>h. verify_password sample_env ''hunter2 hunter2'' h \<and>
    (\<forall>p. (\<exists>pair. fst (auth_login sample_env ''b@x.io'' p
         (snd (auth_register sample_env ''b@x.io'' ''hunter2 hunter2'' sample_world))) = Inr pair) \<longleftrightarrow>
       verify_password sample_env p h)"
proof -
  let ?m = "auth_register sample_env ''b@x.io'' ''hunter2 hunter2'' sample_world"
  have "?m = (Inr (case fst ?m of Inr r \<Rightarrow> r), snd ?m)"
    using register_run [OF sample_world_ok(2) sample_collision_free _ sample_hashes_ok(1),
        of "''b@x.io''" "''hunter2 hunter2''"]
    by (simp add: Let_def)
  from register_then_login [OF sample_world_ok(1) sample_collision_free _ sample_hashes_ok _ this, of "''b@x.io''"]
  show ?thesis by simp
qed

end
