(* ===== verification/Session_Example.thy ===== *)
theory Session_Example
  imports Session_Runs
begin

text \<open>
  One account and a session that has been rotated \<open>k\<close> times: token \<open>i\<close> carries the
  hash of draw \<open>i\<close>, and all but the last are revoked and linked to their successor.
\<close>

definition chain_token :: "nat \<Rightarrow> nat \<Rightarrow> refresh_token" where
  "chain_token k i =
     \<lparr>rt_id = word_of_nat (i + 2), rt_user_id = 1,
      rt_token_hash = sha256_hexdigest sample_env (replicate i (CHR ''t'')), rt_issued_at = int i,
      rt_expires_at = 1000, rt_revoked_at = (if i < k then Some (int i) else None),
      rt_replaced_by = (if i < k then Some (word_of_nat (Suc i + 2)) else None)\<rparr>"

definition chain_world :: "nat \<Rightarrow> world" where
  "chain_world k = empty_world\<lparr>users := [sample_user], refresh_tokens := map (chain_token k) [0..<Suc k],
     draws := k + 3\<rparr>"

lemma chain_token_simps [simp]:
  "rt_id (chain_token k i) = word_of_nat (i + 2)" "rt_user_id (chain_token k i) = 1"
  "rt_token_hash (chain_token k i) = sha256_hexdigest sample_env (replicate i (CHR ''t''))"
  "rt_expires_at (chain_token k i) = 1000"
  "rt_revoked_at (chain_token k i) = (if i < k then Some (int i) else None)"
  "rt_replaced_by (chain_token k i) = (if i < k then Some (word_of_nat (Suc i + 2)) else None)"
  by (simp_all add: chain_token_def)

lemma chain_world_simps [simp]:
  "users (chain_world k) = [sample_user]" "refresh_tokens (chain_world k) = map (chain_token k) [0..<Suc k]"
  "draws (chain_world k) = k + 3" "audit_logs (chain_world k) = []" "roles (chain_world k) = []"
  "permissions (chain_world k) = []" "role_permissions (chain_world k) = []" "user_roles (chain_world k) = []"
  "organizations (chain_world k) = []" "organization_memberships (chain_world k) = []"
  by (simp_all add: chain_world_def empty_world_def)

lemma word_of_nat_small:
  "i < 1000 \<Longrightarrow> j < 1000 \<Longrightarrow> (word_of_nat i :: uuid) = word_of_nat j \<longleftrightarrow> i = j"
  by (simp add: word_of_nat_eq_iff take_bit_nat_eq_self)

lemma chain_hash_inj:
  "i < 64 \<Longrightarrow> j < 64 \<Longrightarrow> rt_token_hash (chain_token k i) = rt_token_hash (chain_token k j) \<longleftrightarrow> i = j"
  using sample_hash_inj [of i j] by auto

lemma linked_chain:
  "i \<le> k \<Longrightarrow> linked (map (chain_token k) [i..<Suc k])"
proof (induction rule: inc_induct)
  case base
  then show ?case by (simp add: succ_ok_def)
next
  case (step i)
  then have u: "[i..<Suc k] = i # [Suc i..<Suc k]" by (simp add: upt_conv_Cons)
  have "chain_token k (Suc i) \<in> set (map (chain_token k) [Suc i..<Suc k])"
    unfolding set_map set_upt using step.hyps by (intro imageI) simp
  moreover have "succ_ok (chain_token k i) later" if "chain_token k (Suc i) \<in> set later" for later
    using that step.hyps(2) unfolding succ_ok_def
    by (auto simp del: of_nat_add of_nat_Suc add_Suc intro!: bexI [of _ "chain_token k (Suc i)"])
  ultimately have "succ_ok (chain_token k i) (map (chain_token k) [Suc i..<Suc k])" by blast
  with step.IH show ?case by (simp only: u list.map linked.simps)
qed

lemma chain_world_ledger:
  assumes "k < 60"
  shows "ledger_ok sample_env (chain_world k)"
proof -
  have inj: "inj_on (\<lambda>i. word_of_nat (i + 2) :: uuid) {..k}"
    using assms by (intro inj_onI) (auto simp: word_of_nat_small simp del: of_nat_add)
  have d: "distinct (map rt_id (map (chain_token k) [0..<Suc k]))"
  proof -
    have m: "map rt_id (map (chain_token k) [0..<Suc k]) = map (\<lambda>i. word_of_nat (i + 2)) [0..<Suc k]"
      by (simp del: upt_Suc of_nat_add)
    show ?thesis
      unfolding m distinct_map using inj
      by (simp only: set_upt atLeast0LessThan lessThan_Suc_atMost distinct_upt simp_thms)
  qed
  have drawn: "word_of_nat j \<in> (word_of_nat :: nat \<Rightarrow> uuid) ` {..<k + 3}" if "j < k + 3" for j
    using that by simp
  have sp: "single_parent (map (chain_token k) [0..<Suc k])"
  proof (rule single_parentI)
    fix s t i
    assume "s \<in> set (map (chain_token k) [0..<Suc k])" "t \<in> set (map (chain_token k) [0..<Suc k])"
      "rt_replaced_by s = Some i" "rt_replaced_by t = Some i"
    then obtain a b where "s = chain_token k a" "t = chain_token k b" "a < k" "b < k"
        "(word_of_nat (Suc a + 2) :: uuid) = word_of_nat (Suc b + 2)"
      by (auto split: if_splits)
    with assms show "rt_id s = rt_id t"
      by (simp add: word_of_nat_small del: of_nat_add of_nat_Suc add_Suc)
  qed
  have refs: "refers (rt_replaced_by (chain_token k i)) (ids rt_id (map (chain_token k) [0..<Suc k]))"
    if "i < Suc k" for i
  proof (cases "i < k")
    case True
    have "rt_id (chain_token k (Suc i)) \<in> ids rt_id (map (chain_token k) [0..<Suc k])"
      using True unfolding ids_def set_map set_upt by (intro imageI) simp
    with True show ?thesis by (simp del: of_nat_add of_nat_Suc add_Suc upt_Suc)
  qed simp
  have "ids_drawn sample_env (chain_world k)"
    unfolding ids_drawn_def
  proof
    fix x
    assume "x \<in> world_ids (chain_world k)"
    then have "x = word_of_nat 1 \<or> (\<exists>i < Suc k. x = rt_id (chain_token k i))"
      by (auto simp: world_ids_def ids_def simp del: upt_Suc chain_token_simps)
    then have "\<exists>j < k + 3. x = word_of_nat j"
    proof
      assume "x = word_of_nat 1"
      then show ?thesis by (intro exI [of _ 1]) simp
    next
      assume "\<exists>i < Suc k. x = rt_id (chain_token k i)"
      then obtain i where "i < Suc k" "x = word_of_nat (i + 2)" by (auto simp del: of_nat_add)
      then show ?thesis by (intro exI [of _ "i + 2"]) simp
    qed
    with drawn show "x \<in> gen_random_uuid sample_env ` {..<draws (chain_world k)}" by auto
  qed
  moreover have "keys_unique (chain_world k)" using d by (simp add: keys_unique_def del: upt_Suc)
  moreover have "refs_ok (chain_world k)"
    using refs by (auto simp: refs_ok_def simp del: upt_Suc)
  ultimately show ?thesis
    using linked_chain [of 0 k] sp by (simp add: ledger_ok_def db_ok_def chains_ok_def del: upt_Suc)
qed

lemma chain_world_hashes:
  assumes "k < 60"
  shows "hashes_ok sample_env (chain_world k)"
proof -
  have "inj_on (\<lambda>i. rt_token_hash (chain_token k i)) {..k}"
    using assms by (intro inj_onI) (simp add: chain_hash_inj del: chain_token_simps)
  then have "distinct (map (\<lambda>i. rt_token_hash (chain_token k i)) [0..<Suc k])"
    by (simp add: distinct_map atLeast0LessThan lessThan_Suc_atMost del: chain_token_simps upt_Suc)
  moreover have "rt_token_hash (chain_token k i) \<in> hash_of_draw sample_env ` {..<k + 3}" if "i < Suc k" for i
    using that by (intro image_eqI [of _ _ i]) (simp_all add: hash_of_draw_def)
  ultimately show ?thesis
    by (auto simp: hashes_ok_def o_def simp del: chain_token_simps upt_Suc)
qed

lemma chain_presents:
  assumes "k < 60" and "i \<le> k"
  shows "presents sample_env (chain_world k) (replicate i (CHR ''t'')) (chain_token k i)"
proof (rule hashes_ok_presents [OF chain_world_hashes [OF assms(1)]])
  show "chain_token k i \<in> set (refresh_tokens (chain_world k))"
    using assms(2) by (auto simp del: upt_Suc)
qed simp

lemma chain_rotatable:
  "k < 60 \<Longrightarrow> rotatable sample_env (chain_world k) (replicate k (CHR ''t'')) (chain_token k k)"
  using chain_presents [of k k] by (simp add: rotatable_def)

lemma chain_start_ok:
  "ledger_ok sample_env (chain_world 0)" "hashes_ok sample_env (chain_world 0)"
  "collision_free sample_env 64" "draws (chain_world 0) + 10 \<le> 64"
  by (simp_all add: chain_world_ledger chain_world_hashes sample_collision_free)

end
