(* ===== verification/Session_Properties.thy ===== *)
theory Session_Properties
  imports Session_Example
begin

text \<open>
  The life of a session: rotation, replay of a rotated token, revocation of the
  family, logout, and the bound of the family walk.
\<close>

section \<open>The properties\<close>

text \<open>
  C2: a refresh succeeds exactly for a stored token that is neither revoked
  nor expired and whose owner is an active account; every other string is refused with
  the one \<open>InvalidRefreshTokenError\<close> and its one message.
\<close>

theorem refresh_succeeds_iff:
  assumes "ledger_ok X w" and "hashes_ok X w" and "collision_free X n" and "draws w + 10 \<le> n"
    and "sha256_ok X"
  shows "(if \<exists>t. rotatable X w p t then \<exists>pair. fst (auth_refresh X p w) = Inr pair
    else fst (auth_refresh X p w) =
      Inl (Domain (InvalidRefreshTokenError ''Invalid or expired refresh token.'')))"
  using rotatable_run [OF assms(1,3,4,5)] refresh_refused [OF assms(1-4), of p]
  by (auto simp: invalid_refresh_token_def)

theorem refresh_succeeds_iff_witness:
  "\<exists>pair. fst (auth_refresh sample_env '''' (chain_world 0)) = Inr pair"
  using refresh_succeeds_iff [OF chain_world_ledger chain_world_hashes sample_collision_free _
      sample_hashes_ok(2), of 0 "''''"] chain_rotatable [of 0]
  by (auto split: if_splits)

text \<open>
  C17: a successful refresh revokes the presented token, links it to one new
  token and stores that token: live, with the same owner, holding the hash of the
  returned string and expiring after the configured number of days. No other row
  changes, and \<open>refresh_token.rotated\<close> is logged.
\<close>

theorem refresh_rotates:
  assumes "ledger_ok X w" and "hashes_ok X w" and "collision_free X n" and "draws w + 10 \<le> n"
    and "sha256_ok X" and "auth_refresh X p w = (Inr pair, w')"
  shows "\<exists>t parent child. rotatable X w p t \<and>
    refresh_tokens w' = map (\<lambda>r. if r = t then parent else r) (refresh_tokens w) @ [child] \<and>
    rt_id parent = rt_id t \<and> rt_revoked_at parent \<noteq> None \<and> rt_replaced_by parent = Some (rt_id child) \<and>
    rt_revoked_at child = None \<and> rt_replaced_by child = None \<and> rt_user_id child = rt_user_id t \<and>
    rt_token_hash child = sha256_hexdigest X (resp_refresh_token pair) \<and>
    rt_expires_at child = utc_clock X (draws w + 2) + days (refresh_token_ttl_days (config X)) \<and>
    users w' = users w \<and> logs w REFRESH_TOKEN_ROTATED (Some (rt_user_id t)) None w'"
proof -
  from refresh_success [OF assms(1-4,6)] obtain t where t: "rotatable X w p t" by blast
  have ts: "t \<in> set (refresh_tokens w)" using t by (simp add: rotatable_def presents_def)
  have w': "w' = (rotated X t w)\<lparr>draws := draws w + 10\<rparr>" and pair: "resp_refresh_token pair = token_urlsafe X (draws w + 1)"
    using rotatable_run [OF assms(1,3,4,5) t] assms(6) by (auto simp: token_pair_def)
  have tokens: "refresh_tokens w' =
      map (\<lambda>r. if r = t then rotation_parent X t w else r) (refresh_tokens w) @ [rotation_child X t w]"
    by (simp add: w' rotated_tokens [OF assms(1) ts])
  have "logs w REFRESH_TOKEN_ROTATED (Some (rt_user_id t)) None w'"
    by (simp add: w' logs_def rotated_def audit_row_def)
  moreover have "users w' = users w" by (simp add: w' rotated_def)
  ultimately show ?thesis
    using t tokens
    by - (rule exI [of _ t], rule exI [of _ "rotation_parent X t w"], rule exI [of _ "rotation_child X t w"],
        simp add: rotation_parent_def pair, simp add: rotation_child_def new_refresh_token_def)
qed

lemma chain_refresh:
  "auth_refresh sample_env '''' (chain_world 0) =
     (Inr (token_pair sample_env (issued_access_token sample_env 1 11) ''tttt''),
      rotated sample_env (chain_token 0 0) (chain_world 0)\<lparr>draws := 13\<rparr>)"
  using rotatable_run [OF chain_world_ledger sample_collision_free _ sample_hashes_ok(2) chain_rotatable, of 0]
  by (simp add: numeral_eq_Suc)

theorem refresh_rotates_witness:
  "\<exists>t child. rotatable sample_env (chain_world 0) '''' t \<and>
    child \<in> set (refresh_tokens (rotated sample_env (chain_token 0 0) (chain_world 0)\<lparr>draws := 13\<rparr>)) \<and>
    rt_revoked_at child = None \<and> rt_user_id child = rt_user_id t"
proof -
  obtain t parent child where c: "rotatable sample_env (chain_world 0) '''' t"
    "refresh_tokens (rotated sample_env (chain_token 0 0) (chain_world 0)\<lparr>draws := 13\<rparr>) =
       map (\<lambda>r. if r = t then parent else r) (refresh_tokens (chain_world 0)) @ [child]"
    "rt_revoked_at child = None" "rt_user_id child = rt_user_id t"
    using refresh_rotates [OF chain_start_ok sample_hashes_ok(2) chain_refresh] by blast
  have "child \<in> set (refresh_tokens (rotated sample_env (chain_token 0 0) (chain_world 0)\<lparr>draws := 13\<rparr>))"
    unfolding c(2) by simp
  with c show ?thesis by blast
qed

text \<open>
  C1: presenting a token a second time, after it has been rotated, is refused and
  ends the session: the token that the first call returned is refused from then on.
\<close>

theorem replay_ends_session:
  assumes "ledger_ok X w" and "hashes_ok X w" and "collision_free X n" and "draws w + 25 \<le> n"
    and "sha256_ok X" and "auth_refresh X p w = (Inr pair, w1)" and "auth_refresh X p w1 = (res, w2)"
  shows "res = Inl invalid_refresh_token \<and>
    fst (auth_refresh X (resp_refresh_token pair) w2) = Inl invalid_refresh_token"
proof -
  have n: "draws w + 10 \<le> n" using assms(4) by simp
  from refresh_success [OF assms(1-3) n assms(6)] obtain t where t: "rotatable X w p t" by blast
  let ?c = "rotation_child X t w" and ?p = "rotation_parent X t w"
  have w1: "w1 = (rotated X t w)\<lparr>draws := draws w + 10\<rparr>"
    and pair: "resp_refresh_token pair = token_urlsafe X (draws w + 1)"
    using rotatable_run [OF assms(1,3) n assms(5) t] assms(6) by (auto simp: token_pair_def)
  note after = after_rotation [OF assms(1,2,3) n assms(5) t, folded w1]
  have d1: "draws w1 + 5 \<le> n" using assms(4) by (simp add: w1)
  have run: "auth_refresh X p w1 = (Inl invalid_refresh_token,
      log_family_revoked X ?p ?c (log_reuse X ?p False (revoke_row X ?c w1)))"
    by (rule refresh_reuse_live_run [OF after(1) assms(3) d1 after(3) _ after(5)])
      (simp add: rotation_parent_def)
  with assms(7) have w2: "w2 = log_family_revoked X ?p ?c (log_reuse X ?p False (revoke_row X ?c w1))"
    and res: "res = Inl invalid_refresh_token" by simp_all
  have l2: "ledger_ok X w2"
    using obeysD [OF auth_refresh_ledger assms(7)] after(1) by (simp add: keeps_def)
  have d2: "draws w2 = draws w + 15"
    by (simp add: w2 log_family_revoked_def log_reuse_def revoke_row_def w1)
  then have "draws w2 \<le> n" using assms(4) by simp
  then have h2: "hashes_ok X w2"
    using obeysD [OF auth_refresh_hashes [OF assms(3)] assms(7)] after(2)
    by (simp add: keeps_def hashes_upto_def)
  have dead: "set_revoked (utc_clock X (draws w1)) ?c \<in> set (refresh_tokens w2)"
    using after(4) by (auto simp: w2 log_family_revoked_def log_reuse_def revoke_row_def update_where_def
        presents_def)
  have "presents X w2 (token_urlsafe X (draws w + 1)) (set_revoked (utc_clock X (draws w1)) ?c)"
    by (rule hashes_ok_presents [OF h2 dead]) simp
  then have "fst (auth_refresh X (token_urlsafe X (draws w + 1)) w2) = Inl invalid_refresh_token"
    using refresh_logged_out_run [OF ledger_okD(1) [OF l2] assms(3)] d2 assms(4) by simp
  with res pair show ?thesis by simp
qed

theorem replay_ends_session_witness:
  "fst (auth_refresh sample_env '''' (snd (auth_refresh sample_env '''' (chain_world 0)))) =
     Inl invalid_refresh_token \<and>
   fst (auth_refresh sample_env ''tttt''
     (snd (auth_refresh sample_env '''' (snd (auth_refresh sample_env '''' (chain_world 0)))))) =
     Inl invalid_refresh_token"
  using replay_ends_session [OF chain_world_ledger chain_world_hashes sample_collision_free _
      sample_hashes_ok(2) chain_refresh prod.collapse [symmetric]]
  by (simp add: chain_refresh token_pair_def)

text \<open>
  C18: presenting any rotated token of a family whose live token is fewer than 25
  links past its successor revokes exactly that live token, is refused, and is logged
  twice: the reuse, and the revocation of the family.
\<close>

theorem reuse_revokes_family:
  assumes "ledger_ok X w" and "collision_free X n" and "draws w + 5 \<le> n"
    and "presents X w p t" and "rt_revoked_at t \<noteq> None" and "rt_replaced_by t = Some j"
    and "k < MAX_FAMILY_WALK_STEPS" and "hop (refresh_tokens w) k j = Some s"
    and "rt_revoked_at s = None"
  shows "\<exists>w'. auth_refresh X p w = (Inl invalid_refresh_token, w') \<and>
    refresh_tokens w' = map (\<lambda>r. if r = s then set_revoked (utc_clock X (draws w)) s else r) (refresh_tokens w) \<and>
    users w' = users w \<and>
    map log_action (audit_logs w') = map log_action (audit_logs w) @
      [REFRESH_TOKEN_REUSE_DETECTED, REFRESH_TOKEN_FAMILY_REVOKED]"
proof -
  have "linked (refresh_tokens w)" using assms(1) by (simp add: ledger_ok_def chains_ok_def)
  moreover have "s \<in> set (refresh_tokens w)" using assms(8)
    by (induction k arbitrary: j) (auto split: option.splits dest: find_key_Some)
  ultimately have "rt_replaced_by s = None" using assms(9) by (rule linked_revoked)
  from leaf_within_mono [OF leaf_hop [OF assms(8) this]] assms(7)
  have "leaf_within (refresh_tokens w) MAX_FAMILY_WALK_STEPS j = Some s" by simp
  then have leaf: "family_leaf w t = Some s" using assms(6,9) by (simp add: family_leaf_def)
  have d: "distinct (map rt_id (refresh_tokens w))" using assms(1) by (intro db_ok_token_ids ledger_okD)
  have "(rt_id r = rt_id s) = (r = s)" if "r \<in> set (refresh_tokens w)" for r
    using that \<open>s \<in> set _\<close> distinct_map_eqD [OF d] by blast
  then have "update_where (\<lambda>r. rt_id r = rt_id s) (set_revoked (utc_clock X (draws w))) (refresh_tokens w) =
      map (\<lambda>r. if r = s then set_revoked (utc_clock X (draws w)) s else r) (refresh_tokens w)"
    by (simp add: update_where_def)
  then show ?thesis
    unfolding refresh_reuse_live_run [OF assms(1-5) leaf]
    by (simp add: log_family_revoked_def log_reuse_def revoke_row_def audit_row_def)
qed

lemma chain_find:
  assumes "k < 60" and "i \<le> k"
  shows "find (\<lambda>t. rt_id t = word_of_nat (i + 2)) (refresh_tokens (chain_world k)) = Some (chain_token k i)"
proof -
  have "distinct (map rt_id (refresh_tokens (chain_world k)))"
    using chain_world_ledger [OF assms(1)] by (intro db_ok_token_ids ledger_okD)
  moreover have "chain_token k i \<in> set (refresh_tokens (chain_world k))"
    using assms(2) by (auto simp del: upt_Suc)
  ultimately have "find (\<lambda>t. rt_id t = rt_id (chain_token k i)) (refresh_tokens (chain_world k)) =
      Some (chain_token k i)" by (rule find_key_unique)
  then show ?thesis by (simp only: chain_token_simps)
qed

lemma chain_hop:
  "k < 60 \<Longrightarrow> i + j \<le> k \<Longrightarrow>
   hop (refresh_tokens (chain_world k)) j (word_of_nat (i + 2)) = Some (chain_token k (i + j))"
proof (induction j arbitrary: i)
  case 0
  then show ?case using chain_find [of k i] by (simp del: chain_world_simps of_nat_add)
next
  case (Suc j)
  have "hop (refresh_tokens (chain_world k)) j (word_of_nat (Suc i + 2)) = Some (chain_token k (Suc i + j))"
    by (rule Suc.IH) (use Suc.prems in simp_all)
  with Suc.prems chain_find [of k i] show ?case
    by (simp del: chain_world_simps of_nat_add of_nat_Suc)
qed

theorem reuse_revokes_family_witness:
  "\<exists>w'. auth_refresh sample_env '''' (chain_world 3) = (Inl invalid_refresh_token, w') \<and>
    map log_action (audit_logs w') = [REFRESH_TOKEN_REUSE_DETECTED, REFRESH_TOKEN_FAMILY_REVOKED]"
proof -
  have p: "presents sample_env (chain_world 3) '''' (chain_token 3 0)"
    using chain_presents [of 3 0] by simp
  have h: "hop (refresh_tokens (chain_world 3)) 2 (word_of_nat (1 + 2)) = Some (chain_token 3 (1 + 2))"
    by (rule chain_hop) simp_all
  have j: "rt_replaced_by (chain_token 3 0) = Some (word_of_nat (1 + 2))" by simp
  show ?thesis
    using reuse_revokes_family [OF chain_world_ledger sample_collision_free _ p _ j _ h]
    by (auto simp: MAX_FAMILY_WALK_STEPS_def)
qed

text \<open>
  C37: the walk counts 25 links. When the presented token's successor has 25 or more
  successors of its own, the replay is refused but revokes nothing: the live token of the
  family stays live, and the log records \<open>family_already_revoked = true\<close>.
\<close>

theorem long_family_survives_reuse:
  assumes "ledger_ok X w" and "collision_free X n" and "draws w + 3 \<le> n"
    and "presents X w p t" and "rt_revoked_at t \<noteq> None" and "rt_replaced_by t = Some j"
    and "hop (refresh_tokens w) MAX_FAMILY_WALK_STEPS j \<noteq> None"
  shows "\<exists>w'. auth_refresh X p w = (Inl invalid_refresh_token, w') \<and>
    refresh_tokens w' = refresh_tokens w \<and>
    logs w REFRESH_TOKEN_REUSE_DETECTED (Some (rt_user_id t))
      (Some [(''presented_token_id'', JStr (uuid_str (rt_id t))),
             (''family_already_revoked'', JBool True)]) w'"
proof -
  have "family_leaf w t = None" using hop_long [OF assms(7)] by (simp add: family_leaf_def assms(6))
  from refresh_reuse_none_run [OF assms(1-6) this] show ?thesis
    by (auto simp: log_reuse_def)
qed

theorem long_family_survives_reuse_witness:
  "\<exists>w'. auth_refresh sample_env '''' (chain_world 26) = (Inl invalid_refresh_token, w') \<and>
    refresh_tokens w' = refresh_tokens (chain_world 26) \<and>
    rt_revoked_at (chain_token 26 26) = None \<and> chain_token 26 26 \<in> set (refresh_tokens w')"
proof -
  have p: "presents sample_env (chain_world 26) '''' (chain_token 26 0)"
    using chain_presents [of 26 0] by simp
  have "hop (refresh_tokens (chain_world 26)) 25 (word_of_nat (1 + 2)) = Some (chain_token 26 (1 + 25))"
    by (rule chain_hop) simp_all
  then have h: "hop (refresh_tokens (chain_world 26)) MAX_FAMILY_WALK_STEPS (word_of_nat (1 + 2)) \<noteq> None"
    unfolding MAX_FAMILY_WALK_STEPS_def by (simp only: option.distinct not_False_eq_True)
  have j: "rt_replaced_by (chain_token 26 0) = Some (word_of_nat (1 + 2))" by simp
  have "chain_token 26 26 \<in> set (refresh_tokens (chain_world 26))"
    using chain_presents [of 26 26] by (simp add: presents_def)
  then show ?thesis
    using long_family_survives_reuse [OF chain_world_ledger sample_collision_free _ p _ j h]
    by (auto simp del: chain_world_simps(2))
qed

text \<open>
  C21: logging out with a live token revokes its row and no other; from then on the
  token cannot be refreshed, and logging out again changes nothing at all.
\<close>

theorem logout_ends_session:
  assumes "ledger_ok X w" and "hashes_ok X w" and "collision_free X n" and "draws w + 13 \<le> n"
    and "presents X w p t" and "rt_revoked_at t = None"
  shows "\<exists>w'. auth_logout X p w = (Inr (), w') \<and>
    refresh_tokens w' = map (\<lambda>r. if r = t then set_revoked (utc_clock X (draws w)) t else r) (refresh_tokens w) \<and>
    logs w USER_LOGOUT (Some (rt_user_id t)) None w' \<and>
    fst (auth_refresh X p w') = Inl invalid_refresh_token \<and> auth_logout X p w' = (Inr (), w')"
proof -
  let ?t = "set_revoked (utc_clock X (draws w)) t"
  obtain w' where run: "auth_logout X p w = (Inr (), w')" and
    w': "w' = log_event X USER_LOGOUT (Some (rt_user_id t)) (Some ''user'') (Some (rt_user_id t)) None None
      (revoke_row X t w)"
    using logout_live_run [OF assms(1,3) _ assms(5,6)] assms(4) by simp
  have ts: "t \<in> set (refresh_tokens w)" "rt_token_hash t = sha256_hexdigest X p"
    using assms(5) by (simp_all add: presents_def)
  have l: "ledger_ok X w'" using obeysD [OF auth_logout_ledger run] assms(1) by (simp add: keeps_def)
  have h: "hashes_ok X w'"
    using obeysD [OF auth_logout_idents run] assms(2) by (rule hashes_ok_later)
  have d: "distinct (map rt_id (refresh_tokens w))" using assms(1) by (intro db_ok_token_ids ledger_okD)
  have "(rt_id r = rt_id t) = (r = t)" if "r \<in> set (refresh_tokens w)" for r
    using that ts(1) distinct_map_eqD [OF d] by blast
  then have tokens: "refresh_tokens w' = map (\<lambda>r. if r = t then ?t else r) (refresh_tokens w)"
    by (simp add: w' revoke_row_def update_where_def)
  then have "?t \<in> set (refresh_tokens w')" using ts(1) by auto
  then have p: "presents X w' p ?t" by (rule hashes_ok_presents [OF h]) (simp add: ts(2))
  have "rt_replaced_by t = None"
    using assms(1,6) ts(1) linked_revoked by (auto simp: ledger_ok_def chains_ok_def)
  then have "fst (auth_refresh X p w') = Inl invalid_refresh_token"
    using assms(4) by (subst refresh_logged_out_run [OF ledger_okD(1) [OF l] assms(3) _ p])
      (simp_all add: w' revoke_row_def)
  moreover have "auth_logout X p w' = (Inr (), w')" by (rule logout_revoked_run [OF p]) simp
  moreover have "logs w USER_LOGOUT (Some (rt_user_id t)) None w'"
    by (simp add: w' revoke_row_def)
  ultimately show ?thesis using run tokens by blast
qed

theorem logout_ends_session_witness:
  "\<exists>w'. auth_logout sample_env '''' (chain_world 0) = (Inr (), w') \<and>
    fst (auth_refresh sample_env '''' w') = Inl invalid_refresh_token \<and>
    auth_logout sample_env '''' w' = (Inr (), w')"
proof -
  have p: "presents sample_env (chain_world 0) '''' (chain_token 0 0)"
    using chain_presents [of 0 0] by simp
  show ?thesis
    using logout_ends_session [OF chain_start_ok(1-3) _ p] by auto
qed

text \<open>
  the refresh token a login returns is accepted by the next refresh, as long
  as the configured lifetime has not passed by then.
\<close>

theorem login_then_refresh:
  assumes "ledger_ok X w" and "hashes_ok X w" and "collision_free X n" and "draws w + 20 \<le> n"
    and "sha256_ok X" and "u \<in> set (users w)" and "usr_email u = py_lower email" and "usr_is_active u"
    and "verify_password X password (usr_password_hash u)"
    and "auth_login X email password w = (Inr pair, w')"
    and "utc_clock X (draws w + 10) < utc_clock X (draws w + 7) + days (refresh_token_ttl_days (config X))"
  shows "\<exists>pair'. fst (auth_refresh X (resp_refresh_token pair) w') = Inr pair'"
proof -
  let ?t = "issued_token X (usr_id u) (draws w + 6)"
  have n: "draws w + 10 \<le> n" using assms(4) by simp
  have w': "w' = (logged_in X u w)\<lparr>refresh_tokens := refresh_tokens w @ [?t], draws := draws w + 10\<rparr>"
    and pair: "resp_refresh_token pair = token_urlsafe X (draws w + 6)"
    using login_success_run [OF ledger_okD(1) [OF assms(1)] assms(3) n assms(6-9,5)] assms(10)
    by (auto simp: token_pair_def)
  have l: "ledger_ok X w'" using obeysD [OF auth_login_ledger assms(10)] assms(1) by (simp add: keeps_def)
  have "draws w' \<le> n" using n by (simp add: w')
  then have h: "hashes_ok X w'"
    using obeysD [OF auth_login_hashes [OF assms(3)] assms(10)] assms(2)
    by (simp add: keeps_def hashes_upto_def)
  have "presents X w' (token_urlsafe X (draws w + 6)) ?t"
    by (rule hashes_ok_presents [OF h]) (simp_all add: w' issued_token_def new_refresh_token_def)
  moreover have "\<exists>v \<in> set (users w'). usr_id v = usr_id u \<and> usr_is_active v"
  proof -
    let ?v = "u\<lparr>usr_last_login_at := Some (utc_clock X (draws w)), usr_updated_at := db_now X (draws w + 1)\<rparr>"
    have "?v \<in> set (users w')" using assms(6) by (auto simp: w' logged_in_def update_where_def)
    then show ?thesis using assms(8) by (intro bexI [of _ ?v]) simp_all
  qed
  ultimately have "rotatable X w' (token_urlsafe X (draws w + 6)) ?t"
    using assms(11) by (simp add: rotatable_def issued_token_def new_refresh_token_def w' add.commute)
  from rotatable_run [OF l assms(3) _ assms(5) this] assms(4) show ?thesis
    by (simp add: pair w')
qed

theorem login_then_refresh_witness:
  "\<exists>pair'. fst (auth_refresh sample_env (replicate 9 (CHR ''t''))
     (snd (auth_login sample_env ''a@x.io'' ''correct horse'' sample_world))) = Inr pair'"
proof -
  have h: "hashes_ok sample_env sample_world" by (simp add: hashes_ok_def)
  have run: "auth_login sample_env ''a@x.io'' ''correct horse'' sample_world =
    (Inr (token_pair sample_env (issued_access_token sample_env 1 7) (replicate 9 (CHR ''t''))),
     snd (auth_login sample_env ''a@x.io'' ''correct horse'' sample_world))"
    using login_success_run [OF sample_world_ok(2) sample_collision_free, of sample_user "''a@x.io''"
        "''correct horse''"]
    by (simp add: verify_password_iff sample_hashes_ok)
  from login_then_refresh [OF sample_world_ok(1) h sample_collision_free _ sample_hashes_ok(2) _ _ _ _ run,
      of sample_user]
  show ?thesis
    by (simp add: verify_password_iff default_settings_def days_def seconds_def token_pair_def)
qed

end
