(* ===== verification/Authorization_Properties.thy ===== *)
theory Authorization_Properties
  imports Authorization_Runs
begin

text \<open>
  The properties of the authorization service: what the permission check decides, when an
  assignment succeeds and what it changes, and that organizations do not see each other's
  assignments.
\<close>

text \<open>
  C3: the permission check changes nothing and never raises. It allows exactly
  when the user exists and is active, and some assignment of theirs that is global or in
  the named organization carries a role to which a permission with the resource and
  action is attached; in every other case it denies.
\<close>

theorem authorize_decides:
  assumes "db_ok X w"
  shows "authorize X u r a g w =
    (Inr (decision
       ((\<exists>v \<in> set (users w). usr_id v = u \<and> usr_is_active v) \<and>
        (\<exists>s \<in> set (user_roles w). ur_user_id s = u \<and>
           (ur_organization_id s = None \<or> g \<noteq> None \<and> ur_organization_id s = g) \<and>
           (\<exists>m \<in> set (role_permissions w). rp_role_id m = ur_role_id s \<and>
              (\<exists>p \<in> set (permissions w). perm_id p = rp_permission_id m \<and>
                 perm_resource p = r \<and> perm_action p = a)))) r a g), w)"
  unfolding authorize_run [OF assms] may_iff ..

theorem authorize_decides_witness:
  "authorize sample_env 1 ''document'' ''edit'' None sample_graph =
     (Inr (decision True ''document'' ''edit'' None), sample_graph) \<and>
   authorize sample_env 2 ''document'' ''edit'' None sample_graph =
     (Inr (decision False ''document'' ''edit'' None), sample_graph)"
  using authorize_decides [OF sample_graph_ok, of 1 "''document''" "''edit''" None]
    authorize_decides [OF sample_graph_ok, of 2 "''document''" "''edit''" None]
  by simp

text \<open>
  C19: assigning a role succeeds exactly when the role exists, is not another
  organization's, the named organization exists and has the user as a member, the user
  exists and does not hold the role in that scope yet; a refusal leaves every assignment
  as it was and logs nothing.
\<close>

theorem assign_role_succeeds_iff:
  assumes "db_ok X w" and "collision_free X n" and "draws w + 4 \<le> n"
    and "actor \<in> ids usr_id (users w)"
  shows "(if (\<exists>r \<in> set (roles w). role_id r = i \<and>
              (role_organization_id r = None \<or> role_organization_id r = g)) \<and>
           (\<forall>o1. g = Some o1 \<longrightarrow> o1 \<in> ids org_id (organizations w) \<and>
              (u, o1) \<in> membership_key ` set (organization_memberships w)) \<and>
           u \<in> ids usr_id (users w) \<and> (u, i, g) \<notin> assignment_key ` set (user_roles w)
     then \<exists>a w'. assign_role X u i g actor w = (Inr (), w') \<and>
       user_roles w' = user_roles w @ [a] \<and> assignment_key a = (u, i, g)
     else \<exists>e w'. assign_role X u i g actor w = (Inl (Domain e), w') \<and>
       user_roles w' = user_roles w \<and> audit_logs w' = audit_logs w)"
proof -
  note run = assign_role_run [OF assms]
  have d: "distinct (map role_id (roles w))" using assms(1) by (simp add: db_ok_def keys_unique_def)
  have role: "(\<exists>r \<in> set (roles w). role_id r = i \<and> Q r) \<longleftrightarrow>
      (case find (\<lambda>r. role_id r = i) (roles w) of None \<Rightarrow> False | Some r \<Rightarrow> Q r)" for Q
  proof (cases "find (\<lambda>r. role_id r = i) (roles w)")
    case None
    then have "\<forall>r \<in> set (roles w). role_id r \<noteq> i" by (auto simp: find_None_iff)
    with None show ?thesis by auto
  next
    case (Some r)
    from find_key_Some [OF this] have r: "r \<in> set (roles w)" "role_id r = i" by auto
    have "r' = r" if "r' \<in> set (roles w)" "role_id r' = i" for r'
      by (rule distinct_map_eqD [OF d that(1) r(1)]) (simp only: that r)
    then have "(\<exists>r' \<in> set (roles w). role_id r' = i \<and> Q r') \<longleftrightarrow> Q r" using r by metis
    then show ?thesis by (simp only: Some option.case)
  qed
  have refusal: "membership_refusal w u g = None \<longleftrightarrow>
      (\<forall>o1. g = Some o1 \<longrightarrow> o1 \<in> ids org_id (organizations w) \<and>
         (u, o1) \<in> membership_key ` set (organization_memberships w))"
    by (cases g) (simp_all add: membership_refusal_def)
  have key: "assignment_key (new_user_role u i g j t) = (u, i, g)" for j t
    by (simp add: assignment_key_def new_user_role_def)
  show ?thesis
    unfolding run role refusal [symmetric]
    by (cases "find (\<lambda>r. role_id r = i) (roles w)"; cases "membership_refusal w u g") (simp_all add: key)
qed

theorem assign_role_succeeds_iff_witness:
  "(\<exists>a w'. assign_role sample_env 2 5 (Some 3) 1 sample_graph = (Inr (), w') \<and>
      user_roles w' = user_roles sample_graph @ [a] \<and> assignment_key a = (2, 5, Some 3)) \<and>
   (\<exists>e w'. assign_role sample_env 1 5 (Some 3) 1 sample_graph = (Inl (Domain e), w'))"
  using assign_role_succeeds_iff [OF sample_graph_ok sample_collision_free, of 1 5 "Some 3" 2]
    assign_role_succeeds_iff [OF sample_graph_ok sample_collision_free, of 1 5 "Some 3" 1]
  by (auto simp: assignment_key_def membership_key_def)

text \<open>
  a global assignment to a user id that belongs to nobody is reported as
  \<open>RoleAlreadyAssignedError\<close>, although no assignment of that user exists.
\<close>

theorem assign_role_unknown_user:
  assumes "db_ok X w" and "collision_free X n" and "draws w + 4 \<le> n"
    and "actor \<in> ids usr_id (users w)" and "u \<notin> ids usr_id (users w)"
    and "r \<in> set (roles w)" and "role_organization_id r = None"
  shows "fst (assign_role X u (role_id r) None actor w) =
      Inl (Domain (RoleAlreadyAssignedError (assignment_message u (role_id r) None))) \<and>
    (\<forall>a \<in> set (user_roles w). ur_user_id a \<noteq> u)"
proof -
  have "distinct (map role_id (roles w))" using assms(1) by (simp add: db_ok_def keys_unique_def)
  from find_key_unique [OF this assms(6)]
  have "fst (assign_role X u (role_id r) None actor w) =
      Inl (Domain (RoleAlreadyAssignedError (assignment_message u (role_id r) None)))"
    using assms(5,7) by (simp add: assign_role_run [OF assms(1-4)] membership_refusal_def)
  moreover have "\<forall>a \<in> set (user_roles w). ur_user_id a \<noteq> u"
    using assms(1,5) by (auto simp: db_ok_def refs_ok_def)
  ultimately show ?thesis by simp
qed

theorem assign_role_unknown_user_witness:
  "fst (assign_role sample_env 99 4 None 1 sample_graph) =
     Inl (Domain (RoleAlreadyAssignedError (assignment_message 99 4 None)))"
  using assign_role_unknown_user [OF sample_graph_ok sample_collision_free, of 1 99 "hd (roles sample_graph)"]
  by simp

text \<open>
  an assignment takes effect at once. After it, the check allows an active user
  every permission attached to the role, in the scope of the assignment and, when it is
  global, in every scope.
\<close>

theorem assignment_takes_effect:
  assumes "db_ok X w" and "collision_free X n" and "draws w + 4 \<le> n"
    and "actor \<in> ids usr_id (users w)" and "assign_role X u i g actor w = (Inr (), w')"
    and "v \<in> set (users w)" and "usr_id v = u" and "usr_is_active v"
    and "p \<in> set (permissions w)" and "m \<in> set (role_permissions w)"
    and "rp_role_id m = i" and "rp_permission_id m = perm_id p" and "g = None \<or> g' = g"
  shows "authorize X u (perm_resource p) (perm_action p) g' w' =
    (Inr (decision True (perm_resource p) (perm_action p) g'), w')"
proof -
  note eff = assign_role_success [OF assms(1-5)]
  have ok: "db_ok X w'" using obeysD [OF authz_db_ok(2) assms(5)] assms(1) by (simp add: keeps_def)
  let ?a = "new_user_role u i g (gen_random_uuid X (draws w)) (db_now X (draws w + 1))"
  have "?a \<in> set (user_roles w')" by (simp add: eff(1))
  moreover have "organization_scope_filter g' ?a"
    using assms(13) by (cases g') (auto simp: new_user_role_def)
  ultimately have "grants w' u g' p"
    unfolding grants_def using assms(10-12)
    by (intro bexI [of _ ?a] conjI bexI [of _ m]) (simp_all add: eff(1) new_user_role_def)
  then have "may w' u (perm_resource p) (perm_action p) g'"
    unfolding may_def using assms(6-9) by (auto simp: eff(1))
  then show ?thesis by (simp add: authorize_run [OF ok])
qed

lemma sample_assign:
  "assign_role sample_env 2 4 None 1 sample_graph =
     (Inr (), snd (assign_role sample_env 2 4 None 1 sample_graph))"
  by (simp add: assign_role_run [OF sample_graph_ok sample_collision_free] membership_refusal_def
      assignment_key_def)

theorem assignment_takes_effect_witness:
  "fst (authorize sample_env 2 ''document'' ''edit'' (Some 3)
     (snd (assign_role sample_env 2 4 None 1 sample_graph))) =
   Inr (decision True ''document'' ''edit'' (Some 3))"
  using assignment_takes_effect [OF sample_graph_ok sample_collision_free _ _ sample_assign,
      of "sample_account 2 ''ann@x.io''" "hd (permissions sample_graph)"
        "hd (role_permissions sample_graph)" "Some 3"]
  by simp

text \<open>
  C23: a revocation takes effect at once. It removes exactly the assignment named, and
  the next check allows a user a permission exactly when some other assignment of theirs
  still grants it.
\<close>

theorem revocation_takes_effect:
  assumes "db_ok X w" and "collision_free X n" and "draws w + 2 \<le> n"
    and "actor \<in> ids usr_id (users w)" and "revoke_role X u i g actor w = (res, w')"
  shows "user_roles w' = filter (\<lambda>s. assignment_key s \<noteq> (u, i, g)) (user_roles w) \<and>
    authorize X v r a g' w' =
    (Inr (decision
       ((\<exists>x \<in> set (users w). usr_id x = v \<and> usr_is_active x) \<and>
        (\<exists>s \<in> set (user_roles w). ur_user_id s = v \<and> assignment_key s \<noteq> (u, i, g) \<and>
           (ur_organization_id s = None \<or> g' \<noteq> None \<and> ur_organization_id s = g') \<and>
           (\<exists>m \<in> set (role_permissions w). rp_role_id m = ur_role_id s \<and>
              (\<exists>p \<in> set (permissions w). perm_id p = rp_permission_id m \<and>
                 perm_resource p = r \<and> perm_action p = a)))) r a g'), w')"
proof -
  have ok: "db_ok X w'" using obeysD [OF authz_db_ok(3) assms(5)] assms(1) by (simp add: keeps_def)
  note result = revoke_role_result [OF assms]
  have "may w' v r a g' \<longleftrightarrow>
     (\<exists>x \<in> set (users w). usr_id x = v \<and> usr_is_active x) \<and>
     (\<exists>s \<in> set (user_roles w). ur_user_id s = v \<and> assignment_key s \<noteq> (u, i, g) \<and>
        (ur_organization_id s = None \<or> g' \<noteq> None \<and> ur_organization_id s = g') \<and>
        (\<exists>m \<in> set (role_permissions w). rp_role_id m = ur_role_id s \<and>
           (\<exists>p \<in> set (permissions w). perm_id p = rp_permission_id m \<and>
              perm_resource p = r \<and> perm_action p = a)))"
    unfolding may_iff result(2-5) set_filter by blast
  then show ?thesis by (simp add: authorize_run [OF ok] result(2))
qed

lemma sample_revoke:
  "revoke_role sample_env 1 4 None 1 sample_graph =
     (Inr True, snd (revoke_role sample_env 1 4 None 1 sample_graph))"
  by (simp add: revoke_role_run [OF sample_graph_ok sample_collision_free] assignment_key_def)

theorem revocation_takes_effect_witness:
  "fst (authorize sample_env 1 ''document'' ''edit'' None sample_graph) =
     Inr (decision True ''document'' ''edit'' None) \<and>
   fst (authorize sample_env 1 ''document'' ''edit'' None
     (snd (revoke_role sample_env 1 4 None 1 sample_graph))) =
     Inr (decision False ''document'' ''edit'' None)"
  using revocation_takes_effect [OF sample_graph_ok sample_collision_free _ _ sample_revoke,
      of 1 "''document''" "''edit''" None]
  by (simp add: authorize_run [OF sample_graph_ok] may_iff assignment_key_def)

text \<open>
  revoking an assignment that was just made reports success, restores the
  table of assignments, and leaves both events in the audit log.
\<close>

theorem revoke_undoes_assign:
  assumes "db_ok X w" and "collision_free X n" and "draws w + 6 \<le> n"
    and "actor \<in> ids usr_id (users w)" and "assign_role X u i g actor w = (Inr (), w1)"
  shows "\<exists>w2. revoke_role X u i g actor w1 = (Inr True, w2) \<and> user_roles w2 = user_roles w \<and>
    map log_action (audit_logs w2) = map log_action (audit_logs w) @ [ROLE_ASSIGNED, ROLE_REVOKED]"
proof -
  have n4: "draws w + 4 \<le> n" using assms(3) by simp
  note made = assign_role_success [OF assms(1,2) n4 assms(4,5)]
  have ok1: "db_ok X w1" using obeysD [OF authz_db_ok(2) assms(5)] assms(1) by (simp add: keeps_def)
  have key: "assignment_key (new_user_role u i g j t) = (u, i, g)" for j t
    by (simp add: assignment_key_def new_user_role_def)
  have "draws w1 + 2 \<le> n" "actor \<in> ids usr_id (users w1)" using assms(3,4) by (simp_all add: made(1))
  note run = revoke_role_run [OF ok1 assms(2) this]
  have "(u, i, g) \<in> assignment_key ` set (user_roles w1)" by (simp add: made(1) key)
  moreover have "filter (\<lambda>a. assignment_key a \<noteq> (u, i, g)) (user_roles w1) = user_roles w"
    using filter_no_key [OF made(2)] by (simp add: made(1) key)
  ultimately show ?thesis by (simp add: run) (simp add: made(1) log_event_def audit_row_def)
qed

theorem revoke_undoes_assign_witness:
  "\<exists>w2. revoke_role sample_env 2 4 None 1 (snd (assign_role sample_env 2 4 None 1 sample_graph)) =
     (Inr True, w2) \<and> user_roles w2 = user_roles sample_graph"
  using revoke_undoes_assign [OF sample_graph_ok sample_collision_free _ _ sample_assign] by auto

text \<open>
  C6: organizations are isolated. Neither assigning nor revoking a role within one
  organization, whatever its result, changes any user's decisions elsewhere: in another
  organization or outside of all of them.
\<close>

theorem tenants_isolated:
  assumes "db_ok X w" and "collision_free X n" and "draws w + 4 \<le> n"
    and "actor \<in> ids usr_id (users w)" and "g' \<noteq> Some g"
  shows "fst (authorize X v r a g' (snd (assign_role X u i (Some g) actor w))) = fst (authorize X v r a g' w) \<and>
    fst (authorize X v r a g' (snd (revoke_role X u i (Some g) actor w))) = fst (authorize X v r a g' w)"
proof -
  let ?w1 = "snd (assign_role X u i (Some g) actor w)" and ?w2 = "snd (revoke_role X u i (Some g) actor w)"
  have n: "draws w + 2 \<le> n" using assms(3) by simp
  have ok: "db_ok X ?w1" "db_ok X ?w2"
    using obeys_keepsD [OF authz_db_ok(2) assms(1)] obeys_keepsD [OF authz_db_ok(3) assms(1)] by auto
  have same1: "users ?w1 = users w \<and> permissions ?w1 = permissions w \<and>
      role_permissions ?w1 = role_permissions w"
    and new1: "(\<forall>s. organization_scope_filter g' s \<longrightarrow> s \<in> set (user_roles ?w1) \<longleftrightarrow> s \<in> set (user_roles w))"
    unfolding assign_role_run [OF assms(1-4)]
    using assms(5) by (auto simp: new_user_role_def scope_filter_iff split: option.split)
  obtain res w' where rv: "revoke_role X u i (Some g) actor w = (res, w')"
    by (cases "revoke_role X u i (Some g) actor w")
  note result = revoke_role_result [OF assms(1,2) n assms(4) rv]
  have "\<not> organization_scope_filter g' s" if "assignment_key s = (u, i, Some g)" for s
    using that assms(5) by (auto simp: assignment_key_def scope_filter_iff)
  with rv result(2) have new2: "\<forall>s. organization_scope_filter g' s \<longrightarrow>
      s \<in> set (user_roles ?w2) \<longleftrightarrow> s \<in> set (user_roles w)"
    by auto
  have "may ?w1 v r a g' = may w v r a g'"
    using same1 grants_other_scope [of g' ?w1 w] new1 by (simp add: may_def)
  then have "fst (authorize X v r a g' ?w1) = fst (authorize X v r a g' w)"
    by (simp add: authorize_run [OF ok(1)] authorize_run [OF assms(1)])
  moreover have "may ?w2 v r a g' = may w v r a g'"
    using rv result(3-5) grants_other_scope [of g' ?w2 w] new2 by (simp add: may_def)
  then have "fst (authorize X v r a g' ?w2) = fst (authorize X v r a g' w)"
    by (simp add: authorize_run [OF ok(2)] authorize_run [OF assms(1)])
  ultimately show ?thesis ..
qed

theorem tenants_isolated_witness:
  "fst (authorize sample_env 2 ''document'' ''edit'' None
     (snd (assign_role sample_env 2 4 (Some 3) 1 sample_graph))) =
   fst (authorize sample_env 2 ''document'' ''edit'' None sample_graph)"
  using tenants_isolated [OF sample_graph_ok sample_collision_free, of 1 None 3] by simp

text \<open>
  C32: the permission listing and the permission check agree. The listing names each
  permission once, holds every permission some assignment in force in the scope grants and
  no other, and for an active user the check allows exactly the listed pairs.
\<close>

theorem listing_agrees_with_check:
  assumes "db_ok X w" and "v \<in> set (users w)" and "usr_id v = u" and "usr_is_active v"
  shows "\<exists>ps. get_user_permissions X u g w = (Inr ps, w) \<and> distinct (map presp_id ps) \<and>
    presp_id ` set ps = {perm_id p | p s m. p \<in> set (permissions w) \<and> s \<in> set (user_roles w) \<and>
      m \<in> set (role_permissions w) \<and> ur_user_id s = u \<and> organization_scope_filter g s \<and>
      rp_role_id m = ur_role_id s \<and> rp_permission_id m = perm_id p} \<and>
    (\<forall>r a. authorize X u r a g w =
      (Inr (decision ((r, a) \<in> (\<lambda>p. (presp_resource p, presp_action p)) ` set ps) r a g), w))"
proof -
  let ?ps = "order_by (by_resource_action X) (remdups (permissions_of w u g))"
  have set_ps: "set ?ps = {p \<in> set (permissions w). grants w u g p}" by (simp add: set_permissions_of)
  have "distinct (map perm_id (permissions w))" using assms(1) by (simp add: db_ok_def keys_unique_def)
  then have "inj_on perm_id (set ?ps)" unfolding set_ps distinct_map by (auto intro: inj_on_subset)
  then have "distinct (map perm_id ?ps)" by (simp add: distinct_map)
  then have d: "distinct (map presp_id (map permission_response ?ps))"
    by (simp add: permission_response_def comp_def)
  have "perm_id ` set ?ps = {perm_id p | p s m. p \<in> set (permissions w) \<and> s \<in> set (user_roles w) \<and>
      m \<in> set (role_permissions w) \<and> ur_user_id s = u \<and> organization_scope_filter g s \<and>
      rp_role_id m = ur_role_id s \<and> rp_permission_id m = perm_id p}"
    unfolding set_ps grants_def by blast
  then have ids: "presp_id ` set (map permission_response ?ps) = \<dots>"
    by (simp add: permission_response_def image_image)
  have "may w u r a g \<longleftrightarrow> (r, a) \<in> (\<lambda>p. (presp_resource p, presp_action p)) ` set (map permission_response ?ps)" for r a
  proof -
    have "may w u r a g \<longleftrightarrow> (\<exists>p \<in> set ?ps. perm_resource p = r \<and> perm_action p = a)"
      unfolding set_ps may_def using assms(2-4) by blast
    also have "\<dots> \<longleftrightarrow> (r, a) \<in> (\<lambda>p. (perm_resource p, perm_action p)) ` set ?ps" by auto
    finally show ?thesis by (simp add: permission_response_def image_image)
  qed
  then have "\<forall>r a. authorize X u r a g w = (Inr (decision ((r, a) \<in>
      (\<lambda>p. (presp_resource p, presp_action p)) ` set (map permission_response ?ps)) r a g), w)"
    by (simp only: authorize_run [OF assms(1)] simp_thms)
  with d ids show ?thesis by (intro exI [of _ "map permission_response ?ps"] conjI get_user_permissions_run)
qed

theorem listing_agrees_with_check_witness:
  "\<exists>ps. get_user_permissions sample_env 1 (Some 3) sample_graph = (Inr ps, sample_graph) \<and>
     presp_id ` set ps = {6}"
  using listing_agrees_with_check [OF sample_graph_ok, of "sample_account 1 ''root@x.io''" 1 "Some 3"]
  by auto

text \<open>
  attaching a permission to a role reaches every active holder of the role at once,
  and detaching it again reports success and restores every decision.
\<close>

theorem permission_round_trip:
  assumes "db_ok X w" and "collision_free X n" and "draws w + 4 \<le> n"
    and "actor \<in> ids usr_id (users w)"
    and "assign_permission_to_role X i p actor w = (Inr (), w1)"
    and "q \<in> set (permissions w)" and "perm_id q = p"
    and "v \<in> set (users w)" and "usr_is_active v" and "s \<in> set (user_roles w)"
    and "ur_user_id s = usr_id v" and "ur_role_id s = i" and "organization_scope_filter g s"
  shows "fst (authorize X (usr_id v) (perm_resource q) (perm_action q) g w1) =
      Inr (decision True (perm_resource q) (perm_action q) g) \<and>
    (\<exists>w2. remove_permission_from_role X i p actor w1 = (Inr True, w2) \<and>
       role_permissions w2 = role_permissions w \<and>
       (\<forall>u r a g'. fst (authorize X u r a g' w2) = fst (authorize X u r a g' w)))"
proof -
  have n: "draws w + 2 \<le> n" using assms(3) by simp
  note run = assign_permission_run [OF assms(1,2) n assms(4)]
  let ?m = "\<lparr>rp_role_id = i, rp_permission_id = p\<rparr>"
  from assms(5) obtain r where r: "find (\<lambda>r. role_id r = i) (roles w) = Some r"
      "(i, p) \<notin> grant_key ` set (role_permissions w)"
    and w1: "w1 = log_event X PERMISSION_ASSIGNED_TO_ROLE (Some actor) (Some ''role'') (Some i)
        (role_organization_id r) (Some [(''permission_id'', JStr (uuid_str p))])
        (w\<lparr>role_permissions := role_permissions w @ [?m]\<rparr>)"
    unfolding run by (auto split: option.splits if_splits)
  have ok1: "db_ok X w1" using obeysD [OF authz_db_ok(4) assms(5)] assms(1) by (simp add: keeps_def)
  have key: "grant_key ?m = (i, p)" by (simp add: grant_key_def)
  have "grants w1 (usr_id v) g q"
    unfolding grants_def using assms(7,10-13) by (intro bexI [of _ s] conjI bexI [of _ ?m]) (simp_all add: w1)
  then have may1: "may w1 (usr_id v) (perm_resource q) (perm_action q) g"
    unfolding may_def using assms(6,8,9) by (auto simp: w1)
  have "draws w1 + 2 \<le> n" "actor \<in> ids usr_id (users w1)" using assms(3,4) by (simp_all add: w1)
  note run2 = remove_permission_role_run [OF ok1 assms(2) this, of i p]
  let ?w2 = "snd (remove_permission_from_role X i p actor w1)"
  have rm: "remove_permission_from_role X i p actor w1 = (Inr True, ?w2)"
    using r(1) by (simp add: run2) (simp add: w1 key)
  have kept: "role_permissions ?w2 = role_permissions w" "users ?w2 = users w"
    "permissions ?w2 = permissions w" "user_roles ?w2 = user_roles w"
    using r(1) filter_no_key [OF r(2)] by (simp_all add: run2) (simp_all add: w1 key)
  have ok2: "db_ok X ?w2" using obeys_keepsD [OF authz_db_ok(5) ok1] .
  have "fst (authorize X u r' a g' ?w2) = fst (authorize X u r' a g' w)" for u r' a g'
    using may_cong [of ?w2 w u r' a g'] kept by (simp add: authorize_run [OF ok2] authorize_run [OF assms(1)])
  with rm kept(1) may1 show ?thesis by (simp add: authorize_run [OF ok1]) (metis snd_conv)
qed

lemma sample_attach:
  "assign_permission_to_role sample_env 5 6 1 sample_staff =
     (Inr (), snd (assign_permission_to_role sample_env 5 6 1 sample_staff))"
  by (simp add: assign_permission_run [OF sample_staff_ok sample_collision_free] grant_key_def)

theorem permission_round_trip_witness:
  "fst (authorize sample_env 2 ''document'' ''edit'' (Some 3)
     (snd (assign_permission_to_role sample_env 5 6 1 sample_staff))) =
     Inr (decision True ''document'' ''edit'' (Some 3)) \<and>
   fst (remove_permission_from_role sample_env 5 6 1
     (snd (assign_permission_to_role sample_env 5 6 1 sample_staff))) = Inr True"
  using permission_round_trip [OF sample_staff_ok sample_collision_free _ _ sample_attach,
      of "hd (permissions sample_graph)" "sample_account 2 ''ann@x.io''"
        "new_user_role 2 5 (Some 3) 9 10" "Some 3"]
  by (auto simp: new_user_role_def)

text \<open>
  creating a role succeeds exactly when its organization, if one is named, exists
  and the name is free; the new role is an ordinary one, attached to nothing and assigned to
  nobody, so no decision changes, and a refusal leaves the roles alone and logs nothing.
\<close>

theorem create_role_grants_nothing:
  assumes "db_ok X w" and "collision_free X n" and "draws w + 4 \<le> n"
    and "actor \<in> ids usr_id (users w)" and "length name \<le> 100"
  shows "(if refers g (ids org_id (organizations w)) \<and> name \<notin> role_name ` set (roles w)
     then \<exists>x r w'. create_role X name d g actor w = (Inr x, w') \<and> roles w' = roles w @ [r] \<and>
       x = role_response r \<and> role_name r = name \<and> role_organization_id r = g \<and>
       \<not> role_is_system_role r \<and> role_id r \<notin> ur_role_id ` set (user_roles w') \<and>
       role_id r \<notin> rp_role_id ` set (role_permissions w')
     else \<exists>e w'. create_role X name d g actor w = (Inl (Domain e), w') \<and> roles w' = roles w \<and>
       audit_logs w' = audit_logs w) \<and>
    (\<forall>u r a g'. fst (authorize X u r a g' (snd (create_role X name d g actor w))) =
       fst (authorize X u r a g' w))"
proof -
  note run = create_role_run [OF assms, of d g]
  let ?w' = "snd (create_role X name d g actor w)" and ?i = "gen_random_uuid X (draws w)"
  have ok: "db_ok X ?w'" by (rule obeys_keepsD [OF authz_db_ok(1) assms(1)])
  have fresh: "?i \<notin> ids role_id (roles w)"
    using fresh_id [of X w n "draws w"] assms(1-3) by (auto simp: db_ok_def world_ids_def)
  then have unused: "?i \<notin> ur_role_id ` set (user_roles w)" "?i \<notin> rp_role_id ` set (role_permissions w)"
    using assms(1) by (auto simp: db_ok_def refs_ok_def)
  have "users ?w' = users w" "permissions ?w' = permissions w"
    "role_permissions ?w' = role_permissions w" "user_roles ?w' = user_roles w"
    by (simp_all add: run Let_def)
  from may_cong [OF this] have "fst (authorize X u r a g' ?w') = fst (authorize X u r a g' w)" for u r a g'
    by (simp add: authorize_run [OF ok] authorize_run [OF assms(1)])
  moreover have "(if refers g (ids org_id (organizations w)) \<and> name \<notin> role_name ` set (roles w)
     then \<exists>x r w'. create_role X name d g actor w = (Inr x, w') \<and> roles w' = roles w @ [r] \<and>
       x = role_response r \<and> role_name r = name \<and> role_organization_id r = g \<and>
       \<not> role_is_system_role r \<and> role_id r \<notin> ur_role_id ` set (user_roles w') \<and>
       role_id r \<notin> rp_role_id ` set (role_permissions w')
     else \<exists>e w'. create_role X name d g actor w = (Inl (Domain e), w') \<and> roles w' = roles w \<and>
       audit_logs w' = audit_logs w)"
    using unused by (simp add: run Let_def new_role_def)
  ultimately show ?thesis by blast
qed

theorem create_role_grants_nothing_witness:
  "\<exists>x r w'. create_role sample_env ''Reader'' None (Some 3) 1 sample_graph = (Inr x, w') \<and>
     roles w' = roles sample_graph @ [r] \<and> role_organization_id r = Some 3"
  using create_role_grants_nothing [OF sample_graph_ok sample_collision_free, of 1 "''Reader''" "Some 3" None]
  by (auto simp: ids_def)

end
