(* ===== verification/Repository_Properties.thy ===== *)
theory Repository_Properties
  imports Authorization_Runs
begin

text \<open>
  The repositories refine simple containers: role assignments and memberships are sets of
  keys, accounts a map from lower-cased emails. The proofs are the facts of the contracts
  that the repositories interpret.
\<close>

definition assignments :: "world \<Rightarrow> (uuid \<times> uuid \<times> uuid option) set" where
  "assignments w = assignment_key ` set (user_roles w)"

definition members :: "world \<Rightarrow> (uuid \<times> uuid) set" where
  "members w = membership_key ` set (organization_memberships w)"

text \<open>
  the table of role assignments refines a set of (user, role, scope) triples.
  \<open>assign\<close> inserts its triple and fails if it is present, \<open>revoke\<close> deletes exactly its
  triple and returns whether it was present, a second \<open>revoke\<close> finds nothing, and the
  invariant that makes this hold is kept by both.
\<close>

theorem assignments_refine_set:
  assumes "db_ok X w"
  shows "(case user_role_assign X u r g w of
       (Inr _, w') \<Rightarrow> (u, r, g) \<notin> assignments w \<and> assignments w' = insert (u, r, g) (assignments w)
     | (Inl _, w') \<Rightarrow> assignments w' = assignments w) \<and>
    (case user_role_revoke u r g w of
       (res, w') \<Rightarrow> res = Inr ((u, r, g) \<in> assignments w) \<and> assignments w' = assignments w - {(u, r, g)} \<and>
         fst (user_role_revoke u r g w') = Inr False) \<and>
    db_ok X (snd (user_role_assign X u r g w)) \<and> db_ok X (snd (user_role_revoke u r g w))"
proof -
  note added = assignment_store.add_ok [of X "(u, r, g)" w, simplified]
    and failed = assignment_store.add_failed [of X "(u, r, g)" w, simplified]
    and removed = assignment_store.remove_run [OF assms(1), of "(u, r, g)", simplified]
    and links = assignment_store.remove_links [OF assms(1), of "(u, r, g)", simplified]
    and twice = assignment_store.remove_twice [OF assms(1), of "(u, r, g)", simplified]
    and good = assignment_store.good_after_remove [OF assms(1), of "(u, r, g)", simplified]
  have add: "case user_role_assign X u r g w of
       (Inr _, w') \<Rightarrow> (u, r, g) \<notin> assignments w \<and> assignments w' = insert (u, r, g) (assignments w)
     | (Inl _, w') \<Rightarrow> assignments w' = assignments w"
    by (auto simp: assignments_def dest!: added failed split: prod.split sum.split)
  have "fst (user_role_revoke u r g (snd (user_role_revoke u r g w))) = Inr False"
    using twice by (auto simp: returned_def split: sum.splits)
  with removed links have "case user_role_revoke u r g w of
       (res, w') \<Rightarrow> res = Inr ((u, r, g) \<in> assignments w) \<and> assignments w' = assignments w - {(u, r, g)} \<and>
         fst (user_role_revoke u r g w') = Inr False"
    by (simp add: assignments_def split_def)
  with add good obeys_keepsD [OF user_role_assign_keeps assms(1)] show ?thesis by blast
qed

theorem assignments_refine_set_witness:
  "fst (user_role_revoke 1 4 None sample_graph) = Inr True \<and>
   assignments (snd (user_role_revoke 1 4 None sample_graph)) = {}"
  using assignments_refine_set [OF sample_graph_ok, of 1 4 None]
  by (auto simp: split_def assignments_def assignment_key_def)

text \<open>
  the table of memberships refines a set of (user, organization) pairs:
  \<open>is_member\<close> is membership in it, \<open>add_member\<close> inserts a pair that was absent,
  \<open>remove_member\<close> deletes exactly its pair and returns whether it was there, and neither
  changes the answer for another pair.
\<close>

theorem memberships_refine_set:
  assumes "db_ok X w"
  shows "is_member u g w = (Inr ((u, g) \<in> members w), w) \<and>
    (case membership_add X u g w of
       (Inr _, w') \<Rightarrow> (u, g) \<notin> members w \<and> members w' = insert (u, g) (members w) \<and> fst (is_member u g w') = Inr True
     | (Inl _, w') \<Rightarrow> members w' = members w) \<and>
    (case membership_remove u g w of
       (res, w') \<Rightarrow> res = Inr ((u, g) \<in> members w) \<and> members w' = members w - {(u, g)} \<and>
         fst (is_member u g w') = Inr False) \<and>
    ((v, h) \<noteq> (u, g) \<longrightarrow>
       fst (is_member v h (snd (membership_add X u g w))) = fst (is_member v h w))"
proof -
  note run = membership_store.member_run [OF assms(1)]
    and added = membership_store.add_ok [of X "(u, g)" w, simplified]
    and failed = membership_store.add_failed [of X "(u, g)" w, simplified]
    and member = membership_store.member_added [OF assms(1), of "(u, g)", simplified]
    and removed = membership_store.remove_run [OF assms(1), of "(u, g)", simplified]
    and links = membership_store.remove_links [OF assms(1), of "(u, g)", simplified]
    and gone = membership_store.member_removed [OF assms(1), of "(u, g)", simplified]
  have fstI: "fst p = Inr b" if "returned p = Some b" for p :: "(exn + bool) \<times> world" and b
    using that by (cases p) (auto simp: returned_def split: sum.splits)
  have add: "case membership_add X u g w of
       (Inr _, w') \<Rightarrow> (u, g) \<notin> members w \<and> members w' = insert (u, g) (members w) \<and> fst (is_member u g w') = Inr True
     | (Inl _, w') \<Rightarrow> members w' = members w"
  proof (cases "membership_add X u g w")
    case (Pair res w')
    show ?thesis
    proof (cases res)
      case (Inl e)
      with Pair failed show ?thesis by (simp add: members_def)
    next
      case (Inr x)
      with Pair added [of x w'] member [of x w', THEN fstI] show ?thesis by (auto simp: members_def)
    qed
  qed
  have remove: "case membership_remove u g w of
       (res, w') \<Rightarrow> res = Inr ((u, g) \<in> members w) \<and> members w' = members w - {(u, g)} \<and>
         fst (is_member u g w') = Inr False"
    using removed links fstI [OF gone] by (simp add: members_def split_def)
  have other: "fst (is_member v h (snd (membership_add X u g w))) = fst (is_member v h w)"
    if "(v, h) \<noteq> (u, g)"
  proof -
    have ok: "db_ok X (snd (membership_add X u g w))" by (rule obeys_keepsD [OF membership_add_keeps assms(1)])
    have "returned (is_member v h (snd (membership_add X u g w))) = returned (is_member v h w)"
      using membership_store.member_other [OF assms(1), of "(u, g)" _ _ "(v, h)"] that
      by (simp add: prod_eq_iff)
    then show ?thesis by (simp add: is_member_run [OF db_ok_memberships(1) [OF ok]] is_member_run [OF db_ok_memberships(1) [OF assms(1)]])
  qed
  from run [of "(u, g)"] add remove other show ?thesis by (simp add: members_def)
qed

theorem memberships_refine_set_witness:
  "fst (is_member 2 3 sample_graph) = Inr True \<and>
   fst (is_member 2 3 (snd (membership_remove 2 3 sample_graph))) = Inr False \<and>
   fst (is_member 2 3 (snd (membership_add sample_env 1 3 sample_graph))) = Inr True"
  using memberships_refine_set [OF sample_graph_ok, of 2 3 1 3] memberships_refine_set [OF sample_graph_ok, of 1 3 2 3]
  by (auto simp: split_def members_def membership_key_def)

text \<open>
  the user table refines a map from lower-cased emails: an account that has
  just been created is found under every capitalisation of its email, every other email
  answers as before, and a second creation under any capitalisation fails.
\<close>

theorem accounts_refine_map:
  assumes "db_ok X w" and "create_user X email password_hash w = (Inr u, w')"
    and "py_lower email' = py_lower email" and "py_lower other \<noteq> py_lower email"
  shows "user_get_by_email email' w' = (Inr (Some u), w') \<and>
    fst (user_get_by_email other w') = fst (user_get_by_email other w) \<and>
    returned (create_user X email' password_hash' w') = None"
proof -
  have d: "distinct (map usr_email (users w))" using assms(1) by (simp add: db_ok_def keys_unique_def)
  have run: "create_user X (fst (email, password_hash)) (snd (email, password_hash)) w = (Inr u, w')"
    using assms(2) by simp
  from user_store.lookup_created [OF d run] user_store.lookup_other [OF d run]
    user_store.create_twice [OF run, of "(email', password_hash')"] assms(3,4)
  show ?thesis by simp
qed

lemma sample_email_lower [simp]:
  "py_lower ''new@x.io'' = ''new@x.io''" "py_lower ''NEW@x.io'' = ''new@x.io''"
  "py_lower ''ann@x.io'' = ''ann@x.io''"
  by code_simp+

lemma sample_create:
  "create_user sample_env ''new@x.io'' ''h'' sample_graph =
     (Inr (new_user ''new@x.io'' ''h'' 9 10), snd (create_user sample_env ''new@x.io'' ''h'' sample_graph))"
  by (simp add: create_user_run [OF sample_graph_ok sample_collision_free] Let_def)

theorem accounts_refine_map_witness:
  "fst (user_get_by_email ''NEW@x.io'' (snd (create_user sample_env ''new@x.io'' ''h'' sample_graph))) =
     Inr (Some (new_user ''new@x.io'' ''h'' 9 10))"
  using accounts_refine_map [OF sample_graph_ok sample_create, of "''NEW@x.io''" "''ann@x.io''"] by simp

end
