(* ===== verification/Organization_Properties.thy ===== *)
theory Organization_Properties
  imports Organization_Service Authorization_Runs "HOL-Library.Multiset"
begin

text \<open>
  The properties of the organization service and of the audit log page: who becomes a
  member, what a removal leaves in force, and that the pages of the log cover it once, the
  newest event first.
\<close>

section \<open>Members\<close>

text \<open>
  adding a member succeeds exactly when the user and the organization exist and
  the pair is new; the member is then listed with their email, and removing them again
  restores the table. A refusal leaves the members alone and logs nothing.
\<close>

theorem membership_round_trip:
  assumes "db_ok X w" and "collision_free X n" and "draws w + 6 \<le> n"
    and "actor \<in> ids usr_id (users w)"
  shows "if u \<in> ids usr_id (users w) \<and> g \<in> ids org_id (organizations w) \<and>
       (u, g) \<notin> membership_key ` set (organization_memberships w)
     then \<exists>w1 ms w2. add_member X u g actor w = (Inr (), w1) \<and>
       list_members g w1 = (Inr ms, w1) \<and>
       (\<exists>v \<in> set (users w). usr_id v = u \<and>
          (u, usr_email v) \<in> (\<lambda>r. (member_user_id r, member_email r)) ` set ms) \<and>
       remove_member X u g actor w1 = (Inr True, w2) \<and>
       organization_memberships w2 = organization_memberships w
     else \<exists>e w1. add_member X u g actor w = (Inl (Domain e), w1) \<and>
       organization_memberships w1 = organization_memberships w \<and> audit_logs w1 = audit_logs w"
proof -
  have n4: "draws w + 4 \<le> n" using assms(3) by simp
  note add = add_member_run [OF assms(1,2) n4 assms(4), of u g]
  show ?thesis
  proof (cases "u \<in> ids usr_id (users w) \<and> g \<in> ids org_id (organizations w) \<and>
      (u, g) \<notin> membership_key ` set (organization_memberships w)")
    case True
    let ?w1 = "snd (add_member X u g actor w)"
    have run: "add_member X u g actor w = (Inr (), ?w1)" using True by (simp add: add)
    have ok1: "db_ok X ?w1" by (rule obeys_keepsD [OF orgs_db_ok(2) assms(1)])
    have key: "membership_key (new_membership u g j t) = (u, g)" for j t
      by (simp add: membership_key_def new_membership_def)
    obtain m where rows: "organization_memberships ?w1 = organization_memberships w @ [m]"
        "membership_key m = (u, g)" and same: "users ?w1 = users w" "organizations ?w1 = organizations w"
        and draws: "draws ?w1 + 2 \<le> n"
      using True assms(3) by (simp add: add key)
    obtain ms where ms: "list_members g ?w1 = (Inr ms, ?w1)" and
      set_ms: "(\<lambda>r. (member_user_id r, member_email r)) ` set ms =
        {(usr_id v, usr_email v) | v. v \<in> set (users w) \<and>
           (usr_id v, g) \<in> membership_key ` set (organization_memberships ?w1)}"
      using True listed_members [of g ?w1] same by (simp add: list_members_run [OF ok1])
    from True obtain v where v: "v \<in> set (users w)" "usr_id v = u" by (auto simp: ids_def)
    then have listed: "(u, usr_email v) \<in> (\<lambda>r. (member_user_id r, member_email r)) ` set ms"
      unfolding set_ms using rows by auto
    have "actor \<in> ids usr_id (users ?w1)" using assms(4) same by simp
    note remove = remove_member_run [OF ok1 assms(2) draws this, of u g]
    have "remove_member X u g actor ?w1 = (Inr True, snd (remove_member X u g actor ?w1))"
      using rows by (simp add: remove)
    moreover have "organization_memberships (snd (remove_member X u g actor ?w1)) = organization_memberships w"
      using rows True filter_no_key [of "(u, g)" membership_key "organization_memberships w"]
      by (simp add: remove)
    ultimately show ?thesis using True run ms v listed by auto
  next
    case False
    then show ?thesis by (auto simp: add)
  qed
qed

theorem membership_round_trip_witness:
  "\<exists>w1 w2. add_member sample_env 1 3 1 sample_graph = (Inr (), w1) \<and>
     remove_member sample_env 1 3 1 w1 = (Inr True, w2) \<and>
     organization_memberships w2 = organization_memberships sample_graph"
  using membership_round_trip [OF sample_graph_ok sample_collision_free, of 1 1 3]
  by (auto simp: ids_def membership_key_def)

text \<open>
  removing a member revokes nothing. The roles the user holds within the
  organization stay assigned, and every decision, in the organization's scope too, is as it
  was before.
\<close>

theorem removed_member_keeps_roles:
  assumes "db_ok X w" and "remove_member X u g actor w = (res, w')"
  shows "user_roles w' = user_roles w \<and>
    fst (authorize X v r a g' w') = fst (authorize X v r a g' w)"
proof -
  have ok: "db_ok X w'" using obeysD [OF orgs_db_ok(3) assms(2)] assms(1) by (simp add: keeps_def)
  have "graph w' = graph w" by (rule obeys_same_run [OF orgs_graph(3) assms(2)])
  moreover have "users w' = users w"
    using obeysD [OF orgs_accounts(3) assms(2)] by (simp add: accounts_kept_def)
  ultimately have "may w' v r a g' = may w v r a g'" "user_roles w' = user_roles w"
    by (simp_all add: graph_def may_def grants_def)
  then show ?thesis by (simp add: authorize_run [OF ok] authorize_run [OF assms(1)])
qed

lemma sample_graph_member:
  "remove_member sample_env 2 3 1 sample_graph =
     (Inr True, snd (remove_member sample_env 2 3 1 sample_graph))"
  by (simp add: remove_member_run [OF sample_graph_ok sample_collision_free] membership_key_def)

theorem removed_member_keeps_roles_witness:
  "fst (authorize sample_env 2 ''document'' ''edit'' (Some 3) (snd (remove_member sample_env 2 3 1 sample_graph))) =
   fst (authorize sample_env 2 ''document'' ''edit'' (Some 3) sample_graph)"
  using removed_member_keeps_roles [OF sample_graph_ok sample_graph_member] by blast

section \<open>The audit log page\<close>

text \<open>
  a page of the audit log holds at most \<open>limit\<close> events, all matching the filters,
  the newest first; its total counts every matching event whatever the page; and reading
  changes nothing.
\<close>

theorem audit_page_contents:
  assumes "0 \<le> limit" and "0 \<le> offset"
  shows "\<exists>p. list_events og ac a limit offset w = (Inr p, w) \<and>
    page_total p = int (card {k. k < length (audit_logs w) \<and> audit_matches og ac a (audit_logs w ! k)}) \<and>
    length (page_events p) = nat (min limit (max 0 (page_total p - offset))) \<and>
    (\<forall>e \<in> set (page_events p). e \<in> set (audit_logs w) \<and> audit_matches og ac a e) \<and>
    sorted_wrt (\<lambda>x y. log_occurred_at y \<le> log_occurred_at x) (page_events p)"
proof -
  let ?ls = "filter (audit_matches og ac a) (audit_logs w)"
  let ?page = "take (nat limit) (drop (nat offset) (order_by newest_first ?ls))"
  have "newest_first = (\<lambda>x y. log_occurred_at y \<le> log_occurred_at x)"
    by (simp add: newest_first_def fun_eq_iff)
  then have "sorted_wrt (\<lambda>x y. log_occurred_at y \<le> log_occurred_at x) ?page"
    using sorted_newest_first [of ?ls] by (simp add: sorted_wrt_take sorted_wrt_drop)
  moreover have "set ?page \<subseteq> set ?ls"
    using subset_trans [OF set_take_subset set_drop_subset] set_order_by by metis
  moreover have "length ?page = nat (min limit (max 0 (int (length ?ls) - offset)))"
    using assms by (simp add: min_def max_def) linarith
  moreover have "length ?ls = card {k. k < length (audit_logs w) \<and> audit_matches og ac a (audit_logs w ! k)}"
    by (simp add: length_filter_conv_card)
  ultimately show ?thesis by (auto simp: list_events_run [OF assms])
qed

text \<open>Three events, the last of another kind.\<close>

definition sample_log :: world where
  "sample_log =
     (let e = (\<lambda>a. log_event sample_env a (Some 1) None None None None)
      in e ROLE_CREATED (e USER_LOGOUT (e USER_LOGOUT sample_graph)))"

lemma sample_log_events [simp]:
  "map log_occurred_at (filter (audit_matches None None (Some USER_LOGOUT)) (audit_logs sample_log)) = [10, 12]"
  "map log_action (audit_logs sample_log) = [USER_LOGOUT, USER_LOGOUT, ROLE_CREATED]"
  by (simp_all add: sample_log_def log_event_def audit_row_def audit_matches_def audit_action_defs)

theorem audit_page_contents_witness:
  "\<exists>p. list_events None None (Some USER_LOGOUT) 1 1 sample_log = (Inr p, sample_log) \<and>
     length (page_events p) = nat (min 1 (max 0 (page_total p - 1)))"
  using audit_page_contents [of 1 1 None None "Some USER_LOGOUT" sample_log] by auto

lemma mset_order_by: "mset (order_by le xs) = mset xs"
proof -
  have "mset (insert_by le x ys) = add_mset x (mset ys)" for x ys by (induction ys) auto
  then show ?thesis by (induction xs) (simp_all add: order_by_def)
qed

lemma pages_concat:
  "concat (map (\<lambda>i. take k (drop (i * k) xs)) [0..<n]) = take (n * k) xs"
proof (induction n)
  case (Suc n)
  have "take (n * k + k) xs = take (n * k) xs @ take k (drop (n * k) xs)" by (rule take_add)
  with Suc show ?case by (simp add: add.commute)
qed simp

text \<open>
  when no two matching events carry the same time, paging through the log in steps
  of any positive size lists every matching event exactly once, each one older than the
  one before.
\<close>

theorem audit_pages_cover:
  assumes "0 < limit" and "int (length (audit_logs w)) \<le> int n * limit"
    and "distinct (map log_occurred_at (filter (audit_matches og ac a) (audit_logs w)))"
  shows "\<exists>es. es = concat (map (\<lambda>i. case fst (list_events og ac a limit (int i * limit) w) of
         Inr p \<Rightarrow> page_events p | Inl _ \<Rightarrow> []) [0..<n]) \<and>
    mset es = mset (filter (audit_matches og ac a) (audit_logs w)) \<and>
    sorted_wrt (\<lambda>x y. log_occurred_at y < log_occurred_at x) es"
proof -
  let ?ls = "filter (audit_matches og ac a) (audit_logs w)"
  let ?es = "order_by newest_first ?ls" and ?k = "nat limit"
  have page: "(case fst (list_events og ac a limit (int i * limit) w) of
      Inr p \<Rightarrow> page_events p | Inl _ \<Rightarrow> []) = take ?k (drop (i * ?k) ?es)" for i
    using assms(1) by (simp add: list_events_run nat_mult_distrib)
  have "int (length ?es) \<le> int (length (audit_logs w))" by simp
  also note assms(2)
  also have "int n * limit = int (n * ?k)" using assms(1) by simp
  finally have "length ?es \<le> n * ?k" by (simp only: of_nat_le_iff)
  then have "take (n * ?k) ?es = ?es" by simp
  then have es: "concat (map (\<lambda>i. case fst (list_events og ac a limit (int i * limit) w) of
      Inr p \<Rightarrow> page_events p | Inl _ \<Rightarrow> []) [0..<n]) = ?es"
    by (simp add: page pages_concat)
  have "mset (map log_occurred_at ?es) = mset (map log_occurred_at ?ls)" by (simp add: mset_order_by)
  then have d: "distinct (map log_occurred_at ?es)" using assms(3) mset_eq_imp_distinct_iff by blast
  have "sorted_wrt (\<lambda>x y. log_occurred_at y < log_occurred_at x) ?es"
    unfolding sorted_wrt_iff_nth_less
  proof (intro allI impI)
    fix i j assume ij: "i < j" "j < length ?es"
    then have "log_occurred_at (?es ! j) \<le> log_occurred_at (?es ! i)"
      using sorted_newest_first [of ?ls] by (auto simp: sorted_wrt_iff_nth_less newest_first_def)
    moreover have "log_occurred_at (?es ! i) \<noteq> log_occurred_at (?es ! j)"
      using d ij by (auto simp: distinct_conv_nth)
    ultimately show "log_occurred_at (?es ! j) < log_occurred_at (?es ! i)" by simp
  qed
  with es [symmetric] mset_order_by show ?thesis by (intro exI [of _ ?es] conjI)
qed

theorem audit_pages_cover_witness:
  "\<exists>es. mset es = mset (filter (audit_matches None None (Some USER_LOGOUT)) (audit_logs sample_log)) \<and>
     sorted_wrt (\<lambda>x y. log_occurred_at y < log_occurred_at x) es"
proof -
  have "length (audit_logs sample_log) = 3"
    by (simp add: sample_log_def log_event_def)
  with audit_pages_cover [of 1 sample_log 3 None None "Some USER_LOGOUT"] show ?thesis by auto
qed

end
