(* ===== verification/Concurrency.thy ===== *)
theory Concurrency
  imports Session_Runs
begin

text \<open>
  Requests that run at the same time. Each \<open>refresh\<close> and \<open>logout\<close> is a sequence of
  database statements, and between two of them the statements of other requests may run:
  the atomic pieces are the statements of \<open>auth_service.py\<close> and
  \<open>refresh_token_repository.py\<close>, the transaction of \<open>create_rotation_pair\<close> being one
  piece, since its conditional UPDATE locks the row until it commits. The reads that open a
  request are one piece as well, and an audit record is a piece of its own.
\<close>

section \<open>Requests in progress\<close>

text \<open>How a request has ended.\<close>

datatype outcome =
    Rotated uuid uuid
  | Rejected string
  | Reused "uuid option"
  | LoggedOut
  | Failed exn

text \<open>
  A request between two statements. \<open>Validated\<close>, \<open>Guarding\<close>, \<open>Rereading\<close> and \<open>Revoking\<close>
  carry the row as this request has read it. A walk carries the rows its session has
  loaded, and the iterations left.
\<close>

datatype event = Event string "uuid option" "string option" "uuid option" "dict option"

datatype agent =
    Refreshing string
  | Validated refresh_token
  | Walking "refresh_token list" nat uuid
  | Guarding "refresh_token list" nat refresh_token
  | Rereading "refresh_token list" nat refresh_token
  | LoggingOut string
  | Revoking refresh_token
  | Recording "event list" outcome
  | Done outcome

fun record_event :: "env \<Rightarrow> event \<Rightarrow> unit py" where
  "record_event X (Event action actor target_type target_id metadata) =
     and_then (audit_record X action actor target_type target_id None metadata) (\<lambda>_. pure ())"

text \<open>The events of a refresh of \<open>token\<close> and of a logout.\<close>

definition rejection_event :: "refresh_token \<Rightarrow> string \<Rightarrow> event" where
  "rejection_event token reason =
     Event REFRESH_TOKEN_REJECTED (Some (rt_user_id token)) (Some ''user'') (Some (rt_user_id token))
       (Some [(''reason'', JStr reason)])"

definition rotated_event :: "refresh_token \<Rightarrow> event" where
  "rotated_event token =
     Event REFRESH_TOKEN_ROTATED (Some (rt_user_id token)) (Some ''user'') (Some (rt_user_id token)) None"

definition logout_event :: "refresh_token \<Rightarrow> event" where
  "logout_event token =
     Event USER_LOGOUT (Some (rt_user_id token)) (Some ''user'') (Some (rt_user_id token)) None"

definition reuse_events :: "refresh_token \<Rightarrow> refresh_token option \<Rightarrow> event list" where
  "reuse_events token revoked_leaf =
     Event REFRESH_TOKEN_REUSE_DETECTED (Some (rt_user_id token)) (Some ''user'') (Some (rt_user_id token))
       (Some [(''presented_token_id'', JStr (uuid_str (rt_id token))),
              (''family_already_revoked'', JBool (revoked_leaf = None))]) #
     (case revoked_leaf of
        None \<Rightarrow> []
      | Some leaf \<Rightarrow>
          [Event REFRESH_TOKEN_FAMILY_REVOKED (Some (rt_user_id token)) (Some ''refresh_token'')
             (Some (rt_id leaf)) (Some [(''presented_token_id'', JStr (uuid_str (rt_id token)))])])"

text \<open>What is left once \<open>revoke_descendants\<close> has returned; \<open>session\<close> ends with the presented token.\<close>

definition reused :: "refresh_token list \<Rightarrow> refresh_token option \<Rightarrow> agent" where
  "reused session revoked_leaf =
     Recording (reuse_events (last session) revoked_leaf) (Reused (map_option rt_id revoked_leaf))"

definition refused :: "refresh_token \<Rightarrow> string \<Rightarrow> agent" where
  "refused token reason = Recording [rejection_event token reason] (Rejected reason)"

text \<open>
  What a query gives for a row the session has loaded before. SQLAlchemy's documented
  default is to keep the loaded object as it is (\<open>fresh = False\<close>); with
  \<open>populate_existing\<close> it would be overwritten (\<open>fresh = True\<close>).
\<close>

definition loaded :: "bool \<Rightarrow> refresh_token list \<Rightarrow> refresh_token \<Rightarrow> refresh_token" where
  "loaded fresh session r =
     (if fresh then r
      else case find (\<lambda>c. rt_id c = rt_id r) session of None \<Rightarrow> r | Some c \<Rightarrow> c)"

definition look_up :: "env \<Rightarrow> string \<Rightarrow> agent py" where
  "look_up X presented =
     and_then (token_get_by_hash (hash_refresh_token X presented)) (\<lambda>found.
     case found of
       None \<Rightarrow> pure (Recording [Event REFRESH_TOKEN_REJECTED None None None
                        (Some [(''reason'', JStr ''unknown_token'')])] (Rejected ''unknown_token''))
     | Some token \<Rightarrow>
         if rt_revoked_at token \<noteq> None then
           (case rt_replaced_by token of
              None \<Rightarrow> pure (refused token ''revoked_token'')
            | Some next_id \<Rightarrow> pure (Walking [token] MAX_FAMILY_WALK_STEPS next_id))
         else
           and_then (utc_now X) (\<lambda>now.
           if rt_expires_at token \<le> now then pure (refused token ''expired_token'')
           else
             and_then (user_get_by_id (rt_user_id token)) (\<lambda>owner.
             if (case owner of None \<Rightarrow> True | Some u \<Rightarrow> \<not> usr_is_active u)
             then pure (refused token ''inactive_or_deleted_owner'')
             else pure (Validated token))))"

definition rotate :: "env \<Rightarrow> refresh_token \<Rightarrow> agent py" where
  "rotate X token =
     and_then (generate_refresh_token X) (\<lambda>raw.
     and_then (refresh_token_expiry X) (\<lambda>expires_at.
     and_then (create_rotation_pair X token (hash_refresh_token X raw) expires_at) (\<lambda>new_token.
     case new_token of
       None \<Rightarrow> pure (refused token ''concurrent_rotation_lost'')
     | Some n \<Rightarrow> pure (Recording [rotated_event token] (Rotated (rt_id token) (rt_id n))))))"

text \<open>The next statement of a request.\<close>

fun act :: "env \<Rightarrow> bool \<Rightarrow> agent \<Rightarrow> agent py" where
  "act X fresh (Refreshing presented) = look_up X presented"
| "act X fresh (Validated token) = rotate X token"
| "act X fresh (Walking session 0 next_id) = pure (reused session None)"
| "act X fresh (Walking session (Suc k) next_id) =
     and_then (token_get_by_id next_id) (\<lambda>found.
     case found of
       None \<Rightarrow> pure (reused session None)
     | Some r \<Rightarrow>
         let candidate = loaded fresh session r in
         (case rt_replaced_by candidate of
            Some i \<Rightarrow> pure (Walking (candidate # session) k i)
          | None \<Rightarrow> pure (Guarding (candidate # session) k candidate)))"
| "act X fresh (Guarding session k candidate) =
     and_then (utc_now X) (\<lambda>now.
     and_then (update_tokens (unrevoked_row (rt_id candidate)) (set_revoked now)) (\<lambda>rowcount.
     if rowcount = 0 then pure (Rereading session k candidate)
     else pure (reused session (Some candidate))))"
| "act X fresh (Rereading session k candidate) =
     and_then (token_get_by_id (rt_id candidate)) (\<lambda>found.
     case found of
       None \<Rightarrow> pure (reused session None)
     | Some r \<Rightarrow>
         (case rt_replaced_by (loaded fresh session r) of
            None \<Rightarrow> pure (reused session None)
          | Some i \<Rightarrow> pure (Walking session k i)))"
| "act X fresh (LoggingOut presented) =
     and_then (token_get_by_hash (hash_refresh_token X presented)) (\<lambda>found.
     case found of
       None \<Rightarrow> pure (Done LoggedOut)
     | Some token \<Rightarrow>
         if rt_revoked_at token \<noteq> None then pure (Done LoggedOut) else pure (Revoking token))"
| "act X fresh (Revoking token) = and_then (revoke X token) (\<lambda>_. pure (Recording [logout_event token] LoggedOut))"
| "act X fresh (Recording [] r) = pure (Done r)"
| "act X fresh (Recording (e # es) r) =
     and_then (record_event X e) (\<lambda>_. pure (if es = [] then Done r else Recording es r))"
| "act X fresh (Done r) = pure (Done r)"

type_synonym config = "agent list \<times> world"

text \<open>A turn of request \<open>i\<close>, and a schedule of turns.\<close>

definition turn :: "env \<Rightarrow> bool \<Rightarrow> nat \<Rightarrow> config \<Rightarrow> config" where
  "turn X fresh i c =
     (case c of (agents, w) \<Rightarrow>
       (case act X fresh (agents ! i) w of
          (Inr a, w') \<Rightarrow> (agents[i := a], w')
        | (Inl e, w') \<Rightarrow> (agents[i := Done (Failed e)], w')))"

inductive interleaved :: "env \<Rightarrow> bool \<Rightarrow> config \<Rightarrow> config \<Rightarrow> bool"
  for X :: env and fresh :: bool and start :: config where
  begun: "interleaved X fresh start start"
| taken: "interleaved X fresh start c \<Longrightarrow> i < length (fst c) \<Longrightarrow> interleaved X fresh start (turn X fresh i c)"

fun run_schedule :: "env \<Rightarrow> bool \<Rightarrow> nat list \<Rightarrow> config \<Rightarrow> config" where
  "run_schedule X fresh [] c = c"
| "run_schedule X fresh (i # is) c = run_schedule X fresh is (turn X fresh i c)"

section \<open>Revocation is permanent\<close>

definition revoked_id :: "uuid \<Rightarrow> world \<Rightarrow> bool" where
  "revoked_id i w = (\<exists>t \<in> set (refresh_tokens w). rt_id t = i \<and> rt_revoked_at t \<noteq> None)"

text \<open>A token a request holds is a row: its id, owner and hash never change.\<close>

definition known :: "refresh_token \<Rightarrow> world \<Rightarrow> bool" where
  "known t w = ((rt_id t, rt_user_id t, rt_token_hash t) \<in> set (token_idents w))"

text \<open>What any statement does to the rows there are: they stay, and stay revoked.\<close>

definition settles :: "world \<Rightarrow> world \<Rightarrow> bool" where
  "settles w w' =
     ((\<forall>i. revoked_id i w \<longrightarrow> revoked_id i w') \<and> set (token_idents w) \<subseteq> set (token_idents w'))"

interpretation settling: history settles
  by unfold_locales (auto simp: settles_def)

lemma quiet_settles: "obeys quiet m \<Longrightarrow> obeys settles m"
  by (erule obeys_mono) (auto simp: quiet_iff settles_def revoked_id_def token_idents_def)

lemma settles_rows:
  assumes "\<And>t. t \<in> set (refresh_tokens w) \<Longrightarrow> \<exists>t' \<in> set (refresh_tokens w').
      rt_id t' = rt_id t \<and> rt_user_id t' = rt_user_id t \<and> rt_token_hash t' = rt_token_hash t \<and>
      (rt_revoked_at t \<noteq> None \<longrightarrow> rt_revoked_at t' \<noteq> None)"
  shows "settles w w'"
  unfolding settles_def revoked_id_def token_idents_def
proof (intro conjI allI impI subsetI)
  fix i assume "\<exists>t \<in> set (refresh_tokens w). rt_id t = i \<and> rt_revoked_at t \<noteq> None"
  then show "\<exists>t \<in> set (refresh_tokens w'). rt_id t = i \<and> rt_revoked_at t \<noteq> None" using assms by fastforce
next
  fix x assume "x \<in> set (map (\<lambda>t. (rt_id t, rt_user_id t, rt_token_hash t)) (refresh_tokens w))"
  then obtain t where t: "t \<in> set (refresh_tokens w)" "x = (rt_id t, rt_user_id t, rt_token_hash t)" by auto
  from assms [OF t(1)] obtain t' where "t' \<in> set (refresh_tokens w')" "x = (rt_id t', rt_user_id t', rt_token_hash t')"
    unfolding t(2) by auto
  then show "x \<in> set (map (\<lambda>t. (rt_id t, rt_user_id t, rt_token_hash t)) (refresh_tokens w'))"
    by auto
qed

lemma update_where_settles:
  assumes "\<And>t. rt_id (f t) = rt_id t" "\<And>t. rt_user_id (f t) = rt_user_id t"
    "\<And>t. rt_token_hash (f t) = rt_token_hash t" "\<And>t. rt_revoked_at t \<noteq> None \<Longrightarrow> rt_revoked_at (f t) \<noteq> None"
    and "set (update_where P f (refresh_tokens w)) \<subseteq> set (refresh_tokens w')"
  shows "settles w w'"
proof (rule settles_rows)
  fix t assume t: "t \<in> set (refresh_tokens w)"
  then have "(if P t then f t else t) \<in> set (refresh_tokens w')"
    using assms(5) by (auto simp: update_where_def)
  then show "\<exists>t' \<in> set (refresh_tokens w'). rt_id t' = rt_id t \<and> rt_user_id t' = rt_user_id t \<and>
      rt_token_hash t' = rt_token_hash t \<and> (rt_revoked_at t \<noteq> None \<longrightarrow> rt_revoked_at t' \<noteq> None)"
    using assms(1-4) by (intro bexI [where x = "if P t then f t else t"]) auto
qed

lemma update_tokens_settles: "obeys settles (update_tokens P (set_revoked now))"
proof (rule obeysI)
  fix w r w' assume "update_tokens P (set_revoked now) w = (r, w')"
  then have "refresh_tokens w' = update_where P (set_revoked now) (refresh_tokens w)" by (auto simp: run_simps)
  then show "settles w w'" by (intro update_where_settles [of "set_revoked now" P]) simp_all
qed

lemma revoke_settles: "obeys settles (revoke X t)"
  unfolding revoke_def
  by (intro settling.rules update_tokens_settles quiet_settles [OF utc_now_quiet]
      quiet_settles [OF token_refresh_quiet])

lemma create_rotation_pair_settles: "obeys settles (create_rotation_pair X old h e)"
proof (rule obeysI)
  fix w res w' assume "create_rotation_pair X old h e w = (res, w')"
  then show "settles w w'"
  proof (cases rule: create_rotation_pair_cases)
    case (won new ts)
    have "settles w (w\<lparr>refresh_tokens := ts\<rparr>)"
      by (rule update_where_settles [of "set_revoked (utc_clock X (draws w))" "unrevoked_row (rt_id old)"])
        (simp_all add: won(3))
    also have "settles (w\<lparr>refresh_tokens := ts\<rparr>) w'"
      by (rule update_where_settles [of "set_replaced (rt_id new)" "\<lambda>r. rt_id r = rt_id old"])
        (auto simp: won(6) update_where_append)
    finally (settling.trans) show ?thesis .
  qed (auto simp: settles_def revoked_id_def token_idents_def)
qed

lemma look_up_quiet: "obeys quiet (look_up X p)"
  unfolding look_up_def by (intro quieting.rules token_get_quiet utc_now_quiet user_get_quiet)

lemma record_event_frame:
  assumes "\<And>w n. f (w\<lparr>draws := n\<rparr>) = f w" and "\<And>w ls. f (w\<lparr>audit_logs := ls\<rparr>) = f w"
  shows "obeys (same f) (record_event X e)"
  by (cases e) (auto intro: framing.rules audit_record_same assms)

lemma tokens_settle: "obeys (same refresh_tokens) m \<Longrightarrow> obeys settles m"
  by (erule obeys_mono) (simp add: same_def settles_def revoked_id_def token_idents_def)

lemma record_event_settles: "obeys settles (record_event X e)"
  by (intro tokens_settle record_event_frame) simp_all

lemma record_event_ledger: "obeys (keeps (ledger_ok X)) (record_event X e)"
  by (cases e) (auto intro: keeping.rules audit_record_ledger)

lemma act_settles: "obeys settles (act X fresh a)"
proof (cases a)
  case (Walking session k i)
  then show ?thesis
    by (cases k) (auto simp: Let_def intro!: quiet_settles quieting.rules token_get_quiet)
next
  case (Validated t)
  then show ?thesis
    by (simp add: rotate_def)
      (intro settling.rules create_rotation_pair_settles quiet_settles [OF generate_refresh_token_quiet]
        quiet_settles [OF refresh_token_expiry_quiet])
next
  case (Guarding session k c)
  then show ?thesis
    by simp (intro settling.rules update_tokens_settles quiet_settles [OF utc_now_quiet])
next
  case (Revoking t)
  then show ?thesis by simp (intro settling.rules revoke_settles)
next
  case (Recording es r)
  then show ?thesis
    by (cases es) (simp_all add: settling.pure settling.rules record_event_settles)
qed (auto intro!: quiet_settles quieting.rules token_get_quiet look_up_quiet)

section \<open>The invariant\<close>

fun holds :: "agent \<Rightarrow> world \<Rightarrow> bool" where
  "holds (Validated t) w = known t w"
| "holds (Done (Rotated old new)) w = revoked_id old w"
| "holds (Recording es (Rotated old new)) w = revoked_id old w"
| "holds _ w = True"

fun rotated_token :: "agent \<Rightarrow> uuid option" where
  "rotated_token (Done (Rotated old new)) = Some old"
| "rotated_token (Recording es (Rotated old new)) = Some old"
| "rotated_token _ = None"

definition exclusive :: "agent list \<Rightarrow> bool" where
  "exclusive agents = (\<forall>i < length agents. \<forall>j < length agents. i \<noteq> j \<longrightarrow>
     rotated_token (agents ! i) \<noteq> None \<longrightarrow> rotated_token (agents ! i) \<noteq> rotated_token (agents ! j))"

definition orderly :: "env \<Rightarrow> config \<Rightarrow> bool" where
  "orderly X c = (ledger_ok X (snd c) \<and> (\<forall>a \<in> set (fst c). holds a (snd c)) \<and> exclusive (fst c))"

lemma holds_settles: "holds a w \<Longrightarrow> settles w w' \<Longrightarrow> holds a w'"
  by (cases "(a, w)" rule: holds.cases) (auto simp: settles_def known_def)

lemma known_held: "ledger_ok X w \<Longrightarrow> known t w \<Longrightarrow> held X t w"
proof -
  assume ok: "ledger_ok X w" and "known t w"
  then obtain s where s: "s \<in> set (refresh_tokens w)" "rt_id s = rt_id t" "rt_user_id s = rt_user_id t"
    by (auto simp: known_def token_idents_def)
  with held_row [OF ok s(1)] show ?thesis by (simp add: held_def)
qed

lemma rotate_held:
  "obeys (keeps (held X t)) (rotate X t)"
  unfolding rotate_def
  by (intro keeping.rules quiet_keeps_held generate_refresh_token_quiet refresh_token_expiry_quiet
      create_rotation_pair_held)

lemma update_unrevoked_ledger: "obeys (keeps (ledger_ok X)) (update_tokens P (set_revoked now))"
  by (simp add: obeys_def keeps_def run_simps ledger_ok_revoke_rows)

lemma act_ledger:
  assumes "ledger_ok X w" and "holds a w"
  shows "ledger_ok X (snd (act X fresh a w))"
proof (cases a)
  case (Validated t)
  with assms known_held have "held X t w" by simp
  from obeys_keepsD [OF rotate_held this] show ?thesis by (simp add: Validated held_def)
next
  case (Guarding session k c)
  have "obeys (keeps (ledger_ok X)) (act X fresh a)"
    unfolding Guarding act.simps
    by (intro keeping.rules update_unrevoked_ledger quiet_keeps_ledger utc_now_quiet)
  from obeys_keepsD [OF this assms(1)] show ?thesis .
next
  case (Revoking t)
  have "obeys (keeps (ledger_ok X)) (act X fresh a)"
    unfolding Revoking act.simps by (intro keeping.rules revoke_ledger)
  from obeys_keepsD [OF this assms(1)] show ?thesis .
next
  case (Walking session k i)
  have "obeys quiet (act X fresh a)"
    unfolding Walking by (cases k) (auto simp: Let_def intro!: quieting.rules token_get_quiet)
  from obeys_keepsD [OF quiet_keeps_ledger [OF this] assms(1)] show ?thesis .
next
  case (Rereading session k c)
  have "obeys quiet (act X fresh a)"
    unfolding Rereading act.simps by (intro quieting.rules token_get_quiet)
  from obeys_keepsD [OF quiet_keeps_ledger [OF this] assms(1)] show ?thesis .
next
  case (Refreshing p)
  from obeys_keepsD [OF quiet_keeps_ledger [OF look_up_quiet] assms(1)] show ?thesis by (simp add: Refreshing)
next
  case (LoggingOut p)
  have "obeys quiet (act X fresh a)"
    unfolding LoggingOut act.simps by (intro quieting.rules token_get_quiet)
  from obeys_keepsD [OF quiet_keeps_ledger [OF this] assms(1)] show ?thesis .
next
  case (Recording es r)
  have "obeys (keeps (ledger_ok X)) (act X fresh a)"
    unfolding Recording by (cases es) (simp_all add: keeping.rules record_event_ledger)
  from obeys_keepsD [OF this assms(1)] show ?thesis .
next
  case (Done r)
  with assms(1) show ?thesis by (simp add: run_simps)
qed

text \<open>What a look-up hands on is a row; a rotation has found its row unrevoked.\<close>

lemma look_up_known:
  assumes "look_up X p w = (Inr (Validated t), w')"
  shows "t \<in> set (refresh_tokens w')"
proof -
  have "refresh_tokens w' = refresh_tokens w"
    using obeysD [OF look_up_quiet assms] by (auto simp: quiet_iff)
  moreover have "t \<in> set (refresh_tokens w)"
    using assms
    by (auto simp: look_up_def refused_def run_simps token_get_by_hash_def scalar_one_or_none_def utc_now_def
        split: list.splits option.splits if_splits sum.splits prod.splits dest: filter_eq_ConsD)
  ultimately show ?thesis by simp
qed
lemma rotate_run:
  "rotate X t w = (case create_rotation_pair X t (hash_refresh_token X (token_urlsafe X (draws w)))
        (utc_clock X (Suc (draws w)) + days (refresh_token_ttl_days (config X)))
        (w\<lparr>draws := Suc (Suc (draws w))\<rparr>) of
      (Inr None, w') \<Rightarrow> (Inr (refused t ''concurrent_rotation_lost''), w')
    | (Inr (Some n), w') \<Rightarrow> (Inr (Recording [rotated_event t] (Rotated (rt_id t) (rt_id n))), w')
    | (Inl e, w') \<Rightarrow> (Inl e, w'))"
  by (simp add: rotate_def generate_refresh_token_def refresh_token_expiry_def utc_now_def run_simps
      split: prod.split sum.split option.split)

lemma rotate_won:
  assumes "rotate X t w = (Inr b, w')" and "ledger_ok X w" and "rotated_token b = Some old"
  shows "old = rt_id t" and "\<not> revoked_id old w" and "revoked_id old w'"
proof -
  let ?u = "w\<lparr>draws := Suc (Suc (draws w))\<rparr>"
  let ?h = "hash_refresh_token X (token_urlsafe X (draws w))"
  let ?e = "utc_clock X (Suc (draws w)) + days (refresh_token_ttl_days (config X))"
  from assms(1,3) obtain n where c: "create_rotation_pair X t ?h ?e ?u = (Inr (Some n), w')"
    and b: "b = Recording [rotated_event t] (Rotated (rt_id t) (rt_id n))"
    by (auto simp: rotate_run refused_def split: prod.splits sum.splits option.splits)
  from b assms(3) show old: "old = rt_id t" by simp
  have d: "distinct (map rt_id (refresh_tokens w))"
    using assms(2) by (intro db_ok_token_ids ledger_okD)
  from c have "\<not> revoked_id old w \<and> revoked_id old w'"
  proof (cases rule: create_rotation_pair_cases)
    case (won new ts)
    from won(2) have "\<exists>s \<in> set (refresh_tokens w). unrevoked_row (rt_id t) s"
      by (simp add: filter_empty_conv)
    then obtain s where s: "s \<in> set (refresh_tokens w)" "rt_id s = old" "rt_revoked_at s = None"
      unfolding unrevoked_row_def old by blast
    have unrevoked: "\<not> revoked_id old w"
    proof
      assume "revoked_id old w"
      then obtain s' where "s' \<in> set (refresh_tokens w)" "rt_id s' = old" "rt_revoked_at s' \<noteq> None"
        by (auto simp: revoked_id_def)
      with s distinct_map_eqD [OF d, of s s'] show False by simp
    qed
    let ?s = "set_revoked (utc_clock X (draws ?u)) s"
    have "?s \<in> set ts"
      unfolding won(3) update_where_set using s by (auto simp: unrevoked_row_def old)
    then have "set_replaced (rt_id new) ?s \<in> set (refresh_tokens w')"
      using s(2) by (auto simp: won(6) update_where_def old)
    then have "revoked_id old w'"
      using s(2) by (auto simp: revoked_id_def intro!: bexI [of _ "set_replaced (rt_id new) ?s"])
    with unrevoked show ?thesis ..
  qed simp_all
  then show "\<not> revoked_id old w" and "revoked_id old w'" by auto
qed

lemma act_result:
  assumes run: "act X fresh a w = (Inr b, w')" and ok: "ledger_ok X w" "holds a w"
  shows "holds b w'" and "rotated_token b = Some old \<Longrightarrow> rotated_token a = Some old \<or> \<not> revoked_id old w"
proof -
  have "holds b w' \<and> (rotated_token b = Some old \<longrightarrow> rotated_token a = Some old \<or> \<not> revoked_id old w)"
  proof (cases a)
    case (Refreshing p)
    with run have l: "look_up X p w = (Inr b, w')" by simp
    then have "(\<exists>es r. b = Recording es (Rejected r)) \<or> (\<exists>t. b = Validated t) \<or> (\<exists>s k i. b = Walking s k i)"
      by (auto simp: look_up_def run_simps refused_def split: prod.splits sum.splits option.splits if_splits)
    moreover have "holds b w'" if "b = Validated t" for t
      using look_up_known [OF l [unfolded that]] by (auto simp: that known_def token_idents_def)
    ultimately show ?thesis by fastforce
  next
    case (Validated t)
    with run have r: "rotate X t w = (Inr b, w')" by simp
    then obtain es o1 where b: "b = Recording es o1"
        "o1 = Rejected ''concurrent_rotation_lost'' \<or> (\<exists>n. o1 = Rotated (rt_id t) n)"
      by (auto simp: rotate_run refused_def split: prod.splits sum.splits option.splits)
    then show ?thesis using rotate_won [OF r ok(1)] by auto
  next
    case (Walking s k i)
    with run show ?thesis
      by (cases k) (auto simp: run_simps Let_def reused_def split: prod.splits sum.splits option.splits)
  next
    case (Recording es r)
    with run ok(2) record_event_settles [of X "hd es"] show ?thesis
      by (cases es; cases r)
        (auto simp: run_simps settles_def dest: obeysD split: prod.splits sum.splits if_splits)
  next
    case (Done r)
    with run ok(2) show ?thesis by (cases r) (auto simp: run_simps)
  qed (use run in \<open>auto simp: run_simps utc_now_def reused_def split: prod.splits sum.splits option.splits if_splits\<close>)
  then show "holds b w'"
    and "rotated_token b = Some old \<Longrightarrow> rotated_token a = Some old \<or> \<not> revoked_id old w" by auto
qed

lemma holds_rotated: "rotated_token a = Some old \<Longrightarrow> holds a w \<Longrightarrow> revoked_id old w"
  by (cases a rule: rotated_token.cases) auto

lemma exclusiveI:
  assumes "exclusive agents" and "\<And>j. j < length agents \<Longrightarrow> j \<noteq> i \<Longrightarrow> rotated_token b \<noteq> None \<Longrightarrow>
      rotated_token (agents ! j) \<noteq> rotated_token b"
  shows "exclusive (agents[i := b])"
  unfolding exclusive_def
proof (intro allI impI)
  fix j k
  assume "j < length (agents[i := b])" "k < length (agents[i := b])" "j \<noteq> k"
    "rotated_token (agents[i := b] ! j) \<noteq> None"
  then show "rotated_token (agents[i := b] ! j) \<noteq> rotated_token (agents[i := b] ! k)"
    using assms(1) assms(2) [of j] assms(2) [of k] unfolding exclusive_def
    by (cases "j = i"; cases "k = i") (auto simp: nth_list_update)
qed

lemma turn_orderly:
  assumes "orderly X c" and "i < length (fst c)"
  shows "orderly X (turn X fresh i c)"
proof (cases c)
  case (Pair agents w)
  obtain res w' where run: "act X fresh (agents ! i) w = (res, w')" by (cases "act X fresh (agents ! i) w")
  define b where "b = (case res of Inr a \<Rightarrow> a | Inl e \<Rightarrow> Done (Failed e))"
  have turned: "turn X fresh i c = (agents[i := b], w')"
    by (cases res) (simp_all add: turn_def Pair run b_def)
  have i: "i < length agents" and ok: "ledger_ok X w" and held: "\<And>a. a \<in> set agents \<Longrightarrow> holds a w"
    and ex: "exclusive agents"
    using assms by (auto simp: orderly_def Pair)
  from i held have own: "holds (agents ! i) w" by simp
  have s: "settles w w'" using obeysD [OF act_settles run] .
  have ledger: "ledger_ok X w'" using act_ledger [OF ok own, of fresh] run by simp
  have b: "holds b w'"
    by (cases res) (use act_result(1) [OF _ ok own] run in \<open>auto simp: b_def\<close>)
  have new: "rotated_token (agents ! i) = Some old \<or> \<not> revoked_id old w" if "rotated_token b = Some old" for old
    by (cases res) (use act_result(2) [OF _ ok own, of fresh b w' old] run that in \<open>auto simp: b_def\<close>)
  have "rotated_token (agents ! j) \<noteq> rotated_token b"
    if j: "j < length agents" "j \<noteq> i" "rotated_token b \<noteq> None" for j
  proof
    assume same: "rotated_token (agents ! j) = rotated_token b"
    from j(3) obtain old where old: "rotated_token b = Some old" by auto
    with same have "revoked_id old w" using holds_rotated held j(1) by auto
    with new [OF old] have "rotated_token (agents ! i) = Some old" by simp
    with same old ex j i show False unfolding exclusive_def by (metis option.distinct(1))
  qed
  then have "exclusive (agents[i := b])" by (rule exclusiveI [OF ex])
  moreover have "\<forall>a \<in> set (agents[i := b]). holds a w'"
    using b held holds_settles [OF _ s] set_update_subset_insert [of agents i b] by blast
  ultimately show ?thesis using ledger by (simp add: orderly_def turned)
qed

lemma interleaved_orderly:
  assumes "interleaved X fresh start c" and "orderly X start"
  shows "orderly X c"
  using assms(1) by induction (simp_all add: assms(2) turn_orderly)

section \<open>Every request ends\<close>

text \<open>A bound on the turns a request still needs.\<close>

fun turns_left :: "agent \<Rightarrow> nat" where
  "turns_left (Refreshing p) = 3 * MAX_FAMILY_WALK_STEPS + 3"
| "turns_left (Validated t) = 2"
| "turns_left (Walking session k i) = 3 * k + 2"
| "turns_left (Guarding session k c) = 3 * k + 4"
| "turns_left (Rereading session k c) = 3 * k + 3"
| "turns_left (LoggingOut p) = 3"
| "turns_left (Revoking t) = 2"
| "turns_left (Recording es r) = max 1 (length es)"
| "turns_left (Done r) = 0"

lemma act_progress:
  "act X fresh a w = (Inr b, w') \<Longrightarrow> turns_left b \<le> turns_left a - 1"
proof (cases a)
  case (Walking s k i)
  then show "act X fresh a w = (Inr b, w') \<Longrightarrow> ?thesis"
    by (cases k) (auto simp: run_simps Let_def reused_def reuse_events_def
        split: prod.splits sum.splits option.splits)
next
  case (Recording es r)
  then show "act X fresh a w = (Inr b, w') \<Longrightarrow> ?thesis"
    by (cases es) (auto simp: run_simps Suc_le_eq split: prod.splits sum.splits if_splits)
qed (auto simp: look_up_def rotate_run run_simps utc_now_def MAX_FAMILY_WALK_STEPS_def refused_def
    reused_def reuse_events_def split: prod.splits sum.splits option.splits if_splits)

lemma turns_left_Done: "turns_left a = 0 \<longleftrightarrow> (\<exists>r. a = Done r)"
  by (cases a) simp_all

lemma turn_progress:
  "i < length (fst c) \<Longrightarrow> turns_left (fst (turn X fresh i c) ! i) \<le> turns_left (fst c ! i) - 1"
  by (cases c; cases "act X fresh (fst c ! i) (snd c)")
    (auto simp: turn_def dest!: act_progress split: sum.split)

lemma turn_others:
  "length (fst (turn X fresh i c)) = length (fst c)"
  "j \<noteq> i \<Longrightarrow> fst (turn X fresh i c) ! j = fst c ! j"
  by (auto simp: turn_def split: prod.split sum.split)

lemma schedule_progress:
  "i < length (fst c) \<Longrightarrow>
   turns_left (fst (run_schedule X fresh is c) ! i) \<le> turns_left (fst c ! i) - count_list is i"
proof (induction "is" arbitrary: c)
  case (Cons j js)
  note IH = Cons.IH [of "turn X fresh j c"]
  show ?case
    using IH Cons.prems turn_progress [where X = X and fresh = fresh and i = j and c = c] turn_others(1) [of X fresh j c] turn_others(2) [of i j X fresh c]
    by (cases "j = i") auto
qed simp

lemma schedule_interleaved:
  "interleaved X fresh start c \<Longrightarrow> set is \<subseteq> {..<length (fst c)} \<Longrightarrow> interleaved X fresh start (run_schedule X fresh is c)"
proof (induction "is" arbitrary: c)
  case (Cons i js)
  have "interleaved X fresh start (turn X fresh i c)"
    using Cons.prems by (intro interleaved.taken) auto
  with Cons.IH [of "turn X fresh i c"] Cons.prems(2) show ?case by (simp add: turn_others)
qed simp

end
