(* ===== verification/Concurrency_Properties.thy ===== *)
theory Concurrency_Properties
  imports Concurrency Session_Example
begin

text \<open>
  The properties of concurrent refreshes and logouts: what no interleaving can break, that
  every request ends, and two interleavings in which a session outlives the request that
  should have ended it.
\<close>

text \<open>Requests that have not started.\<close>

fun waiting :: "agent \<Rightarrow> bool" where
  "waiting (Refreshing _) = True"
| "waiting (LoggingOut _) = True"
| "waiting _ = False"

lemma waiting_orderly:
  assumes "ledger_ok X w" and "\<forall>a \<in> set agents. waiting a"
  shows "orderly X (agents, w)"
proof -
  have "holds a w \<and> rotated_token a = None" if "waiting a" for a using that by (cases a) auto
  with assms show ?thesis by (auto simp: orderly_def exclusive_def)
qed

text \<open>
  C5: however the statements of concurrent refreshes and logouts interleave, no refresh
  token is rotated by two of them, and the rotation chains keep their shape: no token ever
  has two successors or two predecessors.
\<close>

theorem rotated_at_most_once:
  assumes "ledger_ok X w" and "\<forall>a \<in> set agents. waiting a"
    and "interleaved X fresh (agents, w) (agents', w')"
  shows "ledger_ok X w' \<and>
    (\<forall>i j old new new'. i < length agents' \<and> j < length agents' \<and>
       agents' ! i = Done (Rotated old new) \<and> agents' ! j = Done (Rotated old new') \<longrightarrow> i = j)"
proof -
  from interleaved_orderly [OF assms(3) waiting_orderly [OF assms(1,2)]]
  have "ledger_ok X w'" and "exclusive agents'" by (simp_all add: orderly_def)
  then show ?thesis by (fastforce simp: exclusive_def)
qed

theorem rotated_at_most_once_witness:
  "ledger_ok sample_env (snd (run_schedule sample_env False [0, 1, 0, 1]
     ([Refreshing '''', Refreshing ''''], chain_world 0)))"
proof -
  let ?s = "([Refreshing '''', Refreshing ''''], chain_world 0)"
  let ?c = "run_schedule sample_env False [0, 1, 0, 1] ?s"
  have "interleaved sample_env False ?s (fst ?c, snd ?c)"
    unfolding prod.collapse by (rule schedule_interleaved [OF interleaved.begun]) simp
  from rotated_at_most_once [OF chain_start_ok(1) _ this] show ?thesis by simp
qed

text \<open>
  C36: every request ends. Whatever the others do in between, 78 turns are enough for a
  refresh, a family walk that loses every race included.
\<close>

theorem every_request_ends:
  assumes "i < length agents" and "waiting (agents ! i)" and "78 \<le> count_list schedule i"
  shows "\<exists>r. fst (run_schedule X fresh schedule (agents, w)) ! i = Done r"
proof -
  have "turns_left (agents ! i) \<le> 78"
    using assms(2) by (cases "agents ! i") (auto simp: MAX_FAMILY_WALK_STEPS_def)
  with schedule_progress [of i "(agents, w)" X fresh schedule] assms(1,3) show ?thesis
    by (simp add: turns_left_Done [symmetric])
qed

lemma count_replicate [simp]: "count_list (replicate n x) x = n"
  by (induction n) simp_all

theorem every_request_ends_witness:
  "\<exists>r. fst (run_schedule sample_env False (replicate 78 0) ([Refreshing ''''], chain_world 0)) ! 0 = Done r"
  by (rule every_request_ends) simp_all

section \<open>The last steps\<close>

text \<open>An event the log accepts, and the turns that record what a request still has to.\<close>

fun acceptable :: "world \<Rightarrow> event \<Rightarrow> bool" where
  "acceptable w (Event action actor target_type target_id metadata) =
     (refers actor (ids usr_id (users w)) \<and> length action \<le> 100 \<and> opt_length_le target_type 100)"

lemma acceptable_events [simp]:
  "acceptable w (rotated_event t) \<longleftrightarrow> rt_user_id t \<in> ids usr_id (users w)"
  "acceptable w (logout_event t) \<longleftrightarrow> rt_user_id t \<in> ids usr_id (users w)"
  "list_all (acceptable w) (reuse_events t leaf) \<longleftrightarrow> rt_user_id t \<in> ids usr_id (users w)"
  by (auto simp: rotated_event_def logout_event_def reuse_events_def split: option.split)

lemma reuse_length:
  "length (reuse_events t None) = 1" "length (reuse_events t (Some leaf)) = 2" "reuse_events t l \<noteq> []"
  by (simp_all add: reuse_events_def)

lemma acceptable_users: "users w' = users w \<Longrightarrow> acceptable w' e = acceptable w e"
  by (cases e) simp

lemma record_event_run:
  assumes "ledger_ok X w" and "collision_free X n" and "draws w < n" and "acceptable w e"
  shows "\<exists>w'. record_event X e w = (Inr (), w') \<and> ledger_ok X w' \<and> refresh_tokens w' = refresh_tokens w \<and>
    users w' = users w \<and> draws w' = draws w + 2"
proof (cases e)
  case (Event action actor tt tid md)
  with assms(4) have run: "record_event X e w = (Inr (), log_event X action actor tt tid None md w)"
    by (simp add: run_simps audit_record_run [OF ledger_okD(1) [OF assms(1)] assms(2,3)])
  then have "ledger_ok X (log_event X action actor tt tid None md w)"
    using obeysD [OF record_event_ledger run] assms(1) by (simp add: keeps_def)
  with run show ?thesis by simp
qed

lemma run_schedule_append:
  "run_schedule X fresh (is @ js) c = run_schedule X fresh js (run_schedule X fresh is c)"
  by (induction "is" arbitrary: c) simp_all

lemma finish_recording:
  assumes "ledger_ok X w" and "collision_free X n" and "draws w + 2 * length es \<le> n"
    and "i < length agents" and "agents ! i = Recording es r" and "es \<noteq> []" and "list_all (acceptable w) es"
  shows "\<exists>w'. run_schedule X fresh (replicate (length es) i) (agents, w) = (agents[i := Done r], w') \<and>
    ledger_ok X w' \<and> refresh_tokens w' = refresh_tokens w \<and> users w' = users w \<and>
    draws w' = draws w + 2 * length es"
  using assms
proof (induction es arbitrary: agents w)
  case (Cons e es)
  then obtain w1 where w1: "record_event X e w = (Inr (), w1)" "ledger_ok X w1"
      "refresh_tokens w1 = refresh_tokens w" "users w1 = users w" "draws w1 = draws w + 2"
    using record_event_run [of X w n e] by auto
  show ?case
  proof (cases "es = []")
    case True
    with Cons.prems(5) w1 show ?thesis by (simp add: turn_def run_simps)
  next
    case False
    have one: "turn X fresh i (agents, w) = (agents[i := Recording es r], w1)"
      using Cons.prems(5) w1(1) False by (simp add: turn_def run_simps)
    have "list_all (acceptable w1) es"
      using Cons.prems(7) acceptable_users [OF w1(4)] by (simp add: list_all_iff)
    with Cons.IH [of w1 "agents[i := Recording es r]"] Cons.prems(2-4) w1 False
    obtain w2 where "run_schedule X fresh (replicate (length es) i) (agents[i := Recording es r], w1) =
        (agents[i := Done r], w2)" "ledger_ok X w2" "refresh_tokens w2 = refresh_tokens w"
        "users w2 = users w" "draws w2 = draws w + 2 + 2 * length es"
      by auto
    with one show ?thesis by (intro exI [of _ w2]) simp
  qed
qed simp

text \<open>Two requests that have only their events left.\<close>

lemma finish_both:
  assumes "ledger_ok X w" and "collision_free X n" and "draws w + 2 * length es + 2 * length es' \<le> n"
    and "es \<noteq> []" "es' \<noteq> []" and "list_all (acceptable w) es" "list_all (acceptable w) es'"
  shows "\<exists>w'. run_schedule X fresh (replicate (length es) 0 @ replicate (length es') 1)
      ([Recording es r, Recording es' r'], w) = ([Done r, Done r'], w') \<and> refresh_tokens w' = refresh_tokens w"
proof -
  obtain w1 where w1: "run_schedule X fresh (replicate (length es) 0) ([Recording es r, Recording es' r'], w) =
      ([Done r, Recording es' r'], w1)" "ledger_ok X w1" "refresh_tokens w1 = refresh_tokens w"
      "users w1 = users w" "draws w1 = draws w + 2 * length es"
    using finish_recording [OF assms(1,2), of es 0 "[Recording es r, Recording es' r']" r fresh] assms by auto
  have "list_all (acceptable w1) es'"
    using assms(7) acceptable_users [OF w1(4)] by (simp add: list_all_iff)
  then obtain w2 where "run_schedule X fresh (replicate (length es') 1) ([Done r, Recording es' r'], w1) =
      ([Done r, Done r'], w2)" "refresh_tokens w2 = refresh_tokens w"
    using finish_recording [OF w1(2) assms(2), of es' 1 "[Done r, Recording es' r']" r' fresh] assms w1 by auto
  with w1(1) show ?thesis by (intro exI [of _ w2]) (simp add: run_schedule_append)
qed

text \<open>What every reachable configuration of waiting requests has.\<close>

lemma schedule_ledger:
  assumes "ledger_ok X w" and "\<forall>a \<in> set agents. waiting a" and "set is \<subseteq> {..<length agents}"
    and "run_schedule X fresh is (agents, w) = (agents', w')"
  shows "ledger_ok X w'"
proof -
  have "interleaved X fresh (agents, w) (agents', w')"
    using schedule_interleaved [OF interleaved.begun, of "is" "(agents, w)" X fresh] assms(3,4) by simp
  from interleaved_orderly [OF this waiting_orderly [OF assms(1,2)]] show ?thesis by (simp add: orderly_def)
qed

section \<open>Two races\<close>

lemma look_up_rotatable:
  assumes "ledger_ok X w" and "rotatable X w p t"
  shows "look_up X p w = (Inr (Validated t), w\<lparr>draws := Suc (draws w)\<rparr>)"
proof -
  from assms(2) obtain u where t: "presents X w p t" "rt_revoked_at t = None" "utc_clock X (draws w) < rt_expires_at t"
    and u: "u \<in> set (users w)" "usr_id u = rt_user_id t" "usr_is_active u" by (auto simp: rotatable_def)
  have ok: "db_ok X w" using assms(1) by (rule ledger_okD)
  then have ok1: "db_ok X (w\<lparr>draws := Suc (draws w)\<rparr>)" by (simp add: db_ok_draws)
  have "distinct (map usr_id (users w))" using ok by (simp add: db_ok_def keys_unique_def)
  from find_key_unique [OF this u(1)] u(2) have "find (\<lambda>v. usr_id v = rt_user_id t) (users w) = Some u" by simp
  with t u(3) show ?thesis
    by (simp add: look_up_def run_simps presents_found [OF t(1)] utc_now_def user_get_by_id_run [OF ok1])
qed

text \<open>The row a rotation by request 1 adds, and the state after it.\<close>

definition race_child :: "env \<Rightarrow> refresh_token \<Rightarrow> world \<Rightarrow> refresh_token" where
  "race_child X t w =
     new_refresh_token (rt_user_id t) (hash_refresh_token X (token_urlsafe X (draws w + 1)))
       (utc_clock X (draws w + 2) + days (refresh_token_ttl_days (config X)))
       (gen_random_uuid X (draws w + 4)) (db_now X (draws w + 5))"

definition race_won :: "env \<Rightarrow> refresh_token \<Rightarrow> world \<Rightarrow> world" where
  "race_won X t w = w\<lparr>refresh_tokens :=
       rotate_rows (rt_id t) (utc_clock X (draws w + 3)) (race_child X t w) (refresh_tokens w),
     draws := draws w + 6\<rparr>"

lemma draws_won: "draws (race_won X t w) = draws w + 6"
  by (simp add: race_won_def)

lemma rotate_after_look_up:
  assumes "ledger_ok X w" and "collision_free X n" and "draws w + 6 \<le> n" and "sha256_ok X"
    and "rotatable X w p t"
  shows "rotate X t (w\<lparr>draws := Suc (draws w)\<rparr>) =
    (Inr (Recording [rotated_event t] (Rotated (rt_id t) (rt_id (race_child X t w)))), race_won X t w)"
proof -
  have ok: "db_ok X (w\<lparr>draws := Suc (Suc (Suc (draws w)))\<rparr>)"
    using assms(1) by (intro db_ok_draws ledger_okD) simp_all
  have t: "t \<in> set (refresh_tokens w)" "rt_revoked_at t = None"
    using assms(5) by (auto simp: rotatable_def presents_def)
  have "length (hash_refresh_token X s) \<le> 64" for s
    using assms(4) by (simp add: hash_refresh_token_def sha256_ok_def)
  with t assms(3) show ?thesis
    by (simp add: rotate_run create_rotation_pair_run [OF ok assms(2) _ _ refl refl] Let_def)
      (simp add: race_child_def race_won_def numeral_eq_Suc)
qed

lemma race_child_fresh:
  assumes "ledger_ok X w" and "collision_free X n" and "draws w + 6 \<le> n"
    and "t \<in> set (refresh_tokens w)"
  shows "rt_id (race_child X s w) \<noteq> rt_id t"
proof -
  have "gen_random_uuid X (draws w + 4) \<notin> ids rt_id (refresh_tokens w)"
    using fresh_id [of X w n "draws w + 4"] ledger_okD(1) [OF assms(1)] assms(2,3)
    by (auto simp: db_ok_def world_ids_def)
  with assms(4) show ?thesis by (auto simp: race_child_def new_refresh_token_def ids_def)
qed

lemma race_child_simps [simp]:
  "rt_revoked_at (race_child X t w) = None" "rt_replaced_by (race_child X t w) = None"
  "rt_user_id (race_child X t w) = rt_user_id t"
  "rt_token_hash (race_child X t w) = sha256_hexdigest X (token_urlsafe X (draws w + 1))"
  by (simp_all add: race_child_def new_refresh_token_def hash_refresh_token_def)

text \<open>A logout that has read the token before: it revokes the row again, the child stays as it is.\<close>

lemma revoke_after_race:
  assumes "ledger_ok X w" and "collision_free X n" and "draws w + 6 \<le> n" and "t \<in> set (refresh_tokens w)"
  shows "\<exists>r ts. revoke X t (race_won X t w) = (Inr r, (race_won X t w)\<lparr>refresh_tokens := ts, draws := draws w + 7\<rparr>) \<and>
    race_child X t w \<in> set ts"
proof -
  let ?s = "race_child X t w" and ?v = "race_won X t w"
  let ?ts = "update_where (\<lambda>r. rt_id r = rt_id t) (set_revoked (utc_clock X (draws w + 6))) (refresh_tokens ?v)"
  have "?s \<in> set (refresh_tokens ?v)" by (simp add: race_won_def rotate_rows_def)
  then have s: "?s \<in> set ?ts"
    using race_child_fresh [OF assms] by (simp add: update_where_set)
  have "map rt_id ?ts = map rt_id (refresh_tokens w) @ [rt_id ?s]"
    by (simp add: race_won_def rotate_rows_def)
  then have "rt_id t \<in> set (map rt_id ?ts)" using assms(4) by simp
  then have "\<exists>r \<in> set ?ts. rt_id r = rt_id t" unfolding set_map image_iff by metis
  then have "filter (\<lambda>r. rt_id r = rt_id t) ?ts \<noteq> []" by (auto simp: filter_empty_conv)
  then obtain r rs where "filter (\<lambda>r. rt_id r = rt_id t) ?ts = r # rs" by (meson list.exhaust)
  then have "revoke X t ?v = (Inr r, ?v\<lparr>refresh_tokens := ?ts, draws := draws w + 7\<rparr>)"
    by (simp add: revoke_def utc_now_def run_simps token_refresh_def session_refresh_def)
      (simp add: race_won_def)
  with s show ?thesis by blast
qed

text \<open>
  C39: a logout can lose its session. It reads the token as live, another request
  rotates the token, and the logout then revokes the old row, which is revoked already: it
  answers with success while the new token of the session stays live.
\<close>

theorem logout_race_leaves_session:
  assumes "ledger_ok X w" and "collision_free X n" and "draws w + 11 \<le> n" and "sha256_ok X"
    and "rotatable X w p t"
  shows "\<exists>s w'. run_schedule X fresh [0, 1, 1, 0, 0, 1] ([LoggingOut p, Refreshing p], w) =
      ([Done LoggedOut, Done (Rotated (rt_id t) (rt_id s))], w') \<and>
    s \<in> set (refresh_tokens w') \<and> rt_user_id s = rt_user_id t \<and>
    rt_token_hash s = sha256_hexdigest X (token_urlsafe X (draws w + 1)) \<and>
    rt_revoked_at s = None \<and> rt_replaced_by s = None"
proof -
  let ?s = "race_child X t w" and ?v = "race_won X t w"
  have n6: "draws w + 6 \<le> n" using assms(3) by simp
  have t: "presents X w p t" "t \<in> set (refresh_tokens w)" "rt_revoked_at t = None"
    using assms(5) by (auto simp: rotatable_def presents_def)
  obtain r ts where revoked: "revoke X t ?v = (Inr r, ?v\<lparr>refresh_tokens := ts, draws := draws w + 7\<rparr>)"
      and s: "?s \<in> set ts"
    using revoke_after_race [OF assms(1,2) n6 t(2)] by blast
  let ?start = "([LoggingOut p, Refreshing p], w)" and ?r = "Rotated (rt_id t) (rt_id ?s)"
  let ?w4 = "?v\<lparr>refresh_tokens := ts, draws := draws w + 7\<rparr>"
  have race: "run_schedule X fresh [0, 1, 1, 0] ?start =
      ([Recording [logout_event t] LoggedOut, Recording [rotated_event t] ?r], ?w4)"
    by (simp add: turn_def run_simps presents_found [OF t(1)] t(3) look_up_rotatable [OF assms(1,5)]
        rotate_after_look_up [OF assms(1,2) n6 assms(4,5)] revoked)
  have ok4: "ledger_ok X ?w4" by (rule schedule_ledger [OF assms(1) _ _ race]) simp_all
  have "rt_user_id t \<in> ids usr_id (users w)"
    using ledger_okD(1) [OF assms(1)] t(2) by (simp add: db_ok_def refs_ok_def)
  then have owner: "rt_user_id t \<in> ids usr_id (users ?w4)" by (simp add: race_won_def)
  obtain w6 where "run_schedule X fresh [0, 1] ([Recording [logout_event t] LoggedOut, Recording [rotated_event t] ?r], ?w4) =
      ([Done LoggedOut, Done ?r], w6)" "refresh_tokens w6 = ts"
    using finish_both [OF ok4 assms(2), of "[logout_event t]" "[rotated_event t]" fresh LoggedOut ?r] assms(3) owner
    by auto
  with race have "run_schedule X fresh ([0, 1, 1, 0] @ [0, 1]) ?start = ([Done LoggedOut, Done ?r], w6)"
      "refresh_tokens w6 = ts"
    by (simp_all only: run_schedule_append)
  with s show ?thesis by (intro exI [of _ ?s] exI [of _ w6]) simp
qed

theorem logout_race_leaves_session_witness:
  "\<exists>s w'. run_schedule sample_env False [0, 1, 1, 0, 0, 1] ([LoggingOut '''', Refreshing ''''], chain_world 0) =
      ([Done LoggedOut, Done (Rotated 2 (rt_id s))], w') \<and>
    s \<in> set (refresh_tokens w') \<and> rt_revoked_at s = None"
  using logout_race_leaves_session [OF chain_start_ok(1,3) _ sample_hashes_ok(2) chain_rotatable [of 0], of False]
  by auto

text \<open>
  The rows after the rotation: the old row with its successor, and the child, each found by
  its id; the conditional UPDATE of the old row finds nothing, that of the child its row.
\<close>

definition race_parent :: "env \<Rightarrow> refresh_token \<Rightarrow> world \<Rightarrow> refresh_token" where
  "race_parent X s w = set_replaced (rt_id (race_child X s w)) (set_revoked (utc_clock X (draws w + 3)) s)"

lemma race_parent_simps [simp]:
  "rt_id (race_parent X s w) = rt_id s" "rt_replaced_by (race_parent X s w) = Some (rt_id (race_child X s w))"
  "rt_revoked_at (race_parent X s w) \<noteq> None"
  by (simp_all add: race_parent_def)

lemma race_rows:
  assumes "ledger_ok X w" and "collision_free X n" and "draws w + 6 \<le> n" and s: "s \<in> set (refresh_tokens w)"
  shows "distinct (map rt_id (refresh_tokens (race_won X s w)))"
    and "race_parent X s w \<in> set (refresh_tokens (race_won X s w))"
    and "race_child X s w \<in> set (refresh_tokens (race_won X s w))"
proof -
  let ?c = "race_child X s w"
  have d: "distinct (map rt_id (refresh_tokens w))"
    using assms(1) by (intro db_ok_token_ids ledger_okD)
  have rows: "refresh_tokens (race_won X s w) = update_where (\<lambda>r. rt_id r = rt_id s)
      (\<lambda>r. set_replaced (rt_id ?c) (set_revoked (utc_clock X (draws w + 3)) r)) (refresh_tokens w) @ [?c]"
    by (simp add: race_won_def rotate_rows_def)
  have "rt_id ?c \<notin> set (map rt_id (refresh_tokens w))"
    using race_child_fresh [OF assms(1-3)] by auto
  with d show "distinct (map rt_id (refresh_tokens (race_won X s w)))" unfolding rows by simp
  show "race_parent X s w \<in> set (refresh_tokens (race_won X s w))"
    using s unfolding rows race_parent_def by (auto simp: update_where_set)
  show "?c \<in> set (refresh_tokens (race_won X s w))" unfolding rows by simp
qed

lemma race_statements:
  assumes "ledger_ok X w" and "collision_free X n" and "draws w + 6 \<le> n" and "s \<in> set (refresh_tokens w)"
  shows "token_get_by_id (rt_id s) ((race_won X s w)\<lparr>draws := k\<rparr>) =
      (Inr (Some (race_parent X s w)), (race_won X s w)\<lparr>draws := k\<rparr>)"
    and "token_get_by_id (rt_id (race_child X s w)) ((race_won X s w)\<lparr>draws := k\<rparr>) =
      (Inr (Some (race_child X s w)), (race_won X s w)\<lparr>draws := k\<rparr>)"
    and "filter (unrevoked_row (rt_id s)) (refresh_tokens (race_won X s w)) = []"
    and "update_where (unrevoked_row (rt_id s)) f (refresh_tokens (race_won X s w)) = refresh_tokens (race_won X s w)"
    and "filter (unrevoked_row (rt_id (race_child X s w))) (refresh_tokens (race_won X s w)) = [race_child X s w]"
proof -
  note rows = race_rows [OF assms]
  have d: "distinct (map rt_id (refresh_tokens ((race_won X s w)\<lparr>draws := k\<rparr>)))" using rows(1) by simp
  show "token_get_by_id (rt_id s) ((race_won X s w)\<lparr>draws := k\<rparr>) =
      (Inr (Some (race_parent X s w)), (race_won X s w)\<lparr>draws := k\<rparr>)"
    using find_key_unique [OF rows(1,2)] by (simp add: token_get_by_id_run [OF d])
  show "token_get_by_id (rt_id (race_child X s w)) ((race_won X s w)\<lparr>draws := k\<rparr>) =
      (Inr (Some (race_child X s w)), (race_won X s w)\<lparr>draws := k\<rparr>)"
    using find_key_unique [OF rows(1,3)] by (simp add: token_get_by_id_run [OF d])
  show lost: "filter (unrevoked_row (rt_id s)) (refresh_tokens (race_won X s w)) = []"
    using filter_unrevoked [OF rows(1,2)] by simp
  show "update_where (unrevoked_row (rt_id s)) f (refresh_tokens (race_won X s w)) = refresh_tokens (race_won X s w)"
    by (rule update_where_none) (use lost in \<open>auto simp: filter_empty_conv\<close>)
  show "filter (unrevoked_row (rt_id (race_child X s w))) (refresh_tokens (race_won X s w)) = [race_child X s w]"
    using filter_unrevoked [OF rows(1,3)] by simp
qed

text \<open>The race up to the re-read, whatever that gives.\<close>

definition race_lost :: "env \<Rightarrow> refresh_token \<Rightarrow> world \<Rightarrow> world" where
  "race_lost X s w = (race_won X s w)\<lparr>draws := draws w + 7\<rparr>"

lemma race_prefix:
  assumes "ledger_ok X w" and "collision_free X n" and n6: "draws w + 6 \<le> n" and "sha256_ok X"
    and "presents X w old t" and "rt_revoked_at t \<noteq> None" and "rt_replaced_by t = Some (rt_id s)"
    and "rotatable X w live s" and "rt_replaced_by s = None"
  obtains k where "\<And>f. run_schedule X f [0, 0, 1, 1, 0] ([Refreshing old, Refreshing live], w) =
    ([Rereading [s, t] (Suc k) s, Recording [rotated_event s] (Rotated (rt_id s) (rt_id (race_child X s w)))],
     race_lost X s w)"
proof -
  let ?v = "race_won X s w" and ?w1 = "w\<lparr>draws := Suc (draws w)\<rparr>"
  let ?won = "Recording [rotated_event s] (Rotated (rt_id s) (rt_id (race_child X s w)))"
  have s: "s \<in> set (refresh_tokens w)" "rt_revoked_at s = None" and t: "t \<in> set (refresh_tokens w)"
    using assms(5,8) by (auto simp: rotatable_def presents_def)
  have d: "distinct (map rt_id (refresh_tokens w))"
    using assms(1) by (intro db_ok_token_ids ledger_okD)
  have ts: "rt_id t \<noteq> rt_id s" using distinct_map_eqD [OF d t s(1)] s(2) assms(6) by auto
  have found: "token_get_by_id (rt_id s) w = (Inr (Some s), w)"
    using find_key_unique [OF d s(1)] by (simp add: token_get_by_id_run [OF d])
  obtain k where m: "MAX_FAMILY_WALK_STEPS = Suc (Suc k)"
    using that [of 23] by (simp add: MAX_FAMILY_WALK_STEPS_def)
  have first: "act X f (Refreshing old) w = (Inr (Walking [t] (Suc (Suc k)) (rt_id s)), w)" for f
    using assms(6,7) by (simp add: look_up_def presents_found [OF assms(5)] run_simps m)
  have steps:
    "act X f (Walking [t] (Suc (Suc k)) (rt_id s)) w = (Inr (Guarding [s, t] (Suc k) s), w)"
    "act X f (Refreshing live) w = (Inr (Validated s), ?w1)"
    "act X f (Validated s) ?w1 = (Inr ?won, ?v)"
    "act X f (Guarding [s, t] (Suc k) s) ?v = (Inr (Rereading [s, t] (Suc k) s), race_lost X s w)" for f
    using assms(9) ts race_statements(3,4) [OF assms(1,2) n6 s(1)]
    by (simp_all add: look_up_rotatable [OF assms(1,8)] rotate_after_look_up [OF assms(1,2) n6 assms(4,8)]
        run_simps found loaded_def utc_now_def race_lost_def draws_won)
  show ?thesis
    by (rule that [of k]) (simp add: turn_def first steps del: act.simps)
qed

text \<open>
  C40: the family revocation can lose its session too. The reuse of an old token walks to
  the live token, another request rotates that, the conditional UPDATE finds nothing, and the
  re-read gives back the row as it was loaded before, without its new successor: the request
  ends as if the family were dead while the newest token is live. With rows that are read
  afresh, the same request goes on to that token and revokes it.
\<close>

theorem reuse_race_leaves_session:
  assumes "ledger_ok X w" and "collision_free X n" and "draws w + 14 \<le> n" and "sha256_ok X"
    and "presents X w old t" and "rt_revoked_at t \<noteq> None" and "rt_replaced_by t = Some (rt_id s)"
    and "rotatable X w live s" and "rt_replaced_by s = None"
  shows "\<exists>c w'. run_schedule X False [0, 0, 1, 1, 0, 0, 0, 1] ([Refreshing old, Refreshing live], w) =
      ([Done (Reused None), Done (Rotated (rt_id s) (rt_id c))], w') \<and>
    c \<in> set (refresh_tokens w') \<and> rt_revoked_at c = None \<and> rt_replaced_by c = None \<and>
    rt_token_hash c = sha256_hexdigest X (token_urlsafe X (draws w + 1)) \<and>
    fst (run_schedule X True [0, 0, 1, 1, 0, 0, 0, 0, 0, 0, 1] ([Refreshing old, Refreshing live], w)) =
      [Done (Reused (Some (rt_id c))), Done (Rotated (rt_id s) (rt_id c))]"
proof -
  let ?c = "race_child X s w" and ?v = "race_lost X s w" and ?r = "Rotated (rt_id s) (rt_id (race_child X s w))"
  let ?start = "([Refreshing old, Refreshing live], w)" and ?won = "Recording [rotated_event s] ?r"
  have n6: "draws w + 6 \<le> n" using assms(3) by simp
  obtain k where prefix: "\<And>f. run_schedule X f [0, 0, 1, 1, 0] ?start = ([Rereading [s, t] (Suc k) s, ?won], ?v)"
    using race_prefix [OF assms(1,2) n6 assms(4-9)] by blast
  have st: "s \<in> set (refresh_tokens w)" "t \<in> set (refresh_tokens w)"
    using assms(5,8) by (auto simp: rotatable_def presents_def)
  then have owner: "rt_user_id t \<in> ids usr_id (users w)" "rt_user_id s \<in> ids usr_id (users w)"
    using ledger_okD(1) [OF assms(1)] by (simp_all add: db_ok_def refs_ok_def)
  note found = race_statements(1,2) [OF assms(1,2) n6 st(1), where k = "draws w + 7", folded race_lost_def]
    race_statements(5) [OF assms(1,2) n6 st(1)]
  have v: "users ?v = users w" "draws ?v = draws w + 7" "refresh_tokens ?v = refresh_tokens (race_won X s w)"
    by (simp_all add: race_lost_def race_won_def)
  have stale: "run_schedule X False ([0, 0, 1, 1, 0] @ [0]) ?start =
      ([Recording (reuse_events t None) (Reused None), ?won], ?v)"
    using found assms(9) by (simp only: run_schedule_append prefix)
      (simp add: turn_def run_simps loaded_def reused_def)
  have "ledger_ok X ?v" by (rule schedule_ledger [OF assms(1) _ _ stale]) simp_all
  then obtain w2 where w2: "run_schedule X False [0, 1] ([Recording (reuse_events t None) (Reused None), ?won], ?v) =
      ([Done (Reused None), Done ?r], w2)" "refresh_tokens w2 = refresh_tokens ?v"
    using finish_both [OF _ assms(2), of ?v "reuse_events t None" "[rotated_event s]" False "Reused None" ?r]
      assms(3) owner v by (auto simp: reuse_length)
  have stays: "run_schedule X False (([0, 0, 1, 1, 0] @ [0]) @ [0, 1]) ?start = ([Done (Reused None), Done ?r], w2)"
    by (simp only: run_schedule_append [of X False "[0, 0, 1, 1, 0] @ [0]"] stale w2(1))
  obtain v2 where killed: "run_schedule X True ([0, 0, 1, 1, 0] @ [0, 0, 0]) ?start =
      ([Recording (reuse_events t (Some ?c)) (Reused (Some (rt_id ?c))), ?won], v2)"
      and v2: "users v2 = users w" "draws v2 = draws w + 8"
    using found v by (simp only: run_schedule_append prefix)
      (simp add: turn_def run_simps loaded_def Let_def utc_now_def reused_def)
  have "ledger_ok X v2" by (rule schedule_ledger [OF assms(1) _ _ killed]) simp_all
  then obtain w4 where "run_schedule X True [0, 0, 1]
      ([Recording (reuse_events t (Some ?c)) (Reused (Some (rt_id ?c))), ?won], v2) =
      ([Done (Reused (Some (rt_id ?c))), Done ?r], w4)"
    using finish_both [OF _ assms(2), of v2 "reuse_events t (Some ?c)" "[rotated_event s]" True
        "Reused (Some (rt_id ?c))" ?r] assms(3) owner v2 by (auto simp: reuse_length numeral_2_eq_2)
  then have "run_schedule X True (([0, 0, 1, 1, 0] @ [0, 0, 0]) @ [0, 0, 1]) ?start =
      ([Done (Reused (Some (rt_id ?c))), Done ?r], w4)"
    by (simp only: run_schedule_append [of X True "[0, 0, 1, 1, 0] @ [0, 0, 0]"] killed)
  moreover have "?c \<in> set (refresh_tokens w2)" using race_rows(3) [OF assms(1,2) n6 st(1)] by (simp add: w2(2) v)
  ultimately show ?thesis using stays by (intro exI [of _ ?c] exI [of _ w2]) simp
qed

theorem reuse_race_leaves_session_witness:
  "\<exists>c w'. run_schedule sample_env False [0, 0, 1, 1, 0, 0, 0, 1] ([Refreshing '''', Refreshing ''t''], chain_world 1) =
      ([Done (Reused None), Done (Rotated 3 (rt_id c))], w') \<and>
    c \<in> set (refresh_tokens w') \<and> rt_revoked_at c = None"
  using reuse_race_leaves_session [OF chain_world_ledger [of 1] sample_collision_free _ sample_hashes_ok(2)
      chain_presents [of 1 0], of "chain_token 1 1" "''t''"] chain_rotatable [of 1]
  by auto

end
