(* ===== verification/Threads.thy ===== *)
theory Threads
  imports Prelude
begin

text \<open>
  Coroutines that may be interrupted: a thread is a sequence of turns, each one database
  statement with the computation before it, and between two turns other threads move.
  \<open>alone\<close> runs a thread with nobody else about, which is the program of \<open>Prelude\<close>;
  \<open>abides\<close> is the rely-guarantee judgement, and \<open>together\<close> any number of threads on one state.
\<close>

section \<open>Threads\<close>

text \<open>A turn changes the state and, by what it has read, says what is left.\<close>

datatype ('s, 'e, 'a) thread =
    Finished "'e + 'a"
  | Turn "'s \<Rightarrow> 's" "'s \<Rightarrow> ('s, 'e, 'a) thread"

definition t_pure :: "'a \<Rightarrow> ('s, 'e, 'a) thread" where
  "t_pure x = Finished (Inr x)"

definition t_raise :: "'e \<Rightarrow> ('s, 'e, 'a) thread" where
  "t_raise e = Finished (Inl e)"

definition atomically :: "('s, 'e, 'a) prog \<Rightarrow> ('s, 'e, 'a) thread" where
  "atomically m = Turn (\<lambda>s. snd (m s)) (\<lambda>s. Finished (fst (m s)))"

primrec t_then :: "('s, 'e, 'a) thread \<Rightarrow> ('a \<Rightarrow> ('s, 'e, 'b) thread) \<Rightarrow> ('s, 'e, 'b) thread" where
  "t_then (Finished r) f = (case r of Inl e \<Rightarrow> Finished (Inl e) | Inr x \<Rightarrow> f x)"
| "t_then (Turn u k) f = Turn u (\<lambda>s. t_then (k s) f)"

primrec t_except ::
  "('s, 'e, 'a) thread \<Rightarrow> ('e \<Rightarrow> ('s, 'e, 'a) thread option) \<Rightarrow> ('s, 'e, 'a) thread" where
  "t_except (Finished r) h =
     (case r of
        Inl e \<Rightarrow> (case h e of None \<Rightarrow> Finished (Inl e) | Some t \<Rightarrow> t)
      | Inr x \<Rightarrow> Finished (Inr x))"
| "t_except (Turn u k) h = Turn u (\<lambda>s. t_except (k s) h)"

section \<open>Alone\<close>

primrec alone :: "('s, 'e, 'a) thread \<Rightarrow> ('s, 'e, 'a) prog" where
  "alone (Finished r) = (\<lambda>s. (r, s))"
| "alone (Turn u k) = (\<lambda>s. alone (k s) (u s))"

lemma alone_pure [simp]: "alone (t_pure x) = pure x"
  by (simp add: t_pure_def pure_def)

lemma alone_raise [simp]: "alone (t_raise e) = raise e"
  by (simp add: t_raise_def raise_def)

lemma alone_atomically [simp]: "alone (atomically m) = m"
  by (simp add: atomically_def)

lemma alone_then [simp]: "alone (t_then t f) = and_then (alone t) (\<lambda>x. alone (f x))"
proof (rule ext)
  show "alone (t_then t f) s = and_then (alone t) (\<lambda>x. alone (f x)) s" for s
    by (induction t arbitrary: s) (simp_all add: run_simps split: sum.split)
qed

lemma alone_except [simp]: "alone (t_except t h) = try_except (alone t) (\<lambda>e. map_option alone (h e))"
proof (rule ext)
  show "alone (t_except t h) s = try_except (alone t) (\<lambda>e. map_option alone (h e)) s" for s
  proof (induction t arbitrary: s)
    case (Finished r)
    show ?case
    proof (cases r)
      case (Inl e)
      then show ?thesis by (cases "h e") (simp_all add: try_except_run)
    qed (simp add: try_except_run)
  next
    case (Turn u k)
    then show ?case by (simp add: try_except_run)
  qed
qed

section \<open>How long a thread takes\<close>

primrec within_turns :: "('s, 'e, 'a) thread \<Rightarrow> nat \<Rightarrow> bool" where
  "within_turns (Finished r) n = True"
| "within_turns (Turn u k) n = (case n of 0 \<Rightarrow> False | Suc m \<Rightarrow> (\<forall>s. within_turns (k s) m))"

lemma within_turns_mono: "within_turns t m \<Longrightarrow> m \<le> n \<Longrightarrow> within_turns t n"
proof (induction t arbitrary: m n)
  case (Turn u k)
  from Turn.prems obtain m' n' where n: "m = Suc m'" "n = Suc n'" "m' \<le> n'" and k: "\<And>s. within_turns (k s) m'"
    by (cases m; cases n) auto
  have "within_turns (k s) n'" for s by (rule Turn.IH [OF _ k n(3)]) simp
  then show ?case by (simp add: n)
qed simp

lemma within_turns_pure [intro!]: "within_turns (t_pure x) n"
  by (simp add: t_pure_def)

lemma within_turns_raise [intro!]: "within_turns (t_raise e) n"
  by (simp add: t_raise_def)

lemma within_turns_atomically: "0 < n \<Longrightarrow> within_turns (atomically m) n"
  by (cases n) (simp_all add: atomically_def)

lemma within_turns_then:
  "within_turns t m \<Longrightarrow> (\<And>x. within_turns (f x) n) \<Longrightarrow> within_turns (t_then t f) (m + n)"
proof (induction t arbitrary: m)
  case (Finished r)
  then show ?case by (auto split: sum.split intro: within_turns_mono [of _ n])
next
  case (Turn u k)
  then show ?case by (cases m) auto
qed

lemma within_turns_except:
  "within_turns t m \<Longrightarrow> (\<And>e t'. h e = Some t' \<Longrightarrow> within_turns t' n) \<Longrightarrow> within_turns (t_except t h) (m + n)"
proof (induction t arbitrary: m)
  case (Finished r)
  then show ?case by (auto split: sum.split option.split intro: within_turns_mono [of _ n])
next
  case (Turn u k)
  then show ?case by (cases m) auto
qed

section \<open>Rely and guarantee\<close>

text \<open>
  \<open>abides R B t Q s\<close>: started in \<open>s\<close>, while the others move by \<open>R\<close>, every turn of the
  thread moves by \<open>R\<close> too, and \<open>Q\<close> holds of its result and the state it ends in. It speaks
  of the runs that stay inside the budget \<open>B\<close>.
\<close>

primrec abides ::
  "('s \<Rightarrow> 's \<Rightarrow> bool) \<Rightarrow> ('s \<Rightarrow> bool) \<Rightarrow> ('s, 'e, 'a) thread \<Rightarrow> ('e + 'a \<Rightarrow> 's \<Rightarrow> bool) \<Rightarrow> 's \<Rightarrow> bool" where
  "abides R B (Finished r) Q s = Q r s"
| "abides R B (Turn u k) Q s =
     (\<forall>s'. R s s' \<longrightarrow> R s' (u s') \<and> (B (u s') \<longrightarrow> abides R B (k s') Q (u s')))"

text \<open>A condition the others do not spoil.\<close>

definition stable :: "('s \<Rightarrow> 's \<Rightarrow> bool) \<Rightarrow> ('s \<Rightarrow> bool) \<Rightarrow> bool" where
  "stable R P = (\<forall>s t. P s \<longrightarrow> R s t \<longrightarrow> P t)"

lemma stableD: "stable R P \<Longrightarrow> P s \<Longrightarrow> R s t \<Longrightarrow> P t"
  by (auto simp: stable_def)

lemma abides_conseq:
  "abides R B t Q s \<Longrightarrow> (\<And>r s. Q r s \<Longrightarrow> Q' r s) \<Longrightarrow> abides R B t Q' s"
  by (induction t arbitrary: s) auto

lemma abides_then:
  "abides R B t (\<lambda>r s. case r of Inl e \<Rightarrow> Q (Inl e) s | Inr x \<Rightarrow> abides R B (f x) Q s) s \<Longrightarrow>
   abides R B (t_then t f) Q s"
  by (induction t arbitrary: s) (auto split: sum.splits)

lemma abides_except:
  "abides R B t (\<lambda>r s. case r of
       Inl e \<Rightarrow> (case h e of None \<Rightarrow> Q (Inl e) s | Some t' \<Rightarrow> abides R B t' Q s)
     | Inr x \<Rightarrow> Q (Inr x) s) s \<Longrightarrow>
   abides R B (t_except t h) Q s"
  by (induction t arbitrary: s) (auto split: sum.splits option.splits)

text \<open>The triple: from every state that satisfies \<open>P\<close>.\<close>

definition triple ::
  "('s \<Rightarrow> 's \<Rightarrow> bool) \<Rightarrow> ('s \<Rightarrow> bool) \<Rightarrow> ('s \<Rightarrow> bool) \<Rightarrow> ('s, 'e, 'a) thread \<Rightarrow>
   ('e + 'a \<Rightarrow> 's \<Rightarrow> bool) \<Rightarrow> bool" where
  "triple R B P t Q = (\<forall>s. P s \<longrightarrow> abides R B t Q s)"

lemma tripleD: "triple R B P t Q \<Longrightarrow> P s \<Longrightarrow> abides R B t Q s"
  by (simp add: triple_def)

lemma triple_pre: "triple R B P' t Q \<Longrightarrow> (\<And>s. P s \<Longrightarrow> P' s) \<Longrightarrow> triple R B P t Q"
  by (simp add: triple_def)

lemma triple_post: "triple R B P t Q \<Longrightarrow> (\<And>r s. Q r s \<Longrightarrow> Q' r s) \<Longrightarrow> triple R B P t Q'"
  by (auto simp: triple_def intro: abides_conseq)

lemma triple_pure: "(\<And>s. P s \<Longrightarrow> Q (Inr x) s) \<Longrightarrow> triple R B P (t_pure x) Q"
  by (simp add: triple_def t_pure_def)

lemma triple_raise: "(\<And>s. P s \<Longrightarrow> Q (Inl e) s) \<Longrightarrow> triple R B P (t_raise e) Q"
  by (simp add: triple_def t_raise_def)

lemma triple_atomically:
  assumes "stable R P" and "\<And>s. P s \<Longrightarrow> R s (snd (m s))"
    and "\<And>s. P s \<Longrightarrow> B (snd (m s)) \<Longrightarrow> Q (fst (m s)) (snd (m s))"
  shows "triple R B P (atomically m) Q"
  using assms by (auto simp: triple_def atomically_def dest: stableD)

lemma triple_then:
  assumes "triple R B P t (\<lambda>r s. case r of Inl e \<Rightarrow> Q (Inl e) s | Inr x \<Rightarrow> M x s)"
    and "\<And>x. triple R B (M x) (f x) Q"
  shows "triple R B P (t_then t f) Q"
  using assms unfolding triple_def
  by (auto intro!: abides_then elim!: abides_conseq split: sum.splits)

lemma triple_except:
  assumes "triple R B P t (\<lambda>r s. case r of
      Inl e \<Rightarrow> (case h e of None \<Rightarrow> Q (Inl e) s | Some _ \<Rightarrow> M e s) | Inr x \<Rightarrow> Q (Inr x) s)"
    and "\<And>e t'. h e = Some t' \<Longrightarrow> triple R B (M e) t' Q"
  shows "triple R B P (t_except t h) Q"
  unfolding triple_def
proof (intro allI impI)
  fix s assume "P s"
  from tripleD [OF assms(1) this] show "abides R B (t_except t h) Q s"
    by (rule abides_except [OF abides_conseq]) (auto dest: tripleD [OF assms(2)] split: sum.splits option.splits)
qed

lemma triple_if:
  "(b \<Longrightarrow> triple R B P t Q) \<Longrightarrow> (\<not> b \<Longrightarrow> triple R B P t' Q) \<Longrightarrow> triple R B P (if b then t else t') Q"
  by simp

lemma triple_option:
  "(v = None \<Longrightarrow> triple R B P t Q) \<Longrightarrow> (\<And>x. v = Some x \<Longrightarrow> triple R B P (f x) Q) \<Longrightarrow>
   triple R B P (case v of None \<Rightarrow> t | Some x \<Rightarrow> f x) Q"
  by (cases v) simp_all

lemma triple_false: "triple R B (\<lambda>s. False) t Q"
  by (simp add: triple_def)

lemma triple_let: "triple R B P (f v) Q \<Longrightarrow> triple R B P (let x = v in f x) Q"
  by simp

section \<open>Many threads on one state\<close>

type_synonym ('s, 'e, 'a) crowd = "('s, 'e, 'a) thread list \<times> 's"

text \<open>A turn of thread \<open>i\<close>; a thread that has finished does nothing.\<close>

definition give_turn :: "nat \<Rightarrow> ('s, 'e, 'a) crowd \<Rightarrow> ('s, 'e, 'a) crowd" where
  "give_turn i c = (case c of (ts, s) \<Rightarrow>
     if i < length ts then
       (case ts ! i of Finished r \<Rightarrow> (ts, s) | Turn u k \<Rightarrow> (ts[i := k s], u s))
     else (ts, s))"

fun give_turns :: "nat list \<Rightarrow> ('s, 'e, 'a) crowd \<Rightarrow> ('s, 'e, 'a) crowd" where
  "give_turns [] c = c"
| "give_turns (i # is) c = give_turns is (give_turn i c)"

text \<open>Every configuration some interleaving leads to, as long as it stays inside the budget.\<close>

inductive together ::
  "('s \<Rightarrow> bool) \<Rightarrow> ('s, 'e, 'a) crowd \<Rightarrow> ('s, 'e, 'a) crowd \<Rightarrow> bool" for B start where
  assembled: "together B start start"
| moved: "together B start c \<Longrightarrow> B (snd (give_turn i c)) \<Longrightarrow> together B start (give_turn i c)"

lemma give_turn_cases:
  assumes "give_turn i (ts, s) = (ts', s')"
  obtains (idle) "ts' = ts" "s' = s"
  | (turn) u k where "i < length ts" "ts ! i = Turn u k" "ts' = ts[i := k s]" "s' = u s"
  using assms by (auto simp: give_turn_def split: if_splits thread.splits)

lemma give_turn_length [simp]: "length (fst (give_turn i c)) = length (fst c)"
  by (cases c) (auto simp: give_turn_def split: thread.splits)

lemma give_turns_length [simp]: "length (fst (give_turns is c)) = length (fst c)"
  by (induction "is" arbitrary: c) simp_all

lemma together_length: "together B start c \<Longrightarrow> length (fst c) = length (fst start)"
  by (induction rule: together.induct) simp_all

context history
begin

lemma abides_later:
  assumes "abides R B t Q s" and "R s s'" and "\<And>r. stable R (Q r)"
  shows "abides R B t Q s'"
proof (cases t)
  case (Finished r)
  with assms show ?thesis by (auto dest: stableD)
next
  case (Turn u k)
  with assms(1,2) show ?thesis by (auto intro: trans)
qed

text \<open>
  Soundness: threads that abide one by one abide together, so each result is as promised
  and every move of the whole is one of \<open>R\<close>.
\<close>

lemma crowd_abides:
  assumes "together B (ts, s) (ts', s')"
    and "\<And>i. i < length ts \<Longrightarrow> abides R B (ts ! i) (Q i) s"
    and "\<And>i r. stable R (Q i r)"
  shows "R s s' \<and> (\<forall>i < length ts'. abides R B (ts' ! i) (Q i) s')"
  using assms(1)
proof (induction "(ts', s')" arbitrary: ts' s' rule: together.induct)
  case assembled
  with assms(2) show ?case by (simp add: refl)
next
  case (moved c j)
  obtain us v where c: "c = (us, v)" by (cases c)
  with moved.hyps(2) have IH: "R s v" "\<And>i. i < length us \<Longrightarrow> abides R B (us ! i) (Q i) v" by auto
  from moved.hyps(4) c have "give_turn j (us, v) = (ts', s')" by simp
  then show ?case
  proof (cases rule: give_turn_cases)
    case idle
    with IH show ?thesis by simp
  next
    case (turn u k)
    with IH(2) have "abides R B (Turn u k) (Q j) v" by metis
    moreover have "B s'" using moved.hyps(3,4) by (metis snd_conv)
    ultimately have step: "R v s'" "abides R B (k v) (Q j) s'" using turn(4) by (auto simp: refl)
    have "abides R B (ts' ! i) (Q i) s'" if "i < length ts'" for i
    proof (cases "i = j")
      case True
      with step(2) turn(1,3) show ?thesis by simp
    next
      case False
      with that turn(3) abides_later [OF IH(2) step(1) assms(3)] show ?thesis by simp
    qed
    with IH(1) step(1) show ?thesis by (blast intro: trans)
  qed
qed

end

section \<open>Everyone gets to the end\<close>

text \<open>A thread that has had as many turns as it needs has finished, however the others moved.\<close>

lemma turns_used:
  assumes "i < length (fst c)" and "within_turns (fst c ! i) n"
  shows "within_turns (fst (give_turns is c) ! i) (n - count_list is i)"
  using assms
proof (induction "is" arbitrary: c n)
  case (Cons j js)
  obtain ts s where c: "c = (ts, s)" by (cases c)
  have "within_turns (fst (give_turn j c) ! i) (if j = i then n - 1 else n)"
  proof (cases "j = i")
    case True
    with Cons.prems c show ?thesis
      by (cases "ts ! i"; cases n) (auto simp: give_turn_def)
  next
    case False
    with Cons.prems c show ?thesis by (auto simp: give_turn_def split: thread.split)
  qed
  from Cons.IH [OF _ this] Cons.prems(1) show ?case by (simp split: if_splits)
qed simp

lemma turns_enough:
  assumes "i < length ts" and "within_turns (ts ! i) n" and "n \<le> count_list is i"
  shows "\<exists>r. fst (give_turns is (ts, s)) ! i = Finished r"
proof -
  from turns_used [of i "(ts, s)" n "is"] assms
  have "within_turns (fst (give_turns is (ts, s)) ! i) 0" by simp
  then show ?thesis by (cases "fst (give_turns is (ts, s)) ! i") simp_all
qed

section \<open>What every turn does\<close>

text \<open>A relation that each turn of a thread respects in whatever state it is taken.\<close>

primrec every_turn :: "('s \<Rightarrow> 's \<Rightarrow> bool) \<Rightarrow> ('s, 'e, 'a) thread \<Rightarrow> bool" where
  "every_turn R (Finished r) = True"
| "every_turn R (Turn u k) = (\<forall>s. R s (u s) \<and> every_turn R (k s))"

lemma every_turn_pure: "every_turn R (t_pure x)"
  by (simp add: t_pure_def)

lemma every_turn_raise: "every_turn R (t_raise e)"
  by (simp add: t_raise_def)

lemma every_turn_atomically: "obeys R m \<Longrightarrow> every_turn R (atomically m)"
  by (simp add: atomically_def obeys_def)

lemma every_turn_then:
  "every_turn R t \<Longrightarrow> (\<And>x. every_turn R (f x)) \<Longrightarrow> every_turn R (t_then t f)"
  by (induction t) (auto split: sum.split)

lemma every_turn_except:
  "every_turn R t \<Longrightarrow> (\<And>e t'. h e = Some t' \<Longrightarrow> every_turn R t') \<Longrightarrow> every_turn R (t_except t h)"
  by (induction t) (auto split: sum.split option.split)

lemma every_turn_choice:
  "every_turn R t \<Longrightarrow> every_turn R t' \<Longrightarrow> every_turn R (if b then t else t')"
  "every_turn R t \<Longrightarrow> (\<And>x. every_turn R (f x)) \<Longrightarrow> every_turn R (case v of None \<Rightarrow> t | Some x \<Rightarrow> f x)"
  "(\<And>x y. every_turn R (g x y)) \<Longrightarrow> every_turn R (case p of (x, y) \<Rightarrow> g x y)"
  "every_turn R (f z) \<Longrightarrow> every_turn R (let x = z in f x)"
  by (auto split: option.split prod.split)

lemmas every_turn_rules = every_turn_then every_turn_choice every_turn_pure every_turn_raise
  every_turn_atomically

lemma give_turns_append: "give_turns (is @ js) c = give_turns js (give_turns is c)"
  by (induction "is" arbitrary: c) simp_all

context history
begin

lemma give_turn_every:
  assumes "\<forall>t \<in> set (fst c). every_turn R t"
  shows "R (snd c) (snd (give_turn i c)) \<and> (\<forall>t \<in> set (fst (give_turn i c)). every_turn R t)"
proof (cases c)
  case (Pair ts s)
  obtain ts' s' where g: "give_turn i (ts, s) = (ts', s')" by (cases "give_turn i (ts, s)")
  then show ?thesis
  proof (cases rule: give_turn_cases)
    case idle
    with g assms show ?thesis by (simp add: Pair refl)
  next
    case (turn u k)
    with assms have "every_turn R (Turn u k)" unfolding Pair by (metis fst_conv nth_mem)
    with turn g assms set_update_subset_insert [of ts i "k s"] show ?thesis by (auto simp: Pair)
  qed
qed

lemma give_turns_every:
  "\<forall>t \<in> set (fst c). every_turn R t \<Longrightarrow>
   R (snd c) (snd (give_turns is c)) \<and> (\<forall>t \<in> set (fst (give_turns is c)). every_turn R t)"
proof (induction "is" arbitrary: c)
  case (Cons i js)
  from give_turn_every [OF Cons.prems, of i] Cons.IH [of "give_turn i c"] show ?case
    by (auto intro: trans)
qed (simp add: refl)

end

text \<open>If turns never lower \<open>f\<close>, a schedule stays inside the bound of its own last state.\<close>

interpretation rising: history "\<lambda>s t. f s \<le> f t" for f :: "'s \<Rightarrow> nat"
  by unfold_locales auto

lemma schedule_together:
  assumes "together B start c" and "\<And>p q. is = p @ q \<Longrightarrow> B (snd (give_turns p c))"
  shows "together B start (give_turns is c)"
  using assms
proof (induction "is" arbitrary: c)
  case (Cons i js)
  have "together B start (give_turn i c)"
    by (rule together.moved [OF Cons.prems(1)]) (use Cons.prems(2) [of "[i]" js] in simp)
  then show ?case
  proof (simp, rule Cons.IH)
    show "B (snd (give_turns p (give_turn i c)))" if "js = p @ q" for p q
      using Cons.prems(2) [of "i # p" q] that by simp
  qed
qed simp

lemma schedule_within:
  assumes "\<forall>t \<in> set ts. every_turn (\<lambda>s s'. f s \<le> f s') t"
  shows "together (\<lambda>s. f s \<le> (f (snd (give_turns is (ts, s0))) :: nat)) (ts, s0) (give_turns is (ts, s0))"
proof (rule schedule_together [OF together.assembled])
  fix p q assume "is = p @ q"
  with rising.give_turns_every [of "(ts, s0)" f p] assms
    rising.give_turns_every [of "give_turns p (ts, s0)" f q]
  show "f (snd (give_turns p (ts, s0))) \<le> f (snd (give_turns is (ts, s0)))"
    by (simp add: give_turns_append)
qed

end
