(* ===== verification/Turns.thy ===== *)
theory Turns
  imports Threads Api Concurrency
begin

text \<open>
  Every request as a thread: the repositories, services, dependencies and routes again, now
  with each database statement a turn of its own, the SELECT of \<open>session.refresh\<close> after a
  commit included. What a coroutine computes between two statements belongs to the turn
  before the next one. \<open>serve\<close> is the application; alone, it is \<open>dispatch\<close>.
\<close>

type_synonym 'a coroutine = "(world, exn, 'a) thread"

section \<open>Repositories\<close>

text \<open>INSERT and commit, then \<open>session.refresh\<close> of the new row.\<close>

definition t_insert :: "'r py \<Rightarrow> ('r \<Rightarrow> world \<Rightarrow> 'r list) \<Rightarrow> 'r coroutine" where
  "t_insert create query = t_then (atomically create) (\<lambda>r. atomically (session_refresh (query r)))"

definition user_rows :: "uuid \<Rightarrow> world \<Rightarrow> user list" where
  "user_rows i w = filter (\<lambda>u. usr_id u = i) (users w)"

definition role_rows :: "uuid \<Rightarrow> world \<Rightarrow> role list" where
  "role_rows i w = filter (\<lambda>r. role_id r = i) (roles w)"

definition assignment_rows :: "uuid \<Rightarrow> world \<Rightarrow> user_role list" where
  "assignment_rows i w = filter (\<lambda>a. ur_id a = i) (user_roles w)"

definition organization_rows :: "uuid \<Rightarrow> world \<Rightarrow> organization list" where
  "organization_rows i w = filter (\<lambda>g. org_id g = i) (organizations w)"

definition membership_rows :: "uuid \<Rightarrow> world \<Rightarrow> organization_membership list" where
  "membership_rows i w = filter (\<lambda>m. mem_id m = i) (organization_memberships w)"

definition log_rows :: "uuid \<Rightarrow> world \<Rightarrow> audit_log list" where
  "log_rows i w = filter (\<lambda>l. log_id l = i) (audit_logs w)"

definition t_create_user :: "env \<Rightarrow> string \<Rightarrow> string \<Rightarrow> user coroutine" where
  "t_create_user X email password_hash =
     t_insert (create_user X email password_hash) (\<lambda>u. user_rows (usr_id u))"

definition t_update_last_login :: "env \<Rightarrow> user \<Rightarrow> user coroutine" where
  "t_update_last_login X u = t_insert (update_last_login X u) (\<lambda>u. user_rows (usr_id u))"

definition t_role_create :: "env \<Rightarrow> string \<Rightarrow> string option \<Rightarrow> uuid option \<Rightarrow> role coroutine" where
  "t_role_create X name description organization_id =
     t_insert (role_create X name description organization_id) (\<lambda>r. role_rows (role_id r))"

definition t_user_role_assign :: "env \<Rightarrow> uuid \<Rightarrow> uuid \<Rightarrow> uuid option \<Rightarrow> user_role coroutine" where
  "t_user_role_assign X user_id r organization_id =
     t_insert (user_role_assign X user_id r organization_id) (\<lambda>a. assignment_rows (ur_id a))"

definition t_organization_create :: "env \<Rightarrow> string \<Rightarrow> organization coroutine" where
  "t_organization_create X name = t_insert (organization_create X name) (\<lambda>g. organization_rows (org_id g))"

definition t_membership_add :: "env \<Rightarrow> uuid \<Rightarrow> uuid \<Rightarrow> organization_membership coroutine" where
  "t_membership_add X user_id organization_id =
     t_insert (membership_add X user_id organization_id) (\<lambda>m. membership_rows (mem_id m))"

definition t_audit_record ::
  "env \<Rightarrow> string \<Rightarrow> uuid option \<Rightarrow> string option \<Rightarrow> uuid option \<Rightarrow> uuid option \<Rightarrow> dict option \<Rightarrow>
   audit_log coroutine" where
  "t_audit_record X action actor target_type target_id org metadata =
     t_insert (audit_record X action actor target_type target_id org metadata) (\<lambda>l. log_rows (log_id l))"

text \<open>The two deletions that SELECT the row first; a DELETE of a row that is gone is no error.\<close>

definition t_user_role_revoke :: "uuid \<Rightarrow> uuid \<Rightarrow> uuid option \<Rightarrow> bool coroutine" where
  "t_user_role_revoke user_id r organization_id =
     t_then (atomically (scalar_one_or_none (\<lambda>w.
       filter (assignment_row user_id r organization_id) (user_roles w)))) (\<lambda>found.
     case found of
       None \<Rightarrow> t_pure False
     | Some a \<Rightarrow> t_then (atomically (delete_user_role a)) (\<lambda>_. t_pure True))"

definition t_membership_remove :: "uuid \<Rightarrow> uuid \<Rightarrow> bool coroutine" where
  "t_membership_remove user_id organization_id =
     t_then (atomically (scalar_one_or_none (\<lambda>w.
       filter (membership_row user_id organization_id) (organization_memberships w)))) (\<lambda>membership.
     case membership of
       None \<Rightarrow> t_pure False
     | Some m \<Rightarrow> t_then (atomically (delete_membership m)) (\<lambda>_. t_pure True))"

text \<open>The UPDATE of a logout, and the guarded one of the family walk, with its row count.\<close>

definition mark_revoked :: "env \<Rightarrow> refresh_token \<Rightarrow> nat py" where
  "mark_revoked X token =
     and_then (utc_now X) (\<lambda>now. update_tokens (\<lambda>r. rt_id r = rt_id token) (set_revoked now))"

definition mark_unrevoked :: "env \<Rightarrow> refresh_token \<Rightarrow> nat py" where
  "mark_unrevoked X token =
     and_then (utc_now X) (\<lambda>now. update_tokens (unrevoked_row (rt_id token)) (set_revoked now))"

definition t_revoke :: "env \<Rightarrow> refresh_token \<Rightarrow> refresh_token coroutine" where
  "t_revoke X token = t_then (atomically (mark_revoked X token)) (\<lambda>_. atomically (token_refresh token))"

text \<open>\<open>create_rotation_pair\<close> is one turn up to its commit (the first UPDATE locks the row), then two reads.\<close>

definition t_refresh_pair :: "refresh_token \<Rightarrow> refresh_token \<Rightarrow> refresh_token coroutine" where
  "t_refresh_pair old_token new_token =
     t_then (atomically (token_refresh new_token)) (\<lambda>n.
     t_then (atomically (token_refresh old_token)) (\<lambda>_. t_pure n))"

text \<open>The family walk; \<open>session\<close> holds the rows it has loaded, as in \<open>Concurrency\<close>.\<close>

fun t_family_walk ::
  "bool \<Rightarrow> nat \<Rightarrow> env \<Rightarrow> refresh_token list \<Rightarrow> uuid \<Rightarrow> refresh_token option coroutine" where
  "t_family_walk fresh 0 X session next_id = t_pure None"
| "t_family_walk fresh (Suc k) X session next_id =
     t_then (atomically (token_get_by_id next_id)) (\<lambda>found.
     case found of
       None \<Rightarrow> t_pure None
     | Some r \<Rightarrow>
         let candidate = loaded fresh session r in
         (case rt_replaced_by candidate of
            Some i \<Rightarrow> t_family_walk fresh k X (candidate # session) i
          | None \<Rightarrow>
              t_then (atomically (mark_unrevoked X candidate)) (\<lambda>rowcount.
              if rowcount = 0 then
                t_then (atomically (token_get_by_id (rt_id candidate))) (\<lambda>refreshed.
                case refreshed of
                  None \<Rightarrow> t_pure None
                | Some q \<Rightarrow>
                    (case rt_replaced_by (loaded fresh (candidate # session) q) of
                       None \<Rightarrow> t_pure None
                     | Some i \<Rightarrow> t_family_walk fresh k X (candidate # session) i))
              else t_then (atomically (token_refresh candidate)) (\<lambda>s. t_pure (Some s)))))"

definition t_revoke_descendants :: "env \<Rightarrow> bool \<Rightarrow> refresh_token \<Rightarrow> refresh_token option coroutine" where
  "t_revoke_descendants X fresh token =
     (case rt_replaced_by token of
        None \<Rightarrow> t_pure None
      | Some next_id \<Rightarrow> t_family_walk fresh MAX_FAMILY_WALK_STEPS X [token] next_id)"

section \<open>The authentication service\<close>

definition t_auth_register :: "env \<Rightarrow> string \<Rightarrow> string \<Rightarrow> register_response coroutine" where
  "t_auth_register X email password =
     t_then (atomically (hash_password X password)) (\<lambda>password_hash.
     t_then
       (t_except (t_create_user X email password_hash)
         (\<lambda>e. case e of
            Repository (DuplicateEmailError _) \<Rightarrow> Some (
              t_then (t_audit_record X USER_REGISTRATION_FAILED None (Some ''user'') None None
                 (Some [(''attempted_email'', JStr email), (''reason'', JStr ''duplicate_email'')]))
              (\<lambda>_. t_raise (Domain (EmailAlreadyExistsError
                 ''Unable to register with the provided details.''))))
          | _ \<Rightarrow> None)) (\<lambda>u.
     t_then (t_audit_record X USER_REGISTERED (Some (usr_id u)) (Some ''user'') (Some (usr_id u))
        None None) (\<lambda>_.
     t_pure \<lparr>reg_id = usr_id u, reg_email = usr_email u, reg_created_at = usr_created_at u\<rparr>)))"

text \<open>The tokens are generated before the INSERT that stores the hash.\<close>

definition issue_token_row :: "env \<Rightarrow> user \<Rightarrow> (token_response \<times> refresh_token) py" where
  "issue_token_row X u =
     and_then (create_access_token X (uuid_str (usr_id u))) (\<lambda>access_token.
     and_then (generate_refresh_token X) (\<lambda>raw_refresh_token.
     let token_hash = hash_refresh_token X raw_refresh_token in
     and_then (refresh_token_expiry X) (\<lambda>expires_at.
     and_then (refresh_token_create X (usr_id u) token_hash expires_at) (\<lambda>row.
     pure (\<lparr>resp_access_token = access_token, resp_refresh_token = raw_refresh_token,
            resp_token_type = ''bearer'', resp_expires_in = access_token_ttl_seconds X\<rparr>, row)))))"

definition t_issue_token_pair :: "env \<Rightarrow> user \<Rightarrow> token_response coroutine" where
  "t_issue_token_pair X u =
     t_then (atomically (issue_token_row X u)) (\<lambda>(pair, row).
     t_then (atomically (token_refresh row)) (\<lambda>_. t_pure pair))"

definition t_auth_login :: "env \<Rightarrow> string \<Rightarrow> string \<Rightarrow> token_response coroutine" where
  "t_auth_login X email password =
     t_then (atomically (user_get_by_email email)) (\<lambda>found.
     case found of
       None \<Rightarrow>
         t_then (t_audit_record X USER_LOGIN_FAILED None (Some ''user'') None None
            (Some [(''attempted_email'', JStr email), (''reason'', JStr ''unknown_email'')]))
         (\<lambda>_. t_raise (Domain (InvalidCredentialsError ''Invalid email or password.'')))
     | Some u \<Rightarrow>
         if \<not> usr_is_active u then
           t_then (t_audit_record X USER_LOGIN_FAILED (Some (usr_id u)) (Some ''user'')
              (Some (usr_id u)) None (Some [(''reason'', JStr ''inactive_account'')]))
           (\<lambda>_. t_raise (Domain (InactiveUserError ''Account is inactive.'')))
         else if \<not> verify_password X password (usr_password_hash u) then
           t_then (t_audit_record X USER_LOGIN_FAILED (Some (usr_id u)) (Some ''user'')
              (Some (usr_id u)) None (Some [(''reason'', JStr ''wrong_password'')]))
           (\<lambda>_. t_raise (Domain (InvalidCredentialsError ''Invalid email or password.'')))
         else
           t_then (t_update_last_login X u) (\<lambda>_.
           t_then (t_audit_record X USER_LOGIN_SUCCEEDED (Some (usr_id u)) (Some ''user'')
              (Some (usr_id u)) None None) (\<lambda>_.
           t_issue_token_pair X u)))"

definition t_record_rejection :: "env \<Rightarrow> refresh_token \<Rightarrow> string \<Rightarrow> audit_log coroutine" where
  "t_record_rejection X token reason =
     t_audit_record X REFRESH_TOKEN_REJECTED (Some (rt_user_id token)) (Some ''user'')
       (Some (rt_user_id token)) None (Some [(''reason'', JStr reason)])"

definition t_handle_revoked_token :: "env \<Rightarrow> bool \<Rightarrow> refresh_token \<Rightarrow> unit coroutine" where
  "t_handle_revoked_token X fresh token =
     (case rt_replaced_by token of
        None \<Rightarrow> t_then (t_record_rejection X token ''revoked_token'') (\<lambda>_. t_pure ())
      | Some _ \<Rightarrow>
          t_then (t_revoke_descendants X fresh token) (\<lambda>revoked_leaf.
          t_then (t_audit_record X REFRESH_TOKEN_REUSE_DETECTED (Some (rt_user_id token)) (Some ''user'')
             (Some (rt_user_id token)) None
             (Some [(''presented_token_id'', JStr (uuid_str (rt_id token))),
                    (''family_already_revoked'', JBool (revoked_leaf = None))])) (\<lambda>_.
          case revoked_leaf of
            None \<Rightarrow> t_pure ()
          | Some leaf \<Rightarrow>
              t_then (t_audit_record X REFRESH_TOKEN_FAMILY_REVOKED (Some (rt_user_id token))
                 (Some ''refresh_token'') (Some (rt_id leaf)) None
                 (Some [(''presented_token_id'', JStr (uuid_str (rt_id token)))])) (\<lambda>_.
              t_pure ()))))"

definition rotation :: "env \<Rightarrow> refresh_token \<Rightarrow> (string \<times> refresh_token option) py" where
  "rotation X token =
     and_then (generate_refresh_token X) (\<lambda>raw.
     and_then (refresh_token_expiry X) (\<lambda>expires_at.
     and_then (create_rotation_pair X token (hash_refresh_token X raw) expires_at) (\<lambda>new_token.
     pure (raw, new_token))))"

definition t_rotate_token :: "env \<Rightarrow> refresh_token \<Rightarrow> user \<Rightarrow> token_response coroutine" where
  "t_rotate_token X token u =
     t_then (atomically (rotation X token)) (\<lambda>(new_raw_refresh_token, new_token).
     case new_token of
       None \<Rightarrow>
         t_then (t_record_rejection X token ''concurrent_rotation_lost'') (\<lambda>_.
         t_raise invalid_refresh_token)
     | Some n \<Rightarrow>
         t_then (t_refresh_pair token n) (\<lambda>_.
         t_then (t_audit_record X REFRESH_TOKEN_ROTATED (Some (usr_id u)) (Some ''user'')
            (Some (usr_id u)) None None) (\<lambda>_.
         t_then (atomically (create_access_token X (uuid_str (usr_id u)))) (\<lambda>access_token.
         t_pure \<lparr>resp_access_token = access_token, resp_refresh_token = new_raw_refresh_token,
                 resp_token_type = ''bearer'', resp_expires_in = access_token_ttl_seconds X\<rparr>))))"

definition t_auth_refresh :: "env \<Rightarrow> bool \<Rightarrow> string \<Rightarrow> token_response coroutine" where
  "t_auth_refresh X fresh presented =
     t_then (atomically (token_get_by_hash (hash_refresh_token X presented))) (\<lambda>found.
     case found of
       None \<Rightarrow>
         t_then (t_audit_record X REFRESH_TOKEN_REJECTED None None None None
            (Some [(''reason'', JStr ''unknown_token'')])) (\<lambda>_.
         t_raise invalid_refresh_token)
     | Some token \<Rightarrow>
         if rt_revoked_at token \<noteq> None then
           t_then (t_handle_revoked_token X fresh token) (\<lambda>_. t_raise invalid_refresh_token)
         else
           t_then (atomically (utc_now X)) (\<lambda>now.
           if rt_expires_at token \<le> now then
             t_then (t_record_rejection X token ''expired_token'') (\<lambda>_. t_raise invalid_refresh_token)
           else
             t_then (atomically (user_get_by_id (rt_user_id token))) (\<lambda>owner.
             case owner of
               None \<Rightarrow>
                 t_then (t_record_rejection X token ''inactive_or_deleted_owner'') (\<lambda>_.
                 t_raise invalid_refresh_token)
             | Some u \<Rightarrow>
                 if \<not> usr_is_active u then
                   t_then (t_record_rejection X token ''inactive_or_deleted_owner'') (\<lambda>_.
                   t_raise invalid_refresh_token)
                 else t_rotate_token X token u)))"

definition t_auth_logout :: "env \<Rightarrow> string \<Rightarrow> unit coroutine" where
  "t_auth_logout X presented =
     t_then (atomically (token_get_by_hash (hash_refresh_token X presented))) (\<lambda>found.
     case found of
       None \<Rightarrow> t_pure ()
     | Some token \<Rightarrow>
         if rt_revoked_at token \<noteq> None then t_pure ()
         else
           t_then (t_revoke X token) (\<lambda>_.
           t_then (t_audit_record X USER_LOGOUT (Some (rt_user_id token)) (Some ''user'')
              (Some (rt_user_id token)) None None) (\<lambda>_.
           t_pure ())))"

section \<open>The authorization service\<close>

definition t_authorize ::
  "env \<Rightarrow> uuid \<Rightarrow> string \<Rightarrow> string \<Rightarrow> uuid option \<Rightarrow> authorization_decision coroutine" where
  "t_authorize X user_id resource action organization_id =
     t_then (atomically (user_get_by_id user_id)) (\<lambda>found.
     if (case found of None \<Rightarrow> True | Some u \<Rightarrow> \<not> usr_is_active u)
     then t_pure (decision False resource action organization_id)
     else
       t_then (atomically (get_permissions_for_user X user_id organization_id)) (\<lambda>ps.
       let allowed = (\<exists>p \<in> set ps. perm_resource p = resource \<and> perm_action p = action) in
       t_pure (decision allowed resource action organization_id)))"

definition t_create_role ::
  "env \<Rightarrow> string \<Rightarrow> string option \<Rightarrow> uuid option \<Rightarrow> uuid \<Rightarrow> role_response coroutine" where
  "t_create_role X name description organization_id actor =
     t_then
       (case organization_id of
          None \<Rightarrow> t_pure ()
        | Some i \<Rightarrow> t_then (atomically (require_organization i)) (\<lambda>_. t_pure ())) (\<lambda>_.
     t_then
       (t_except (t_role_create X name description organization_id)
         (\<lambda>e. case e of
            Repository (DuplicateRoleNameError _) \<Rightarrow>
              Some (t_raise (Domain (RoleNameAlreadyExistsError (''Role name already exists: '' @ name))))
          | _ \<Rightarrow> None)) (\<lambda>r.
     t_then (t_audit_record X ROLE_CREATED (Some actor) (Some ''role'') (Some (role_id r))
        (role_organization_id r) (Some [(''name'', JStr (role_name r))])) (\<lambda>_.
     t_pure (role_response r))))"

definition t_check_membership :: "uuid \<Rightarrow> uuid option \<Rightarrow> unit coroutine" where
  "t_check_membership user_id organization_id =
     (case organization_id of
        None \<Rightarrow> t_pure ()
      | Some g \<Rightarrow>
          t_then (atomically (require_organization g)) (\<lambda>_.
          t_then (atomically (is_member user_id g)) (\<lambda>member.
          if \<not> member
          then t_raise (Domain (UserNotOrganizationMemberError
                 (''User '' @ uuid_str user_id @ '' is not a member of organization '' @ uuid_str g)))
          else t_pure ())))"

definition t_assign_role :: "env \<Rightarrow> uuid \<Rightarrow> uuid \<Rightarrow> uuid option \<Rightarrow> uuid \<Rightarrow> unit coroutine" where
  "t_assign_role X user_id i organization_id actor =
     t_then (atomically (require_role i)) (\<lambda>r.
     if role_organization_id r \<noteq> None \<and> role_organization_id r \<noteq> organization_id
     then t_raise (Domain (RoleOrganizationMismatchError (mismatch_message i r organization_id)))
     else
       t_then (t_check_membership user_id organization_id) (\<lambda>_.
       t_then
         (t_except (t_then (t_user_role_assign X user_id i organization_id) (\<lambda>_. t_pure ()))
           (\<lambda>e. case e of
              Repository (DuplicateRoleAssignmentError _) \<Rightarrow>
                Some (t_raise (Domain (RoleAlreadyAssignedError
                  (assignment_message user_id i organization_id))))
            | _ \<Rightarrow> None)) (\<lambda>_.
       t_then (t_audit_record X ROLE_ASSIGNED (Some actor) (Some ''user'') (Some user_id)
          organization_id (Some [(''role_id'', JStr (uuid_str i))])) (\<lambda>_.
       t_pure ()))))"

definition t_revoke_role :: "env \<Rightarrow> uuid \<Rightarrow> uuid \<Rightarrow> uuid option \<Rightarrow> uuid \<Rightarrow> bool coroutine" where
  "t_revoke_role X user_id i organization_id actor =
     t_then (t_user_role_revoke user_id i organization_id) (\<lambda>revoked.
     t_then
       (if revoked
        then t_then (t_audit_record X ROLE_REVOKED (Some actor) (Some ''user'') (Some user_id)
               organization_id (Some [(''role_id'', JStr (uuid_str i))])) (\<lambda>_. t_pure ())
        else t_pure ()) (\<lambda>_.
     t_pure revoked))"

definition t_assign_permission_to_role :: "env \<Rightarrow> uuid \<Rightarrow> uuid \<Rightarrow> uuid \<Rightarrow> unit coroutine" where
  "t_assign_permission_to_role X i p actor =
     t_then (atomically (require_role i)) (\<lambda>r.
     t_then (atomically (permission_get_by_id p)) (\<lambda>found.
     case found of
       None \<Rightarrow> t_raise (Domain (PermissionNotFoundError (''Permission not found: '' @ uuid_str p)))
     | Some _ \<Rightarrow>
         t_then
           (t_except (atomically (add_permission i p))
             (\<lambda>e. case e of
                Repository (DuplicateRolePermissionError _) \<Rightarrow>
                  Some (t_raise (Domain (PermissionAlreadyAssignedError
                    (''Role '' @ uuid_str i @ '' already has permission '' @ uuid_str p))))
              | _ \<Rightarrow> None)) (\<lambda>_.
         t_then (t_audit_record X PERMISSION_ASSIGNED_TO_ROLE (Some actor) (Some ''role'') (Some i)
            (role_organization_id r) (Some [(''permission_id'', JStr (uuid_str p))])) (\<lambda>_.
         t_pure ()))))"

definition t_remove_permission_from_role :: "env \<Rightarrow> uuid \<Rightarrow> uuid \<Rightarrow> uuid \<Rightarrow> bool coroutine" where
  "t_remove_permission_from_role X i p actor =
     t_then (atomically (require_role i)) (\<lambda>r.
     t_then (atomically (remove_permission i p)) (\<lambda>removed.
     t_then
       (if removed
        then t_then (t_audit_record X PERMISSION_REMOVED_FROM_ROLE (Some actor) (Some ''role'') (Some i)
               (role_organization_id r) (Some [(''permission_id'', JStr (uuid_str p))])) (\<lambda>_. t_pure ())
        else t_pure ()) (\<lambda>_.
     t_pure removed)))"

section \<open>The organization and audit log services\<close>

definition t_create_organization :: "env \<Rightarrow> string \<Rightarrow> uuid \<Rightarrow> organization_response coroutine" where
  "t_create_organization X name actor =
     t_then
       (t_except (t_organization_create X name)
         (\<lambda>e. case e of
            Repository (DuplicateOrganizationNameError _) \<Rightarrow>
              Some (t_raise (Domain (OrganizationNameAlreadyExistsError
                (''Organization name already exists: '' @ name))))
          | _ \<Rightarrow> None)) (\<lambda>g.
     t_then (t_audit_record X ORGANIZATION_CREATED (Some actor) (Some ''organization'')
        (Some (org_id g)) (Some (org_id g)) (Some [(''name'', JStr (org_name g))])) (\<lambda>_.
     t_pure (organization_response g)))"

definition t_add_member :: "env \<Rightarrow> uuid \<Rightarrow> uuid \<Rightarrow> uuid \<Rightarrow> unit coroutine" where
  "t_add_member X user_id organization_id actor =
     t_then (atomically (user_get_by_id user_id)) (\<lambda>found.
     case found of
       None \<Rightarrow> t_raise (Domain (UserNotFoundError (''User not found: '' @ uuid_str user_id)))
     | Some _ \<Rightarrow>
         t_then (atomically (organization_exists organization_id)) (\<lambda>_.
         t_then
           (t_except (t_then (t_membership_add X user_id organization_id) (\<lambda>_. t_pure ()))
             (\<lambda>e. case e of
                Repository (DuplicateMembershipError _) \<Rightarrow>
                  Some (t_raise (Domain (OrganizationMembershipAlreadyExistsError
                    (''User '' @ uuid_str user_id @ '' is already a member of organization '' @
                     uuid_str organization_id))))
              | _ \<Rightarrow> None)) (\<lambda>_.
         t_then (t_audit_record X ORGANIZATION_MEMBER_ADDED (Some actor) (Some ''user'') (Some user_id)
            (Some organization_id) None) (\<lambda>_.
         t_pure ()))))"

definition t_remove_member :: "env \<Rightarrow> uuid \<Rightarrow> uuid \<Rightarrow> uuid \<Rightarrow> bool coroutine" where
  "t_remove_member X user_id organization_id actor =
     t_then (t_membership_remove user_id organization_id) (\<lambda>removed.
     t_then
       (if removed
        then t_then (t_audit_record X ORGANIZATION_MEMBER_REMOVED (Some actor) (Some ''user'')
               (Some user_id) (Some organization_id) None) (\<lambda>_. t_pure ())
        else t_pure ()) (\<lambda>_.
     t_pure removed))"

definition t_list_members :: "uuid \<Rightarrow> member_row list coroutine" where
  "t_list_members organization_id =
     t_then (atomically (organization_exists organization_id)) (\<lambda>_.
     atomically (get_members_for_organization organization_id))"

definition t_list_events ::
  "uuid option \<Rightarrow> uuid option \<Rightarrow> string option \<Rightarrow> int \<Rightarrow> int \<Rightarrow> audit_log_page coroutine" where
  "t_list_events organization_id actor_user_id action limit offset =
     t_then (atomically (audit_list_events organization_id actor_user_id action limit offset)) (\<lambda>events.
     t_then (atomically (audit_count_events organization_id actor_user_id action)) (\<lambda>total.
     t_pure \<lparr>page_events = events, page_total = total, page_limit = limit, page_offset = offset\<rparr>))"

section \<open>Dependencies and routes\<close>

definition t_require_permission :: "env \<Rightarrow> string \<Rightarrow> string \<Rightarrow> string option \<Rightarrow> user coroutine" where
  "t_require_permission X resource action authorization =
     t_then (atomically (get_current_user X authorization)) (\<lambda>u.
     t_then (t_authorize X (usr_id u) resource action None) (\<lambda>d.
     if \<not> dec_allowed d then t_raise (HTTPException 403 PERMISSION_DENIED_DETAIL)
     else t_pure u))"

definition t_excepting ::
  "(domain_error \<Rightarrow> (nat \<times> string) option) \<Rightarrow> 'a coroutine \<Rightarrow> 'a coroutine" where
  "t_excepting clauses t =
     t_except t (\<lambda>e. case e of
       Domain d \<Rightarrow>
         (case clauses d of
            None \<Rightarrow> None
          | Some (status, detail) \<Rightarrow> Some (t_raise (HTTPException status detail)))
     | _ \<Rightarrow> None)"

text \<open>A route behind a permission: who calls, what is done, and how it is answered.\<close>

definition t_admin ::
  "env \<Rightarrow> string \<Rightarrow> string \<Rightarrow> string option \<Rightarrow> (user \<Rightarrow> response coroutine) \<Rightarrow> response coroutine" where
  "t_admin X resource action auth handler = t_then (t_require_permission X resource action auth) handler"

definition t_answer :: "nat \<Rightarrow> ('a \<Rightarrow> body) \<Rightarrow> 'a coroutine \<Rightarrow> response coroutine" where
  "t_answer status body t = t_then t (\<lambda>result. t_pure (status, body result))"

fun serve :: "env \<Rightarrow> bool \<Rightarrow> string option \<Rightarrow> request \<Rightarrow> response coroutine" where
  "serve X fresh auth (Register email password) =
     (case email_str X email of
        None \<Rightarrow> t_raise unprocessable
      | Some address \<Rightarrow>
          if length password < 10 then t_raise unprocessable
          else t_answer 201 RegisterBody (t_excepting register_errors (t_auth_register X address password)))"
| "serve X fresh auth (Login email password) =
     (case email_str X email of
        None \<Rightarrow> t_raise unprocessable
      | Some address \<Rightarrow> t_answer 200 TokenBody (t_excepting login_errors (t_auth_login X address password)))"
| "serve X fresh auth (Refresh t) =
     t_answer 200 TokenBody (t_excepting refresh_errors (t_auth_refresh X fresh t))"
| "serve X fresh auth (Logout t) = t_answer 204 (\<lambda>_. EmptyBody) (t_auth_logout X t)"
| "serve X fresh auth (Authorize r a g) =
     t_then (atomically (get_current_user X auth)) (\<lambda>u.
     t_answer 200 DecisionBody (t_authorize X (usr_id u) r a g))"
| "serve X fresh auth (CreateRole name d g) =
     t_admin X ''role'' ''manage'' auth (\<lambda>admin.
     t_answer 201 RoleBody (t_excepting create_role_errors (t_create_role X name d g (usr_id admin))))"
| "serve X fresh auth (AssignPermission i p) =
     t_admin X ''role'' ''manage'' auth (\<lambda>admin.
     t_answer 204 (\<lambda>_. EmptyBody)
       (t_excepting assign_permission_errors (t_assign_permission_to_role X i p (usr_id admin))))"
| "serve X fresh auth (RemovePermission i p) =
     t_admin X ''role'' ''manage'' auth (\<lambda>admin.
     t_answer 204 (\<lambda>_. EmptyBody)
       (t_excepting remove_permission_errors (t_remove_permission_from_role X i p (usr_id admin))))"
| "serve X fresh auth (MyPermissions g) =
     t_then (atomically (get_current_user X auth)) (\<lambda>u.
     t_answer 200 PermissionsBody (atomically (get_user_permissions X (usr_id u) g)))"
| "serve X fresh auth (AssignRole u i g) =
     t_admin X ''user'' ''manage'' auth (\<lambda>admin.
     t_answer 204 (\<lambda>_. EmptyBody) (t_excepting assign_role_errors (t_assign_role X u i g (usr_id admin))))"
| "serve X fresh auth (RevokeRole u i g) =
     t_admin X ''user'' ''manage'' auth (\<lambda>admin.
     t_answer 204 (\<lambda>_. EmptyBody) (t_revoke_role X u i g (usr_id admin)))"
| "serve X fresh auth (UserPermissions u g) =
     t_admin X ''user'' ''manage'' auth (\<lambda>_.
     t_answer 200 PermissionsBody (atomically (get_user_permissions X u g)))"
| "serve X fresh auth (CreateOrganization name) =
     t_admin X ''organization'' ''manage'' auth (\<lambda>admin.
     t_answer 201 OrganizationBody
       (t_excepting create_organization_errors (t_create_organization X name (usr_id admin))))"
| "serve X fresh auth (AddMember g u) =
     t_admin X ''organization'' ''manage'' auth (\<lambda>admin.
     t_answer 204 (\<lambda>_. EmptyBody) (t_excepting add_member_errors (t_add_member X u g (usr_id admin))))"
| "serve X fresh auth (RemoveMember g u) =
     t_admin X ''organization'' ''manage'' auth (\<lambda>admin.
     t_answer 204 (\<lambda>_. EmptyBody) (t_remove_member X u g (usr_id admin)))"
| "serve X fresh auth (ListMembers g) =
     t_admin X ''organization'' ''manage'' auth (\<lambda>_.
     t_answer 200 MembersBody (t_excepting list_members_errors (t_list_members g)))"
| "serve X fresh auth MyOrganizations =
     t_then (atomically (get_current_user X auth)) (\<lambda>u.
     t_answer 200 OrganizationsBody (atomically (list_organizations_for_user X (usr_id u))))"
| "serve X fresh auth (ListAuditLogs g u a limit offset) =
     t_admin X ''audit'' ''view'' auth (\<lambda>_.
     let l = (case limit of None \<Rightarrow> 50 | Some v \<Rightarrow> v); off = (case offset of None \<Rightarrow> 0 | Some v \<Rightarrow> v) in
     if l < 1 \<or> 200 < l \<or> off < 0 then t_raise unprocessable
     else t_answer 200 AuditPageBody (t_list_events g u a l off))"
| "serve X fresh auth Health = t_pure (200, HealthBody)"

lemmas turn_defs = t_create_user_def t_update_last_login_def t_role_create_def t_user_role_assign_def
  t_organization_create_def t_membership_add_def t_audit_record_def t_user_role_revoke_def
  t_membership_remove_def t_revoke_def t_refresh_pair_def t_revoke_descendants_def t_auth_register_def
  t_issue_token_pair_def t_auth_login_def t_record_rejection_def t_handle_revoked_token_def
  t_rotate_token_def t_auth_refresh_def t_auth_logout_def t_authorize_def t_create_role_def
  t_check_membership_def t_assign_role_def t_revoke_role_def t_assign_permission_to_role_def
  t_remove_permission_from_role_def t_create_organization_def t_add_member_def t_remove_member_def
  t_list_members_def t_list_events_def t_require_permission_def t_excepting_def t_admin_def t_answer_def

section \<open>How many turns\<close>

text \<open>
  A bound for every request. A refresh that finds a reused token takes the most, three
  turns for each iteration of the walk.
\<close>

lemma within_turns_choice:
  "within_turns t m \<Longrightarrow> within_turns t' n \<Longrightarrow> within_turns (if b then t else t') (max m n)"
  "within_turns t m \<Longrightarrow> (\<And>x. within_turns (f x) n) \<Longrightarrow>
   within_turns (case v of None \<Rightarrow> t | Some x \<Rightarrow> f x) (max m n)"
  "(\<And>x y. within_turns (g x y) n) \<Longrightarrow> within_turns (case p of (x, y) \<Rightarrow> g x y) n"
  "within_turns (f z) n \<Longrightarrow> within_turns (let x = z in f x) n"
  by (auto intro: within_turns_mono [of _ m] within_turns_mono [of _ n] split: option.split prod.split)

lemma within_turns_steps:
  "within_turns (atomically m) 1" "within_turns (t_pure x) 0" "within_turns (t_raise e) 0"
  by (auto simp: within_turns_atomically)

lemmas turn_rules = within_turns_then within_turns_choice within_turns_steps

lemma within_turns_insert: "within_turns (t_insert c q) 2"
  unfolding t_insert_def by (rule within_turns_mono, (rule turn_rules)+) simp

lemma within_turns_repositories:
  "within_turns (t_create_user X e h) 2" "within_turns (t_update_last_login X u) 2"
  "within_turns (t_role_create X name d g) 2" "within_turns (t_user_role_assign X i r g) 2"
  "within_turns (t_organization_create X name) 2" "within_turns (t_membership_add X i o1) 2"
  "within_turns (t_audit_record X ac a tt ti og md) 2"
  unfolding turn_defs by (rule within_turns_insert)+

lemma within_turns_deletes:
  "within_turns (t_user_role_revoke i r g) 2" "within_turns (t_membership_remove i o1) 2"
  "within_turns (t_revoke X t) 2" "within_turns (t_refresh_pair t t') 2"
  unfolding t_user_role_revoke_def t_membership_remove_def t_revoke_def t_refresh_pair_def
  by (rule within_turns_mono, (rule turn_rules)+, simp)+

lemma within_turns_walk: "within_turns (t_family_walk fresh k X session i) (3 * k)"
proof (induction k arbitrary: session i)
  case (Suc k)
  show ?case
    unfolding t_family_walk.simps
    by (rule within_turns_mono, (rule turn_rules Suc.IH)+) simp
qed (simp add: within_turns_pure)

lemma within_turns_handled:
  assumes "within_turns t m" and "\<And>e t'. h e = Some t' \<Longrightarrow> t' = u" and "within_turns u n"
  shows "within_turns (t_except t h) (m + n)"
  by (rule within_turns_except [OF assms(1)]) (use assms(2,3) in blast)

lemmas handlers = duplicate_email_handler role_name_handler role_assignment_handler role_permission_handler
  organization_name_handler membership_handler

lemmas turn_rules_all = turn_rules within_turns_handled within_turns_repositories within_turns_deletes

lemma within_turns_auth:
  "within_turns (t_auth_register X e p) 7" "within_turns (t_auth_login X e p) 8"
  "within_turns (t_auth_refresh X fresh t) 80" "within_turns (t_auth_logout X t) 5"
proof -
  show "within_turns (t_auth_register X e p) 7"
    unfolding t_auth_register_def
    by (rule within_turns_mono, (rule turn_rules_all | erule handlers)+) simp
  show "within_turns (t_auth_login X e p) 8"
    unfolding t_auth_login_def t_issue_token_pair_def
    by (rule within_turns_mono, (rule turn_rules_all)+) simp
  show "within_turns (t_auth_refresh X fresh t) 80"
    unfolding t_auth_refresh_def t_handle_revoked_token_def t_revoke_descendants_def t_rotate_token_def
      t_record_rejection_def
    by (rule within_turns_mono, (rule turn_rules_all within_turns_walk)+) (simp add: MAX_FAMILY_WALK_STEPS_def)
  show "within_turns (t_auth_logout X t) 5"
    unfolding t_auth_logout_def by (rule within_turns_mono, (rule turn_rules_all)+) simp
qed

lemma within_turns_services:
  "within_turns (t_authorize X i re a g) 2" "within_turns (t_create_role X name d g actor) 5"
  "within_turns (t_assign_role X i r g actor) 7" "within_turns (t_revoke_role X i r g actor) 4"
  "within_turns (t_assign_permission_to_role X r q actor) 5"
  "within_turns (t_remove_permission_from_role X r q actor) 4"
  "within_turns (t_create_organization X name actor) 4" "within_turns (t_add_member X i o1 actor) 6"
  "within_turns (t_remove_member X i o1 actor) 4" "within_turns (t_list_members o1) 2"
  "within_turns (t_list_events g ac' ac l off) 2"
  unfolding t_authorize_def t_create_role_def t_assign_role_def t_check_membership_def t_revoke_role_def
    t_assign_permission_to_role_def t_remove_permission_from_role_def t_create_organization_def
    t_add_member_def t_remove_member_def t_list_members_def t_list_events_def
  by (rule within_turns_mono, (rule turn_rules_all | erule handlers)+, simp)+

lemma within_turns_routes:
  "within_turns t n \<Longrightarrow> within_turns (t_excepting c t) n"
  "within_turns t n \<Longrightarrow> within_turns (t_answer st b t) n"
  "(\<And>u. within_turns (f u) n) \<Longrightarrow> within_turns (t_admin X r a auth f) (3 + n)"
proof -
  show "within_turns (t_excepting c t) n" if "within_turns t n"
    unfolding t_excepting_def
    by (rule within_turns_except [OF that, where n = 0, simplified])
      (auto simp: within_turns_raise split: exn.splits option.splits prod.splits)
  show "within_turns (t_answer st b t) n" if "within_turns t n"
    unfolding t_answer_def
    by (rule within_turns_then [OF that, where n = 0, simplified]) (rule within_turns_pure)
  have "within_turns (t_require_permission X r a auth) 3"
    unfolding t_require_permission_def
    by (rule within_turns_mono, (rule turn_rules within_turns_services)+) simp
  then show "within_turns (t_admin X r a auth f) (3 + n)" if "\<And>u. within_turns (f u) n"
    unfolding t_admin_def by (rule within_turns_then) (rule that)
qed

lemma serve_turns: "within_turns (serve X fresh auth req) 80"
  by (cases req; simp only: serve.simps;
      rule within_turns_mono, (rule turn_rules within_turns_routes within_turns_services within_turns_auth)+, simp)

end
