(* ===== verification/Turns_Alone.thy ===== *)
theory Turns_Alone
  imports Turns Requests
begin

text \<open>
  Served alone, a request does what the sequential model says: splitting the program into
  turns, reading each inserted row back, and the rows the session keeps make no difference
  when nobody else is about.
\<close>

section \<open>Combinators\<close>

lemma alone_choice [simp]:
  "alone (if b then t else t') = (if b then alone t else alone t')"
  "alone (case v of None \<Rightarrow> t | Some x \<Rightarrow> f x) = (case v of None \<Rightarrow> alone t | Some x \<Rightarrow> alone (f x))"
  "alone (case p of (x, y) \<Rightarrow> g x y) = (case p of (x, y) \<Rightarrow> alone (g x y))"
  by (simp_all split: option.split prod.split)

lemma alone_handlers [simp]:
  "map_option alone (case e of Repository (DuplicateEmailError _) \<Rightarrow> Some t | _ \<Rightarrow> None) =
   (case e of Repository (DuplicateEmailError _) \<Rightarrow> Some (alone t) | _ \<Rightarrow> None)"
  "map_option alone (case e of Repository (DuplicateRoleNameError _) \<Rightarrow> Some t | _ \<Rightarrow> None) =
   (case e of Repository (DuplicateRoleNameError _) \<Rightarrow> Some (alone t) | _ \<Rightarrow> None)"
  "map_option alone (case e of Repository (DuplicateRoleAssignmentError _) \<Rightarrow> Some t | _ \<Rightarrow> None) =
   (case e of Repository (DuplicateRoleAssignmentError _) \<Rightarrow> Some (alone t) | _ \<Rightarrow> None)"
  "map_option alone (case e of Repository (DuplicateRolePermissionError _) \<Rightarrow> Some t | _ \<Rightarrow> None) =
   (case e of Repository (DuplicateRolePermissionError _) \<Rightarrow> Some (alone t) | _ \<Rightarrow> None)"
  "map_option alone (case e of Repository (DuplicateOrganizationNameError _) \<Rightarrow> Some t | _ \<Rightarrow> None) =
   (case e of Repository (DuplicateOrganizationNameError _) \<Rightarrow> Some (alone t) | _ \<Rightarrow> None)"
  "map_option alone (case e of Repository (DuplicateMembershipError _) \<Rightarrow> Some t | _ \<Rightarrow> None) =
   (case e of Repository (DuplicateMembershipError _) \<Rightarrow> Some (alone t) | _ \<Rightarrow> None)"
  by (simp_all split: exn.split repository_error.split)

lemma alone_excepting [simp]:
  fixes t :: "'a coroutine"
  shows "alone (t_excepting c t) = excepting c (alone t)"
proof -
  have "map_option alone (case e of
       Domain d \<Rightarrow> (case c d of None \<Rightarrow> None | Some (st, de) \<Rightarrow> Some (t_raise (HTTPException st de) :: 'a coroutine))
     | _ \<Rightarrow> None) =
    (case e of
       Domain d \<Rightarrow> (case c d of None \<Rightarrow> None | Some (st, de) \<Rightarrow> Some (raise (HTTPException st de)))
     | _ \<Rightarrow> None)" for e
    by (auto split: exn.split option.split)
  then show ?thesis by (simp only: t_excepting_def excepting_def alone_except)
qed

lemma and_then_agree:
  assumes "m w = m' w" and "\<And>x w'. m' w = (Inr x, w') \<Longrightarrow> f x w' = g x w'"
  shows "and_then m f w = and_then m' g w"
  using assms by (auto simp: run_simps split: prod.split sum.split)

lemma excepting_agree: "m w = m' w \<Longrightarrow> excepting c m w = excepting c m' w"
  by (simp add: excepting_def run_simps)

section \<open>Repositories\<close>

text \<open>The row that was just inserted is found under its id.\<close>

lemma alone_insert:
  assumes "\<And>w r w'. create w = (Inr r, w') \<Longrightarrow> query r w' = [r]"
  shows "alone (t_insert create query) = create"
proof (rule ext)
  fix w
  obtain res w' where c: "create w = (res, w')" by (cases "create w")
  show "alone (t_insert create query) w = create w"
  proof (cases res)
    case (Inr r)
    with c assms [of w r w'] show ?thesis by (simp add: t_insert_def run_simps session_refresh_def)
  qed (use c in \<open>simp add: t_insert_def run_simps\<close>)
qed

lemma alone_inserts [simp]:
  "alone (t_create_user X e h) = create_user X e h"
  "alone (t_role_create X name d g) = role_create X name d g"
  "alone (t_user_role_assign X u i g) = user_role_assign X u i g"
  "alone (t_organization_create X name) = organization_create X name"
  "alone (t_membership_add X u i) = membership_add X u i"
  "alone (t_audit_record X ac a tt ti g md) = audit_record X ac a tt ti g md"
proof -
  show "alone (t_create_user X e h) = create_user X e h"
    unfolding t_create_user_def
    by (rule alone_insert, erule create_user_cases)
      (simp_all add: user_rows_def filter_key_none user_consistent_def ids_def)
  show "alone (t_role_create X name d g) = role_create X name d g"
    unfolding t_role_create_def
    by (rule alone_insert, erule role_create_cases)
      (simp_all add: role_rows_def filter_key_none role_consistent_def ids_def)
  show "alone (t_user_role_assign X u i g) = user_role_assign X u i g"
    unfolding t_user_role_assign_def
    by (rule alone_insert, erule user_role_assign_cases)
      (simp_all add: assignment_rows_def filter_key_none user_role_consistent_def ids_def)
  show "alone (t_organization_create X name) = organization_create X name"
    unfolding t_organization_create_def
    by (rule alone_insert, erule organization_create_cases)
      (simp_all add: organization_rows_def filter_key_none organization_consistent_def ids_def)
  show "alone (t_membership_add X u i) = membership_add X u i"
    unfolding t_membership_add_def
    by (rule alone_insert, erule membership_add_cases)
      (simp_all add: membership_rows_def filter_key_none membership_consistent_def ids_def)
  show "alone (t_audit_record X ac a tt ti g md) = audit_record X ac a tt ti g md"
    unfolding t_audit_record_def
    by (rule alone_insert)
      (auto simp: audit_record_def insert_new_run insert_row_def store_audit_log_def log_rows_def
        filter_key_none audit_log_consistent_def ids_def split: if_splits)
qed

lemma alone_deletes [simp]:
  "alone (t_user_role_revoke u i g) = user_role_revoke u i g"
  "alone (t_membership_remove u i) = membership_remove u i"
  by (simp_all add: t_user_role_revoke_def user_role_revoke_def t_membership_remove_def membership_remove_def
      cong: option.case_cong)

lemma alone_revoke [simp]: "alone (t_revoke X t) = revoke X t"
  by (simp add: t_revoke_def revoke_def mark_revoked_def and_then_assoc)

section \<open>Services\<close>

lemma alone_services [simp]:
  "alone (t_auth_register X e p) = auth_register X e p"
  "alone (t_auth_logout X t) = auth_logout X t"
  "alone (t_authorize X u re a g) = authorize X u re a g"
  "alone (t_create_role X name d g actor) = create_role X name d g actor"
  "alone (t_assign_role X u i g actor) = assign_role X u i g actor"
  "alone (t_revoke_role X u i g actor) = revoke_role X u i g actor"
  "alone (t_assign_permission_to_role X i q actor) = assign_permission_to_role X i q actor"
  "alone (t_remove_permission_from_role X i q actor) = remove_permission_from_role X i q actor"
  "alone (t_create_organization X name actor) = create_organization X name actor"
  "alone (t_add_member X u i actor) = add_member X u i actor"
  "alone (t_remove_member X u i actor) = remove_member X u i actor"
  "alone (t_list_members i) = list_members i"
  "alone (t_list_events g u' ac l off) = list_events g u' ac l off"
  "alone (t_require_permission X re a auth) = require_permission X re a auth"
  by (simp_all add: t_auth_register_def auth_register_def t_auth_logout_def auth_logout_def
      t_authorize_def authorize_def t_create_role_def create_role_def t_check_membership_def
      check_membership_def t_assign_role_def assign_role_def t_revoke_role_def revoke_role_def
      t_assign_permission_to_role_def assign_permission_to_role_def t_remove_permission_from_role_def
      remove_permission_from_role_def t_create_organization_def create_organization_def
      t_add_member_def add_member_def t_remove_member_def remove_member_def t_list_members_def
      list_members_def t_list_events_def list_events_def t_require_permission_def require_permission_def
      Let_def cong: if_cong option.case_cong exn.case_cong repository_error.case_cong)

section \<open>Reading rows back\<close>

lemma read_back:
  assumes "query w \<noteq> []"
  shows "and_then (session_refresh query) (\<lambda>_. m) w = m w"
  using assms by (cases "query w") (simp_all add: session_refresh_def run_simps)

lemma token_read_back:
  assumes "rt_id t \<in> ids rt_id (refresh_tokens w)"
  shows "and_then (token_refresh t) (\<lambda>_. m) w = m w"
proof -
  from assms have "filter (\<lambda>r. rt_id r = rt_id t) (refresh_tokens w) \<noteq> []"
    by (auto simp: ids_def filter_empty_conv)
  then show ?thesis unfolding token_refresh_def by (rule read_back)
qed

lemma scalar_found: "scalar_one_or_none q w = (Inr (Some r), w') \<Longrightarrow> r \<in> set (q w) \<and> w' = w"
  by (auto simp: scalar_one_or_none_def split: list.splits)

section \<open>Logging in\<close>

lemma update_last_login_stored:
  assumes "u \<in> set (users w)" and "update_last_login X u w = (Inr v, w')"
  shows "user_rows (usr_id v) w' \<noteq> []"
proof -
  have "v \<in> set (users w')" "usr_id v = usr_id u"
    using assms by (auto simp: update_last_login_run Let_def update_where_set)
  then show ?thesis by (auto simp: user_rows_def filter_empty_conv)
qed

lemma login_read_back:
  assumes "u \<in> set (users w)"
  shows "and_then (alone (t_update_last_login X u)) (\<lambda>_. m) w = and_then (update_last_login X u) (\<lambda>_. m) w"
  unfolding t_update_last_login_def t_insert_def alone_then alone_atomically and_then_assoc
  by (rule and_then_agree [OF refl]) (rule read_back [OF update_last_login_stored [OF assms]])

lemma issue_token_pair_row: "issue_token_pair X u = and_then (issue_token_row X u) (\<lambda>(pair, row). pure pair)"
  by (simp add: issue_token_pair_def issue_token_row_def Let_def and_then_assoc)

lemma refresh_token_create_stored:
  "refresh_token_create X i h e w = (Inr t, w') \<Longrightarrow> rt_id t \<in> ids rt_id (refresh_tokens w')"
  by (erule refresh_token_create_cases) (auto simp: ids_def)

lemma issue_token_row_stored:
  "issue_token_row X u w = (Inr (pair, row), w') \<Longrightarrow> rt_id row \<in> ids rt_id (refresh_tokens w')"
  by (auto simp: issue_token_row_def Let_def and_then_run pure_run split: prod.splits sum.splits
      dest: refresh_token_create_stored)

lemma alone_issue_token_pair [simp]: "alone (t_issue_token_pair X u) = issue_token_pair X u"
proof (rule ext)
  show "alone (t_issue_token_pair X u) w = issue_token_pair X u w" for w
    unfolding issue_token_pair_row t_issue_token_pair_def alone_then alone_atomically
    by (rule and_then_agree [OF refl]) (auto simp: token_read_back [OF issue_token_row_stored])
qed

lemma user_by_email_stored: "user_get_by_email e w = (Inr (Some u), w') \<Longrightarrow> u \<in> set (users w')"
  unfolding user_get_by_email_def by (auto dest!: scalar_found)

lemma alone_auth_login [simp]: "alone (t_auth_login X e p) = auth_login X e p"
proof (rule ext)
  show "alone (t_auth_login X e p) w = auth_login X e p w" for w
    unfolding t_auth_login_def auth_login_def alone_then alone_atomically
    by (rule and_then_agree [OF refl])
      (auto simp: login_read_back dest: user_by_email_stored split: option.split)
qed

section \<open>Refreshing\<close>

text \<open>The rows a session has loaded are the rows of the table while nobody else writes.\<close>

definition current :: "refresh_token list \<Rightarrow> world \<Rightarrow> bool" where
  "current session w = (distinct (map rt_id (refresh_tokens w)) \<and> set session \<subseteq> set (refresh_tokens w))"

lemma loaded_current:
  assumes "current session w" and "r \<in> set (refresh_tokens w)"
  shows "loaded fresh session r = r"
proof (cases "find (\<lambda>c. rt_id c = rt_id r) session")
  case (Some c)
  then have "c \<in> set session" "rt_id c = rt_id r" by (auto simp: find_Some_iff)
  with assms have "c = r" by (auto simp: current_def dest: distinct_map_eqD)
  with Some show ?thesis by (simp add: loaded_def)
qed (simp add: loaded_def)

lemma token_by_id_stored: "token_get_by_id i w = (Inr (Some r), w') \<Longrightarrow> r \<in> set (refresh_tokens w') \<and> w' = w"
  unfolding token_get_by_id_def by (auto dest!: scalar_found)

lemma token_by_hash_stored: "token_get_by_hash h w = (Inr (Some r), w') \<Longrightarrow> r \<in> set (refresh_tokens w') \<and> w' = w"
  unfolding token_get_by_hash_def by (auto dest!: scalar_found)

text \<open>An UPDATE that hits no row leaves the table.\<close>

lemma mark_unrevoked_none:
  assumes "mark_unrevoked X t w = (Inr 0, w')"
  shows "refresh_tokens w' = refresh_tokens w"
proof -
  from assms have "filter (unrevoked_row (rt_id t)) (refresh_tokens w) = []"
    and w': "refresh_tokens w' = update_where (unrevoked_row (rt_id t)) (set_revoked (utc_clock X (draws w))) (refresh_tokens w)"
    by (auto simp: mark_unrevoked_def utc_now_def run_simps)
  then show ?thesis unfolding w' by (intro update_where_none) (auto simp: filter_empty_conv)
qed

lemma family_walk_marks:
  "family_walk (Suc k) X i =
     and_then (token_get_by_id i) (\<lambda>found.
     case found of
       None \<Rightarrow> pure None
     | Some candidate \<Rightarrow>
         (case rt_replaced_by candidate of
            Some j \<Rightarrow> family_walk k X j
          | None \<Rightarrow>
              and_then (mark_unrevoked X candidate) (\<lambda>rowcount.
              if rowcount = 0 then
                and_then (token_get_by_id (rt_id candidate)) (\<lambda>refreshed.
                case refreshed of
                  None \<Rightarrow> pure None
                | Some r \<Rightarrow>
                    (case rt_replaced_by r of None \<Rightarrow> pure None | Some j \<Rightarrow> family_walk k X j))
              else and_then (token_refresh candidate) (\<lambda>r. pure (Some r)))))"
  by (simp add: mark_unrevoked_def and_then_assoc cong: option.case_cong)

lemma alone_family_walk:
  "current session w \<Longrightarrow> alone (t_family_walk fresh k X session i) w = family_walk k X i w"
proof (induction k arbitrary: session i w)
  case 0
  then show ?case by simp
next
  case (Suc k)
  show ?case
    unfolding t_family_walk.simps family_walk_marks alone_then alone_atomically
  proof (rule and_then_agree [OF refl])
    fix found w' assume run: "token_get_by_id i w = (Inr found, w')"
    show "alone (case found of
       None \<Rightarrow> t_pure None
     | Some r \<Rightarrow>
         let candidate = loaded fresh session r in
         (case rt_replaced_by candidate of
            Some i \<Rightarrow> t_family_walk fresh k X (candidate # session) i
          | None \<Rightarrow>
              t_then (atomically (mark_unrevoked X candidate)) (\<lambda>rowcount.
              if rowcount = 0 then
                t_then (atomically (token_get_by_id (rt_id candidate))) (\<lambda>refreshed.
                case refreshed of
                  None \<Rightarrow> t_pure None
                | Some q \<Rightarrow>
                    (case rt_replaced_by (loaded fresh (candidate # session) q) of
                       None \<Rightarrow> t_pure None
                     | Some i \<Rightarrow> t_family_walk fresh k X (candidate # session) i))
              else t_then (atomically (token_refresh candidate)) (\<lambda>s. t_pure (Some s))))) w' =
      (case found of
       None \<Rightarrow> pure None
     | Some candidate \<Rightarrow>
         (case rt_replaced_by candidate of
            Some j \<Rightarrow> family_walk k X j
          | None \<Rightarrow>
              and_then (mark_unrevoked X candidate) (\<lambda>rowcount.
              if rowcount = 0 then
                and_then (token_get_by_id (rt_id candidate)) (\<lambda>refreshed.
                case refreshed of
                  None \<Rightarrow> pure None
                | Some r \<Rightarrow>
                    (case rt_replaced_by r of None \<Rightarrow> pure None | Some j \<Rightarrow> family_walk k X j))
              else and_then (token_refresh candidate) (\<lambda>r. pure (Some r))))) w'"
    proof (cases found)
      case (Some r)
      with run token_by_id_stored have r: "r \<in> set (refresh_tokens w')" and w': "w' = w" by blast+
      with Suc.prems have load: "loaded fresh session r = r" and cur: "current (r # session) w'"
        by (auto simp: current_def intro: loaded_current)
      have later: "current (r # session) v" if "refresh_tokens v = refresh_tokens w'" for v
        using cur that by (simp add: current_def)
      show ?thesis
      proof (cases "rt_replaced_by r")
        case None
        with Some load show ?thesis
          by (auto simp: Let_def intro!: and_then_agree dest!: mark_unrevoked_none [THEN later] token_by_id_stored
              simp: loaded_current Suc.IH split: option.split)
      qed (use Some load Suc.IH [OF cur] in \<open>simp add: Let_def\<close>)
    qed simp
  qed
qed

lemma alone_revoke_descendants:
  assumes "distinct (map rt_id (refresh_tokens w))" and "t \<in> set (refresh_tokens w)"
  shows "alone (t_revoke_descendants X fresh t) w = revoke_descendants X t w"
  using assms alone_family_walk [of "[t]" w]
  by (simp add: t_revoke_descendants_def revoke_descendants_def current_def split: option.split)

lemma alone_handle_revoked_token:
  assumes "distinct (map rt_id (refresh_tokens w))" and "t \<in> set (refresh_tokens w)"
  shows "alone (t_handle_revoked_token X fresh t) w = handle_revoked_token X t w"
proof (cases "rt_replaced_by t")
  case (Some i)
  then show ?thesis
    using and_then_agree [of "alone (t_revoke_descendants X fresh t)" w "revoke_descendants X t",
        OF alone_revoke_descendants [OF assms] refl]
    by (simp add: t_handle_revoked_token_def handle_revoked_token_def cong: option.case_cong)
qed (simp add: t_handle_revoked_token_def handle_revoked_token_def t_record_rejection_def record_rejection_def)

lemma rotation_pair_stored:
  assumes "create_rotation_pair X t h e w = (Inr (Some n), w')" and "t \<in> set (refresh_tokens w)"
  shows "rt_id n \<in> ids rt_id (refresh_tokens w') \<and> rt_id t \<in> ids rt_id (refresh_tokens w')"
  using assms(1)
proof (cases rule: create_rotation_pair_cases)
  case (won new ts)
  have i: "ids rt_id (update_where P (set_replaced j) xs) = ids rt_id xs" for P j xs
    by (metis ids_def list.set_map update_where_map set_replaced_simps(1))
  have "ids rt_id ts = ids rt_id (refresh_tokens w)"
    unfolding won(3) by (metis ids_def list.set_map update_where_map set_revoked_simps(1))
  with assms(2) won show ?thesis by (simp add: i) (simp add: ids_def)
qed simp_all

lemma rotation_stored:
  assumes "rotation X t w = (Inr (raw, Some n), w')" and "t \<in> set (refresh_tokens w)"
  shows "rt_id n \<in> ids rt_id (refresh_tokens w')" and "rt_id t \<in> ids rt_id (refresh_tokens w')"
proof -
  from assms(1) obtain h e v where "create_rotation_pair X t h e v = (Inr (Some n), w')"
    and "refresh_tokens v = refresh_tokens w"
    by (auto simp: rotation_def generate_refresh_token_def refresh_token_expiry_def utc_now_def run_simps
        split: prod.splits sum.splits)
  with rotation_pair_stored assms(2) show "rt_id n \<in> ids rt_id (refresh_tokens w')"
    and "rt_id t \<in> ids rt_id (refresh_tokens w')" by metis+
qed

lemma rotate_token_rotation:
  "rotate_token X t u =
     and_then (rotation X t) (\<lambda>(raw, new_token).
     case new_token of
       None \<Rightarrow>
         and_then (record_rejection X t ''concurrent_rotation_lost'') (\<lambda>_. raise invalid_refresh_token)
     | Some n \<Rightarrow>
         and_then (audit_record X REFRESH_TOKEN_ROTATED (Some (usr_id u)) (Some ''user'')
            (Some (usr_id u)) None None) (\<lambda>_.
         and_then (create_access_token X (uuid_str (usr_id u))) (\<lambda>access_token.
         pure \<lparr>resp_access_token = access_token, resp_refresh_token = raw,
               resp_token_type = ''bearer'', resp_expires_in = access_token_ttl_seconds X\<rparr>)))"
  by (simp add: rotate_token_def rotation_def Let_def and_then_assoc)

lemma alone_rotate_token:
  assumes "t \<in> set (refresh_tokens w)"
  shows "alone (t_rotate_token X t u) w = rotate_token X t u w"
  unfolding t_rotate_token_def rotate_token_rotation alone_then alone_atomically
  by (rule and_then_agree [OF refl])
    (auto simp: t_record_rejection_def record_rejection_def t_refresh_pair_def and_then_assoc
      token_read_back [OF rotation_stored(1) [OF _ assms]] token_read_back [OF rotation_stored(2) [OF _ assms]]
      split: option.split)

lemma alone_auth_refresh:
  assumes "distinct (map rt_id (refresh_tokens w))"
  shows "alone (t_auth_refresh X fresh p) w = auth_refresh X p w"
  unfolding t_auth_refresh_def auth_refresh_def Let_def alone_then alone_atomically
proof (rule and_then_agree [OF refl])
  fix found w' assume run: "token_get_by_hash (hash_refresh_token X p) w = (Inr found, w')"
  show "alone (case found of
       None \<Rightarrow>
         t_then (t_audit_record X REFRESH_TOKEN_REJECTED None None None None
            (Some [(''reason'', JStr ''unknown_token'')])) (\<lambda>_. t_raise invalid_refresh_token)
     | Some token \<Rightarrow>
         if rt_revoked_at token \<noteq> None then
           t_then (t_handle_revoked_token X fresh token) (\<lambda>_. t_raise invalid_refresh_token)
         else
           t_then (atomically (utc_now X)) (\<lambda>now.
           if rt_expires_at token \<le> now then
             t_then (t_record_rejection X token ''expired_token'') (\<lambda>_. t_raise invalid_refresh_token)
           else
             t_then (atomically (user_get_by_id (rt_user_id token))) (\<lambda>owner.
             case owner of
               None \<Rightarrow>
                 t_then (t_record_rejection X token ''inactive_or_deleted_owner'') (\<lambda>_. t_raise invalid_refresh_token)
             | Some u \<Rightarrow>
                 if \<not> usr_is_active u then
                   t_then (t_record_rejection X token ''inactive_or_deleted_owner'') (\<lambda>_. t_raise invalid_refresh_token)
                 else t_rotate_token X token u))) w' =
     (case found of
        None \<Rightarrow>
          and_then (audit_record X REFRESH_TOKEN_REJECTED None None None None
             (Some [(''reason'', JStr ''unknown_token'')])) (\<lambda>_. raise invalid_refresh_token)
      | Some token \<Rightarrow>
          if rt_revoked_at token \<noteq> None then
            and_then (handle_revoked_token X token) (\<lambda>_. raise invalid_refresh_token)
          else
            and_then (utc_now X) (\<lambda>now.
            if rt_expires_at token \<le> now then
              and_then (record_rejection X token ''expired_token'') (\<lambda>_. raise invalid_refresh_token)
            else
              and_then (user_get_by_id (rt_user_id token)) (\<lambda>owner.
              case owner of
                None \<Rightarrow>
                  and_then (record_rejection X token ''inactive_or_deleted_owner'') (\<lambda>_. raise invalid_refresh_token)
              | Some u \<Rightarrow>
                  if \<not> usr_is_active u then
                    and_then (record_rejection X token ''inactive_or_deleted_owner'') (\<lambda>_. raise invalid_refresh_token)
                  else rotate_token X token u))) w'"
  proof (cases found)
    case (Some t)
    with run token_by_hash_stored have t: "t \<in> set (refresh_tokens w')" and w': "w' = w" by blast+
    have quiet: "t \<in> set (refresh_tokens v)" if "user_get_by_id i (w'\<lparr>draws := k\<rparr>) = (Inr o', v)" for i k o' v
      using that t by (auto simp: user_get_by_id_def scalar_one_or_none_def split: list.splits)
    show ?thesis
    proof (cases "rt_revoked_at t")
      case None
      with Some show ?thesis
        by (auto simp: utc_now_def and_then_run [of "draw f" for f] draw_run t_record_rejection_def record_rejection_def
            intro!: and_then_agree alone_rotate_token dest: quiet split: option.split)
    next
      case revoked: (Some r)
      with Some t w' assms show ?thesis
        by (auto intro!: and_then_agree alone_handle_revoked_token)
    qed
  qed simp
qed

end
