(* ===== verification/Interference.thy ===== *)
theory Interference
  imports Turns Requests
begin

text \<open>
  What a request may rely on while others run, and what each of its own statements does to
  them: \<open>carries_on\<close>. \<open>spec\<close> says of a thread which exceptions it can end with and what it has
  learnt that stays true, whatever is interleaved.
\<close>

section \<open>What every statement leaves standing\<close>

definition persists :: "world \<Rightarrow> world \<Rightarrow> bool" where
  "persists w w' = (draws w \<le> draws w' \<and> ids usr_id (users w) \<subseteq> ids usr_id (users w') \<and>
     set (roles w) \<subseteq> set (roles w') \<and> set (permissions w) \<subseteq> set (permissions w') \<and>
     set (organizations w) \<subseteq> set (organizations w') \<and> grows audit_logs w w')"

definition carries_on :: "env \<Rightarrow> nat \<Rightarrow> world \<Rightarrow> world \<Rightarrow> bool" where
  "carries_on X n w w' = (keeps (sound X) w w' \<and> keeps (hashes_upto X n) w w' \<and>
     persists w w' \<and> settles w w')"

interpretation persisting: history persists
proof
  fix s t u :: world
  assume "persists s t" "persists t u"
  then show "persists s u" by (auto simp: persists_def intro: growing.trans)
qed (simp add: persists_def growing.refl)

interpretation carrying: history "carries_on X n" for X :: env and n :: nat
  by unfold_locales
    (auto simp: carries_on_def intro: keeping.refl keeping.trans persisting.refl persisting.trans
      settling.refl settling.trans)

lemma carries_onI:
  "obeys (keeps (sound X)) m \<Longrightarrow> obeys (keeps (hashes_upto X n)) m \<Longrightarrow> obeys persists m \<Longrightarrow>
   obeys settles m \<Longrightarrow> obeys (carries_on X n) m"
  by (simp add: obeys_def carries_on_def)

lemma quiet_persists: "obeys quiet m \<Longrightarrow> obeys persists m"
  by (erule obeys_mono) (auto simp: quiet_iff persists_def growing.refl grows_def)

lemma quiet_carries_on: "obeys quiet m \<Longrightarrow> obeys (carries_on X n) m"
  by (intro carries_onI quiet_sound idents_hashes_upto quiet_idents quiet_persists quiet_settles)

text \<open>An INSERT persists when the rows it stores come last in their table.\<close>

lemma insert_new_persists:
  assumes "\<And>w r. persists w (store r w)"
  shows "obeys persists (insert_new X mk fits consistent store)"
proof (rule insert_new_obeys, rule persisting.refl, erule (1) persisting.trans)
  show "persists w (w\<lparr>draws := n\<rparr>)" if "draws w \<le> n" for w :: world and n
    using that by (simp add: persists_def grows_def)
  show "persists w (store (mk i t) w)" for w i t by (rule assms)
qed

lemma insert_reporting_persists:
  assumes "\<And>w r. persists w (store r w)"
  shows "obeys persists (insert_reporting X mk fits consistent store err)"
  by (rule insert_reporting_obeys [OF persisting.history_axioms insert_new_persists [OF assms]])

lemma inserts_persist:
  "obeys persists (create_user X e h)" "obeys persists (role_create X name d g)"
  "obeys persists (user_role_assign X u i g)" "obeys persists (organization_create X name)"
  "obeys persists (membership_add X u o1)" "obeys persists (audit_record X ac a tt ti g md)"
  "obeys persists (refresh_token_create X u h v)"
  unfolding create_user_def role_create_def user_role_assign_def organization_create_def
    membership_add_def audit_record_def refresh_token_create_def
  by (rule insert_reporting_persists insert_new_persists;
      auto simp: persists_def grows_def store_user_def store_role_def store_user_role_def
        store_organization_def store_membership_def store_audit_log_def store_refresh_token_def)+

lemma deletes_persist:
  "obeys persists (delete_user_role a)" "obeys persists (delete_membership m)"
  "obeys persists (add_permission i p)" "obeys persists (remove_permission i p)"
  "obeys persists (update_tokens P f)"
  by (auto simp: obeys_def persists_def grows_def delete_user_role_def delete_membership_def
      add_permission_run remove_permission_run update_tokens_run)

lemma update_last_login_persists: "obeys persists (update_last_login X u)"
proof -
  have "ids usr_id (update_where P f rows) = ids usr_id rows" if "\<And>r. usr_id (f r) = usr_id r" for P f rows
    using update_where_map [of rows P usr_id f] that by (metis ids_def list.set_map)
  note same_ids = this
  show ?thesis
    unfolding obeys_def update_last_login_run Let_def persists_def grows_def
    by (subst same_ids | simp)+
qed

lemma transaction_persists:
  assumes "obeys persists m"
  shows "obeys persists (transaction m)"
proof (rule obeysI)
  fix w r w' assume "transaction m w = (r, w')"
  moreover obtain s v where m: "m w = (s, v)" by (cases "m w")
  moreover have "persists w v" using obeysD [OF assms m] .
  ultimately show "persists w w'"
    by (auto simp: transaction_def persists_def grows_def split: sum.splits)
qed

section \<open>Every statement carries on\<close>

text \<open>Outside the accounts: the ledger and the hashes are untouched.\<close>

lemma graph_carries_on:
  assumes "obeys accounts_kept m" and "obeys (keeps (db_ok X)) m" and "obeys (keeps (scoped X)) m"
    and "obeys persists m"
  shows "obeys (carries_on X n) m"
proof (rule carries_onI)
  show "obeys (keeps (sound X)) m" by (intro graph_sound accounts_ledger assms)
  show "obeys (keeps (hashes_upto X n)) m" by (intro idents_hashes_upto accounts_idents assms)
  have "obeys (same refresh_tokens) m" by (rule obeys_mono [OF assms(1)]) (simp add: accounts_kept_def same_def)
  then show "obeys settles m" by (rule tokens_settle)
qed (rule assms)

lemma delete_accounts:
  "obeys accounts_kept (delete_user_role a)" "obeys accounts_kept (delete_membership m)"
  by (simp_all add: obeys_def accounts_kept_def delete_user_role_def delete_membership_def)

lemma delete_keeps:
  "obeys (keeps (db_ok X)) (delete_user_role a)" "obeys (keeps (db_ok X)) (delete_membership m)"
  by (simp_all add: obeys_def keeps_def delete_user_role_def delete_membership_def
      db_ok_delete_user_role db_ok_delete_membership)

lemma delete_scoped:
  "obeys (keeps (scoped X)) (delete_user_role a)" "obeys (keeps (scoped X)) (delete_membership m)"
  using delete_keeps [of X]
  by (auto simp: obeys_def keeps_def scoped_def scopes_ok_def delete_user_role_def delete_membership_def)

lemmas graph_moves =
  graph_carries_on [OF role_create_accounts role_create_keeps role_create_scoped inserts_persist(2)]
  graph_carries_on [OF organization_create_accounts organization_create_keeps
    graph_scoped [OF graph_steps(1) organization_create_keeps] inserts_persist(4)]
  graph_carries_on [OF membership_add_accounts membership_add_keeps
    graph_scoped [OF graph_steps(2) membership_add_keeps] inserts_persist(5)]
  graph_carries_on [OF audit_record_accounts audit_record_keeps audit_record_scoped inserts_persist(6)]
  graph_carries_on [OF grant_accounts(1) add_permission_keeps grant_scoped(1) deletes_persist(3)]
  graph_carries_on [OF grant_accounts(2) remove_permission_keeps grant_scoped(2) deletes_persist(4)]
  graph_carries_on [OF delete_accounts(1) delete_keeps(1) delete_scoped(1) deletes_persist(1)]
  graph_carries_on [OF delete_accounts(2) delete_keeps(2) delete_scoped(2) deletes_persist(2)]

text \<open>The accounts and the sessions.\<close>

lemma accounts_carry_on:
  "obeys (carries_on X n) (create_user X e h)" "obeys (carries_on X n) (update_last_login X u)"
  "obeys (carries_on X n) (mark_revoked X t)" "obeys (carries_on X n) (mark_unrevoked X t)"
proof -
  show "obeys (carries_on X n) (create_user X e h)"
    by (intro carries_onI auth_sound create_user_ledger create_user_but_auth idents_hashes_upto
        create_user_idents inserts_persist tokens_settle create_user_same) simp_all
  show "obeys (carries_on X n) (update_last_login X u)"
    by (intro carries_onI auth_sound update_last_login_ledger update_last_login_but_auth idents_hashes_upto
        update_last_login_idents update_last_login_persists tokens_settle update_last_login_same) simp_all
  have u: "obeys (carries_on X n) (update_tokens P (set_revoked now))" for P now
    by (intro carries_onI auth_sound update_unrevoked_ledger tokens_but_auth update_tokens_frame
        idents_hashes_upto update_tokens_idents deletes_persist update_tokens_settles)
  show "obeys (carries_on X n) (mark_revoked X t)" "obeys (carries_on X n) (mark_unrevoked X t)"
    unfolding mark_revoked_def mark_unrevoked_def
    by (intro carrying.rules u quiet_carries_on security_quiet)+
qed

lemma refresh_token_create_settles: "obeys settles (refresh_token_create X u h e)"
proof (rule obeysI)
  fix w r w' assume "refresh_token_create X u h e w = (r, w')"
  then show "settles w w'"
    by (cases rule: refresh_token_create_cases) (auto simp: settles_def revoked_id_def token_idents_def)
qed

lemma issue_token_row_carries_on:
  assumes cf: "collision_free X n"
  shows "obeys (carries_on X n) (issue_token_row X u)"
proof (rule carries_onI)
  show "obeys (keeps (sound X)) (issue_token_row X u)"
    unfolding issue_token_row_def
    by (intro auth_sound ledger_steps but_auth_steps)
  show "obeys (keeps (hashes_upto X n)) (issue_token_row X u)"
    unfolding issue_token_row_def Let_def hash_refresh_token_def
    by (rule keeping.and_then, intro hash_steps, rule generate_pending [OF cf])
      (intro leads_before [OF expiry_pending] leads_after keeping.pure
        refresh_token_create_hashes [unfolded hash_of_draw_def] pending_hashes)
  show "obeys persists (issue_token_row X u)"
    unfolding issue_token_row_def by (intro persisting.rules inserts_persist quiet_persists security_quiet)
  show "obeys settles (issue_token_row X u)"
    unfolding issue_token_row_def
    by (intro settling.rules refresh_token_create_settles quiet_settles security_quiet)
qed

lemma but_auth_scopes:
  assumes "but_auth w' = but_auth w"
  shows "scopes_ok w' = scopes_ok w"
proof -
  from assms have "roles (but_auth w') = roles (but_auth w)" "user_roles (but_auth w') = user_roles (but_auth w)"
    by simp_all
  then have "roles w' = roles w" "user_roles w' = user_roles w" by (simp_all add: but_auth_def)
  then show ?thesis by (simp add: scopes_ok_def)
qed

text \<open>A rotation, of a token that was read from the table.\<close>

lemma rotation_carries_on:
  assumes cf: "collision_free X n" and ok: "sound X w" and t: "known t w"
  shows "carries_on X n w (snd (rotation X t w))"
proof -
  have "obeys (keeps (held X t)) (rotation X t)"
    unfolding rotation_def
    by (intro keeping.rules quiet_keeps_held security_quiet create_rotation_pair_held)
  moreover have "held X t w" using known_held ok t by (simp add: sound_def)
  ultimately have ledger: "ledger_ok X (snd (rotation X t w))" by (auto dest: obeys_keepsD simp: held_def)
  have "obeys (same but_auth) (rotation X t)"
    unfolding rotation_def by (intro but_auth_steps)
  from but_auth_scopes [OF obeys_sameD [OF this, of w]]
  have "scopes_ok (snd (rotation X t w)) = scopes_ok w" .
  with ledger ok have "sound X (snd (rotation X t w))" by (simp add: sound_def)
  moreover have "obeys (keeps (hashes_upto X n)) (rotation X t)"
    unfolding rotation_def Let_def hash_refresh_token_def
    by (rule generate_pending [OF cf])
      (intro leads_before [OF expiry_pending] pending_hashes
        leads_after create_rotation_pair_hashes [unfolded hash_of_draw_def] hash_steps)
  moreover have "obeys settles (rotation X t)"
    unfolding rotation_def
    by (intro settling.rules create_rotation_pair_settles quiet_settles security_quiet)
  moreover have "obeys persists (rotation X t)"
    unfolding rotation_def create_rotation_pair_def
    by (intro persisting.rules transaction_persists inserts_persist deletes_persist quiet_persists
        security_quiet)
  ultimately show ?thesis by (auto simp: carries_on_def keeps_def dest: obeys_snd)
qed

text \<open>An assignment, of a role that was read and fits the organization.\<close>

lemma user_role_assign_carries_on:
  assumes ok: "sound X w" and r: "r \<in> set (roles w)" and fit: "role_organization_id r = None \<or> role_organization_id r = g"
  shows "carries_on X n w (snd (user_role_assign X u (role_id r) g w))"
proof -
  let ?w = "snd (user_role_assign X u (role_id r) g w)"
  have "role_held X r w" using ok r by (simp add: role_held_def scoped_def sound_def ledger_ok_def)
  then have "scoped X ?w"
    using obeys_keepsD [OF user_role_assign_scoped [OF fit, of X u]] by (simp add: role_held_def)
  moreover have "ledger_ok X ?w"
    using obeys_keepsD [OF accounts_ledger [OF user_role_assign_accounts user_role_assign_keeps]] ok
    by (simp add: sound_def)
  ultimately have "sound X ?w" by (simp add: sound_def scoped_def)
  moreover have "obeys (same refresh_tokens) (user_role_assign X u (role_id r) g)"
    by (rule obeys_mono [OF user_role_assign_accounts]) (simp add: accounts_kept_def same_def)
  ultimately show ?thesis
    using obeys_snd [OF idents_hashes_upto [OF accounts_idents [OF user_role_assign_accounts]]]
      obeys_snd [OF inserts_persist(3)] obeys_snd [OF tokens_settle]
    by (auto simp: carries_on_def keeps_def)
qed

section \<open>Every turn of every request\<close>

lemma rotation_persists: "obeys persists (rotation X t)"
  unfolding rotation_def create_rotation_pair_def
  by (intro persisting.rules transaction_persists inserts_persist deletes_persist quiet_persists security_quiet)

lemma issue_token_row_persists: "obeys persists (issue_token_row X u)"
  unfolding issue_token_row_def by (intro persisting.rules inserts_persist quiet_persists security_quiet)

lemma mark_persists: "obeys persists (mark_revoked X t)" "obeys persists (mark_unrevoked X t)"
  unfolding mark_revoked_def mark_unrevoked_def
  by (intro persisting.rules deletes_persist quiet_persists security_quiet)+

lemma session_refresh_quiet: "obeys quiet (session_refresh q)"
  by (simp add: obeys_def session_refresh_def quieting.refl split: list.splits)

lemma exists_quiet: "obeys quiet (organization_exists g)"
  unfolding organization_exists_def by (intro quieting.rules organization_get_quiet)

lemma audit_reads_quiet:
  "obeys quiet (audit_list_events og ac a l off)" "obeys quiet (audit_count_events og ac a)"
  unfolding audit_list_events_def audit_count_events_def by (intro quieting.rules)+

lemmas statement_quiet = security_quiet user_get_quiet token_get_quiet token_refresh_quiet role_get_quiet
  organization_get_quiet user_role_get_quiet require_quiet exists_quiet dependency_quiet
  session_refresh_quiet scalar_one_or_none_quiet audit_reads_quiet

lemmas statement_persists = inserts_persist deletes_persist update_last_login_persists rotation_persists
  issue_token_row_persists mark_persists statement_quiet [THEN quiet_persists]

lemma walk_persists: "every_turn persists (t_family_walk fresh k X session i)"
proof (induction k arbitrary: session i)
  case (Suc k)
  show ?case
    unfolding t_family_walk.simps by (intro every_turn_rules statement_persists Suc.IH)
qed (simp add: every_turn_pure)

lemma insert_persists: "obeys persists c \<Longrightarrow> every_turn persists (t_insert c q)"
  unfolding t_insert_def by (intro every_turn_rules statement_persists)

lemma excepting_every_turn: "every_turn R t \<Longrightarrow> every_turn R (t_excepting c t)"
  unfolding t_excepting_def
  by (rule every_turn_except) (auto simp: every_turn_raise split: exn.splits option.splits prod.splits)

lemma every_turn_handled:
  "every_turn R t \<Longrightarrow> (\<And>e t'. h e = Some t' \<Longrightarrow> t' = u) \<Longrightarrow> every_turn R u \<Longrightarrow> every_turn R (t_except t h)"
  by (rule every_turn_except) blast+

lemmas service_turn_defs = t_auth_register_def t_auth_login_def t_issue_token_pair_def t_auth_refresh_def
  t_handle_revoked_token_def t_revoke_descendants_def t_rotate_token_def t_record_rejection_def
  t_refresh_pair_def t_auth_logout_def t_revoke_def t_authorize_def t_create_role_def t_assign_role_def
  t_check_membership_def t_revoke_role_def t_user_role_revoke_def t_assign_permission_to_role_def
  t_remove_permission_from_role_def t_create_organization_def t_add_member_def t_remove_member_def
  t_membership_remove_def t_list_members_def t_list_events_def t_require_permission_def t_create_user_def
  t_update_last_login_def t_role_create_def t_user_role_assign_def t_organization_create_def
  t_membership_add_def t_audit_record_def

lemma serve_persists: "every_turn persists (serve X fresh auth req)"
  by (cases req; simp only: serve.simps t_admin_def t_answer_def service_turn_defs;
      (rule every_turn_rules excepting_every_turn walk_persists insert_persists every_turn_handled
        statement_persists | erule handlers)+)

end
