(* ===== verification/Promises.thy ===== *)
theory Promises
  imports Interference Answers
begin

text \<open>
  What each request is promised while others run: \<open>promises\<close> says of a thread how it can
  end, and which rows it then knows of, that nobody takes away. The rules compose it like
  the code composes its calls.
\<close>

section \<open>Facts that last\<close>

text \<open>Rows that are never deleted, as a coroutine knows them from what it has read.\<close>

datatype fact =
    UserRow uuid
  | RoleRow role
  | OrganizationRow uuid
  | PermissionRow uuid
  | TokenRow refresh_token
  | LogRow uuid

fun stored :: "fact \<Rightarrow> world \<Rightarrow> bool" where
  "stored (UserRow i) w = (i \<in> ids usr_id (users w))"
| "stored (RoleRow r) w = (r \<in> set (roles w))"
| "stored (OrganizationRow i) w = (i \<in> ids org_id (organizations w))"
| "stored (PermissionRow i) w = (i \<in> ids perm_id (permissions w))"
| "stored (TokenRow t) w = known t w"
| "stored (LogRow i) w = (i \<in> ids log_id (audit_logs w))"

lemma stored_persists: "persists w w' \<Longrightarrow> settles w w' \<Longrightarrow> stored f w \<Longrightarrow> stored f w'"
  by (cases f) (auto simp: persists_def settles_def known_def ids_def grows_iff)

definition knows :: "env \<Rightarrow> nat \<Rightarrow> fact set \<Rightarrow> world \<Rightarrow> bool" where
  "knows X n F w = (sound X w \<and> hashes_upto X n w \<and> (\<forall>f \<in> F. stored f w))"

lemma knows_carries_on: "knows X n F w \<Longrightarrow> carries_on X n w w' \<Longrightarrow> knows X n F w'"
  by (auto simp: knows_def carries_on_def keeps_def intro: stored_persists)

lemma knows_stable: "stable (carries_on X n) (knows X n F)"
  by (auto simp: stable_def intro: knows_carries_on)

lemma knowsD:
  "knows X n F w \<Longrightarrow> sound X w" "knows X n F w \<Longrightarrow> db_ok X w" "knows X n F w \<Longrightarrow> ledger_ok X w"
  "knows X n F w \<Longrightarrow> f \<in> F \<Longrightarrow> stored f w" "knows X n F w \<Longrightarrow> draws w \<le> n \<Longrightarrow> hashes_ok X w"
  by (auto simp: knows_def sound_def ledger_ok_def hashes_upto_def)

lemma knows_Un: "knows X n (F \<union> G) w \<longleftrightarrow> knows X n F w \<and> (\<forall>f \<in> G. stored f w)"
  by (auto simp: knows_def)

lemma knows_mono: "knows X n F w \<Longrightarrow> G \<subseteq> F \<Longrightarrow> knows X n G w"
  by (auto simp: knows_def)

lemma stored_user: "knows X n F w \<Longrightarrow> UserRow i \<in> F \<Longrightarrow> i \<in> ids usr_id (users w)"
  by (auto dest: knowsD(4))

lemma stored_organization: "knows X n F w \<Longrightarrow> OrganizationRow i \<in> F \<Longrightarrow> i \<in> ids org_id (organizations w)"
  by (auto dest: knowsD(4))

lemma stored_role: "knows X n F w \<Longrightarrow> RoleRow r \<in> F \<Longrightarrow> r \<in> set (roles w)"
  by (auto dest: knowsD(4))

lemma stored_token: "knows X n F w \<Longrightarrow> TokenRow t \<in> F \<Longrightarrow> known t w"
  by (auto dest: knowsD(4))

text \<open>A role's organization and a token's owner are rows too.\<close>

lemma stored_role_organization:
  "knows X n F w \<Longrightarrow> RoleRow r \<in> F \<Longrightarrow> refers (role_organization_id r) (ids org_id (organizations w))"
  by (rule role_organization_refers [OF knowsD(2) stored_role])

lemma stored_token_owner:
  assumes "knows X n F w" and "TokenRow t \<in> F"
  shows "rt_user_id t \<in> ids usr_id (users w)"
proof -
  from stored_token [OF assms] obtain s where "s \<in> set (refresh_tokens w)" "rt_user_id s = rt_user_id t"
    by (auto simp: known_def token_idents_def)
  with knowsD(2) [OF assms(1)] show ?thesis by (auto simp: db_ok_def refs_ok_def)
qed

text \<open>The organization of an optional reference.\<close>

definition organization_facts :: "uuid option \<Rightarrow> fact set" where
  "organization_facts g = (case g of None \<Rightarrow> {} | Some i \<Rightarrow> {OrganizationRow i})"

lemma organization_facts_simps [simp]:
  "organization_facts None = {}" "organization_facts (Some i) = {OrganizationRow i}"
  by (simp_all add: organization_facts_def)

lemma organization_facts_refers:
  "knows X n F w \<Longrightarrow> organization_facts g \<subseteq> F \<Longrightarrow> refers g (ids org_id (organizations w))"
  by (cases g) (auto dest: stored_organization)

lemma organization_facts_stored:
  "refers g (ids org_id (organizations w)) \<Longrightarrow> f \<in> organization_facts g \<Longrightarrow> stored f w"
  by (cases g) auto

section \<open>Promises\<close>

text \<open>
  \<open>promises X n F t V A E\<close>: started with the knowledge \<open>F\<close>, within \<open>n\<close> draws of the random
  sources, the thread ends with an exception that satisfies \<open>E\<close> or a value that satisfies
  \<open>V\<close>, then knowing \<open>A\<close> of that value as well.
\<close>

definition ending ::
  "env \<Rightarrow> nat \<Rightarrow> fact set \<Rightarrow> ('a \<Rightarrow> bool) \<Rightarrow> ('a \<Rightarrow> fact set) \<Rightarrow> (exn \<Rightarrow> bool) \<Rightarrow> exn + 'a \<Rightarrow> world \<Rightarrow> bool" where
  "ending X n F V A E r w = (knows X n F w \<and>
     (case r of Inl e \<Rightarrow> E e | Inr x \<Rightarrow> V x \<and> (\<forall>f \<in> A x. stored f w)))"

lemma ending_stable: "stable (carries_on X n) (ending X n F V A E r)"
  by (auto simp: stable_def ending_def carries_on_def knows_def keeps_def
      intro: stored_persists split: sum.splits)

definition promises ::
  "env \<Rightarrow> nat \<Rightarrow> fact set \<Rightarrow> 'a coroutine \<Rightarrow> ('a \<Rightarrow> bool) \<Rightarrow> ('a \<Rightarrow> fact set) \<Rightarrow> (exn \<Rightarrow> bool) \<Rightarrow> bool" where
  "promises X n F t V A E = triple (carries_on X n) (\<lambda>w. draws w \<le> n) (knows X n F) t (ending X n F V A E)"

lemma p_pure: "V x \<Longrightarrow> A x \<subseteq> F \<Longrightarrow> promises X n F (t_pure x) V A E"
  unfolding promises_def by (rule triple_pure) (auto simp: ending_def knows_def)

lemma p_raise: "E e \<Longrightarrow> promises X n F (t_raise e) V A E"
  unfolding promises_def by (rule triple_raise) (simp add: ending_def)

lemma p_then:
  assumes "promises X n F t V A E" and "\<And>x. V x \<Longrightarrow> promises X n (F \<union> A x) (f x) V' A' E"
  shows "promises X n F (t_then t f) V' A' E"
  unfolding promises_def
proof (rule triple_then [where M = "\<lambda>x w. V x \<and> knows X n (F \<union> A x) w"])
  show "triple (carries_on X n) (\<lambda>w. draws w \<le> n) (knows X n F) t
     (\<lambda>r w. case r of Inl e \<Rightarrow> ending X n F V' A' E (Inl e) w | Inr x \<Rightarrow> V x \<and> knows X n (F \<union> A x) w)"
    using assms(1) unfolding promises_def
    by (rule triple_post) (auto simp: ending_def knows_Un split: sum.splits)
  show "triple (carries_on X n) (\<lambda>w. draws w \<le> n) (\<lambda>w. V x \<and> knows X n (F \<union> A x) w) (f x)
      (ending X n F V' A' E)" for x
  proof (cases "V x")
    case True
    from assms(2) [OF this] show ?thesis
      unfolding promises_def
      by (rule triple_pre [OF triple_post]) (auto simp: ending_def knows_Un)
  qed (simp add: triple_def)
qed

lemma p_except:
  assumes "promises X n F t V A E'"
    and "\<And>e. E' e \<Longrightarrow> h e = None \<Longrightarrow> E e"
    and "\<And>e t'. E' e \<Longrightarrow> h e = Some t' \<Longrightarrow> promises X n F t' V A E"
  shows "promises X n F (t_except t h) V A E"
  unfolding promises_def
proof (rule triple_except [where M = "\<lambda>e w. E' e \<and> knows X n F w"])
  show "triple (carries_on X n) (\<lambda>w. draws w \<le> n) (knows X n F) t
     (\<lambda>r w. case r of
        Inl e \<Rightarrow> (case h e of None \<Rightarrow> ending X n F V A E (Inl e) w | Some _ \<Rightarrow> E' e \<and> knows X n F w)
      | Inr x \<Rightarrow> ending X n F V A E (Inr x) w)"
    using assms(1) unfolding promises_def
    by (rule triple_post) (auto simp: ending_def assms(2) split: sum.splits option.splits)
  show "triple (carries_on X n) (\<lambda>w. draws w \<le> n) (\<lambda>w. E' e \<and> knows X n F w) t' (ending X n F V A E)"
    if "h e = Some t'" for e t'
    using assms(3) [OF _ that] by (cases "E' e") (auto simp: promises_def triple_def)
qed

lemma p_if:
  "(b \<Longrightarrow> promises X n F t V A E) \<Longrightarrow> (\<not> b \<Longrightarrow> promises X n F t' V A E) \<Longrightarrow>
   promises X n F (if b then t else t') V A E"
  by simp

lemma p_option:
  "(v = None \<Longrightarrow> promises X n F t V A E) \<Longrightarrow> (\<And>x. v = Some x \<Longrightarrow> promises X n F (f x) V A E) \<Longrightarrow>
   promises X n F (case v of None \<Rightarrow> t | Some x \<Rightarrow> f x) V A E"
  by (cases v) simp_all

lemma p_let: "promises X n F (f v) V A E \<Longrightarrow> promises X n F (let x = v in f x) V A E"
  by simp

lemma p_weaken:
  assumes "promises X n F t V A E" and "\<And>x. V x \<Longrightarrow> V' x" and "\<And>x. V x \<Longrightarrow> A' x \<subseteq> A x \<union> F"
    and "\<And>e. E e \<Longrightarrow> E' e"
  shows "promises X n F t V' A' E'"
  using assms(1) unfolding promises_def
proof (rule triple_post)
  fix r w assume e: "ending X n F V A E r w"
  show "ending X n F V' A' E' r w"
  proof (cases r)
    case (Inl e')
    with e assms(4) show ?thesis by (simp add: ending_def)
  next
    case (Inr x)
    with e assms(2) assms(3) [of x] show ?thesis by (auto simp: ending_def knows_def)
  qed
qed

lemma p_atomically:
  assumes "\<And>w. knows X n F w \<Longrightarrow> carries_on X n w (snd (m w))"
    and "\<And>w r w'. knows X n F w \<Longrightarrow> draws w \<le> n \<Longrightarrow> draws w' \<le> n \<Longrightarrow> m w = (r, w') \<Longrightarrow>
      (case r of Inl e \<Rightarrow> E e | Inr x \<Rightarrow> V x \<and> (\<forall>f \<in> A x. stored f w'))"
  shows "promises X n F (atomically m) V A E"
  unfolding promises_def
proof (rule triple_atomically [OF knows_stable])
  fix w assume k: "knows X n F w"
  show c: "carries_on X n w (snd (m w))" by (rule assms(1) [OF k])
  assume n: "draws (snd (m w)) \<le> n"
  with c have "draws w \<le> n" by (simp add: carries_on_def persists_def)
  from assms(2) [OF k this n, of "fst (m w)"] show "ending X n F V A E (fst (m w)) (snd (m w))"
    using knows_carries_on [OF k c] by (simp add: ending_def)
qed

text \<open>A read: the state it sees is the one it is about.\<close>

lemma p_read:
  assumes "obeys quiet m"
    and "\<And>w r w'. knows X n F w \<Longrightarrow> draws w \<le> n \<Longrightarrow> m w = (r, w') \<Longrightarrow>
      (case r of Inl e \<Rightarrow> E e | Inr x \<Rightarrow> V x \<and> (\<forall>f \<in> A x. stored f w))"
  shows "promises X n F (atomically m) V A E"
proof (rule p_atomically)
  fix w assume "knows X n F w"
  show c: "carries_on X n w (snd (m w))" by (rule obeys_snd [OF quiet_carries_on [OF assms(1)]])
  fix r w' assume *: "knows X n F w" "draws w \<le> n" "m w = (r, w')"
  from obeysD [OF quiet_carries_on [OF assms(1)] *(3)] have "stored f w \<Longrightarrow> stored f w'" for f
    by (auto simp: carries_on_def intro: stored_persists)
  with assms(2) [OF *] show "case r of Inl e \<Rightarrow> E e | Inr x \<Rightarrow> V x \<and> (\<forall>f \<in> A x. stored f w')"
    by (auto split: sum.splits)
qed

text \<open>INSERT, then the row again: it is there, unless somebody may delete it.\<close>

lemma p_insert:
  assumes "promises X n F (atomically c) V A E"
    and "\<And>r w s. V r \<Longrightarrow> knows X n (F \<union> A r) w \<Longrightarrow> s \<in> set (q r w) \<Longrightarrow> V' s \<and> (\<forall>f \<in> A' s. stored f w)"
    and "\<And>r w. V r \<Longrightarrow> knows X n (F \<union> A r) w \<Longrightarrow> q r w = [] \<Longrightarrow> E (Sql InvalidRequestError)"
  shows "promises X n F (t_insert c q) V' A' E"
  unfolding t_insert_def
proof (rule p_then [OF assms(1)])
  fix r assume r: "V r"
  show "promises X n (F \<union> A r) (atomically (session_refresh (q r))) V' A' E"
  proof (rule p_read)
    show "obeys quiet (session_refresh (q r))"
      by (simp add: obeys_def session_refresh_def quieting.refl split: list.splits)
    fix w x w' assume k: "knows X n (F \<union> A r) w" and run: "session_refresh (q r) w = (x, w')"
    show "case x of Inl e \<Rightarrow> E e | Inr x \<Rightarrow> V' x \<and> (\<forall>f \<in> A' x. stored f w)"
    proof (cases "q r w")
      case Nil
      with run assms(3) [OF r k] show ?thesis by (auto simp: session_refresh_def)
    next
      case (Cons s ss)
      with run assms(2) [OF r k, of s] show ?thesis by (auto simp: session_refresh_def)
    qed
  qed
qed

section \<open>Reads\<close>

lemma p_user_get:
  "promises X n F (atomically (user_get_by_id i)) (\<lambda>v. \<forall>u. v = Some u \<longrightarrow> usr_id u = i)
     (\<lambda>v. case v of None \<Rightarrow> {} | Some u \<Rightarrow> {UserRow (usr_id u)}) E"
  "promises X n F (atomically (user_get_by_email email)) (\<lambda>_. True)
     (\<lambda>v. case v of None \<Rightarrow> {} | Some u \<Rightarrow> {UserRow (usr_id u)}) E"
proof -
  show "promises X n F (atomically (user_get_by_id i)) (\<lambda>v. \<forall>u. v = Some u \<longrightarrow> usr_id u = i)
     (\<lambda>v. case v of None \<Rightarrow> {} | Some u \<Rightarrow> {UserRow (usr_id u)}) E"
    by (rule p_read [OF user_get_quiet(2)])
      (auto simp: user_get_by_id_run [OF knowsD(2)] ids_def dest!: find_key_Some split: option.splits)
  show "promises X n F (atomically (user_get_by_email email)) (\<lambda>_. True)
     (\<lambda>v. case v of None \<Rightarrow> {} | Some u \<Rightarrow> {UserRow (usr_id u)}) E"
    by (rule p_read [OF user_get_quiet(1)])
      (auto simp: user_get_by_email_run [OF knowsD(2)] ids_def dest!: find_key_Some split: option.splits)
qed

lemma p_token_get:
  "promises X n F (atomically (token_get_by_id i)) (\<lambda>_. True)
     (\<lambda>v. case v of None \<Rightarrow> {} | Some t \<Rightarrow> {TokenRow t}) E"
  "promises X n F (atomically (token_get_by_hash h)) (\<lambda>_. True)
     (\<lambda>v. case v of None \<Rightarrow> {} | Some t \<Rightarrow> {TokenRow t}) E"
proof -
  have known: "known t w" if "find (\<lambda>t. k t = v) (refresh_tokens w) = Some t" for k :: "refresh_token \<Rightarrow> 'k" and v t w
    using find_key_Some [OF that] by (auto simp: known_def token_idents_def)
  show "promises X n F (atomically (token_get_by_id i)) (\<lambda>_. True)
     (\<lambda>v. case v of None \<Rightarrow> {} | Some t \<Rightarrow> {TokenRow t}) E"
    by (rule p_read [OF token_get_quiet(2)])
      (auto simp: token_get_by_id_run [OF db_ok_token_ids [OF knowsD(2)]] intro: known split: option.splits)
  show "promises X n F (atomically (token_get_by_hash h)) (\<lambda>_. True)
     (\<lambda>v. case v of None \<Rightarrow> {} | Some t \<Rightarrow> {TokenRow t}) E"
  proof (rule p_read [OF token_get_quiet(1)])
    fix w r w' assume k: "knows X n F w" "draws w \<le> n" "token_get_by_hash h w = (r, w')"
    from knowsD(5) [OF k(1,2)] have "distinct (map rt_token_hash (refresh_tokens w))"
      by (simp add: hashes_ok_def)
    from token_get_by_hash_run [OF this, of h] k(3)
    show "case r of Inl e \<Rightarrow> E e | Inr x \<Rightarrow> True \<and>
        (\<forall>f \<in> (case x of None \<Rightarrow> {} | Some t \<Rightarrow> {TokenRow t}). stored f w)"
      by (auto intro: known split: option.splits)
  qed
qed

text \<open>A token that was read can be read again.\<close>

lemma p_token_refresh:
  assumes "TokenRow t \<in> F"
  shows "promises X n F (atomically (token_refresh t)) (\<lambda>_. True) (\<lambda>_. {}) E"
proof (rule p_read [OF token_refresh_quiet])
  fix w r w' assume k: "knows X n F w" "token_refresh t w = (r, w')"
  from stored_token [OF k(1) assms] obtain s where "s \<in> set (refresh_tokens w)" "rt_id s = rt_id t"
    by (auto simp: known_def token_idents_def)
  then have "filter (\<lambda>s. rt_id s = rt_id t) (refresh_tokens w) \<noteq> []" by (auto simp: filter_empty_conv)
  with k(2) show "case r of Inl e \<Rightarrow> E e | Inr x \<Rightarrow> True \<and> (\<forall>f \<in> {}. stored f w)"
    by (auto simp: token_refresh_def session_refresh_def split: list.splits)
qed

lemma p_require:
  "(\<And>m. E (Domain (RoleNotFoundError m))) \<Longrightarrow>
   promises X n F (atomically (require_role i)) (\<lambda>r. role_id r = i) (\<lambda>r. {RoleRow r}) E"
  "(\<And>m. E (Domain (OrganizationNotFoundError m))) \<Longrightarrow>
   promises X n F (atomically (require_organization g)) (\<lambda>_. True) (\<lambda>_. {OrganizationRow g}) E"
  "(\<And>m. E (Domain (OrganizationNotFoundError m))) \<Longrightarrow>
   promises X n F (atomically (organization_exists g)) (\<lambda>_. True) (\<lambda>_. {OrganizationRow g}) E"
proof -
  have q: "obeys quiet (organization_exists g)" for g
    unfolding organization_exists_def by (intro quieting.rules organization_get_quiet)
  show "promises X n F (atomically (require_role i)) (\<lambda>r. role_id r = i) (\<lambda>r. {RoleRow r}) E"
    if "\<And>m. E (Domain (RoleNotFoundError m))"
    by (rule p_read [OF require_quiet(2)])
      (auto simp: require_role_run [OF knowsD(2)] that dest: find_key_Some split: option.splits)
  show "promises X n F (atomically (require_organization g)) (\<lambda>_. True) (\<lambda>_. {OrganizationRow g}) E"
    if "\<And>m. E (Domain (OrganizationNotFoundError m))"
    by (rule p_read [OF require_quiet(1)])
      (auto simp: require_organization_def run_simps organization_get_by_id_run [OF knowsD(2)] that ids_def
        dest!: find_key_Some split: option.splits)
  show "promises X n F (atomically (organization_exists g)) (\<lambda>_. True) (\<lambda>_. {OrganizationRow g}) E"
    if "\<And>m. E (Domain (OrganizationNotFoundError m))"
    by (rule p_read [OF q])
      (auto simp: organization_exists_def run_simps organization_get_by_id_run [OF knowsD(2)] that ids_def
        dest!: find_key_Some split: option.splits)
qed

lemma p_permission_get:
  "promises X n F (atomically (permission_get_by_id i)) (\<lambda>v. \<forall>p. v = Some p \<longrightarrow> perm_id p = i)
     (\<lambda>v. case v of None \<Rightarrow> {} | Some p \<Rightarrow> {PermissionRow (perm_id p)}) E"
  by (rule p_read [OF role_get_quiet(3)])
    (auto simp: permission_get_by_id_run [OF knowsD(2)] ids_def dest!: find_key_Some split: option.splits)

text \<open>Reads that cannot fail, and of which nothing is remembered.\<close>

lemma p_plain_read:
  assumes "obeys quiet m" and "\<And>w. knows X n F w \<Longrightarrow> \<exists>x. fst (m w) = Inr x"
  shows "promises X n F (atomically m) (\<lambda>_. True) (\<lambda>_. {}) E"
  by (rule p_read [OF assms(1)]) (use assms(2) in \<open>fastforce split: sum.splits\<close>)

section \<open>Writes\<close>

text \<open>An audit record, of an actor and an organization that are rows.\<close>

lemma p_audit:
  assumes cf: "collision_free X n"
    and "\<And>w. knows X n F w \<Longrightarrow> refers actor (ids usr_id (users w))"
    and "\<And>w. knows X n F w \<Longrightarrow> refers og (ids org_id (organizations w))"
    and "length action \<le> 100" and "opt_length_le target_type 100"
  shows "promises X n F (t_audit_record X action actor target_type target_id og metadata)
    (\<lambda>_. True) (\<lambda>_. {}) E"
  unfolding t_audit_record_def
proof (rule p_insert)
  show "promises X n F (atomically (audit_record X action actor target_type target_id og metadata))
      (\<lambda>_. True) (\<lambda>l. {LogRow (log_id l)}) E"
  proof (rule p_atomically)
    fix w assume "knows X n F w"
    show "carries_on X n w (snd (audit_record X action actor target_type target_id og metadata w))"
      by (rule obeys_snd [OF graph_moves(4)])
    fix r w' assume k: "knows X n F w" "draws w \<le> n" "draws w' \<le> n"
      and run: "audit_record X action actor target_type target_id og metadata w = (r, w')"
    from run have "draws w < draws w'" by (cases rule: audit_record_cases) simp_all
    with k(3) have "draws w < n" by simp
    with audit_record_run [OF knowsD(2) [OF k(1)] cf _ assms(2) [OF k(1)] assms(3) [OF k(1)] assms(4,5)] run
    show "case r of Inl e \<Rightarrow> E e | Inr l \<Rightarrow> True \<and> (\<forall>f \<in> {LogRow (log_id l)}. stored f w')" by auto
  qed
  fix l w s assume k: "knows X n (F \<union> {LogRow (log_id l)}) w"
  show "True \<and> (\<forall>f \<in> {}. stored f w)" by simp
  assume "log_rows (log_id l) w = []"
  with knowsD(4) [OF k, of "LogRow (log_id l)"] show "E (Sql InvalidRequestError)"
    by (auto simp: log_rows_def filter_empty_conv ids_def)
qed

text \<open>The INSERTs whose conflict the service reports.\<close>

lemma p_create_user:
  assumes cf: "collision_free X n" and fits: "length email \<le> 255" "length h \<le> 255"
    and E: "\<And>m. E (Repository (DuplicateEmailError m))"
  shows "promises X n F (t_create_user X email h) (\<lambda>_. True) (\<lambda>u. {UserRow (usr_id u)}) E"
  unfolding t_create_user_def
proof (rule p_insert)
  show "promises X n F (atomically (create_user X email h)) (\<lambda>_. True) (\<lambda>u. {UserRow (usr_id u)}) E"
  proof (rule p_atomically)
    fix w show "carries_on X n w (snd (create_user X email h w))" by (rule obeys_snd [OF accounts_carry_on(1)])
    fix r w' assume k: "knows X n F w" "draws w \<le> n" "draws w' \<le> n" and run: "create_user X email h w = (r, w')"
    from run have "draws w < draws w'" by (cases rule: create_user_cases) simp_all
    with k(3) have "draws w < n" by simp
    with create_user_run [OF knowsD(2) [OF k(1)] cf _ fits] run E
    show "case r of Inl e \<Rightarrow> E e | Inr u \<Rightarrow> True \<and> (\<forall>f \<in> {UserRow (usr_id u)}. stored f w')"
      by (auto simp: Let_def split: if_splits)
  qed
  fix u w s assume k: "knows X n (F \<union> {UserRow (usr_id u)}) w"
  show "True \<and> (\<forall>f \<in> {UserRow (usr_id s)}. stored f w)" if "s \<in> set (user_rows (usr_id u) w)"
    using that by (auto simp: user_rows_def ids_def intro: rev_image_eqI)
  assume "user_rows (usr_id u) w = []"
  with knowsD(4) [OF k, of "UserRow (usr_id u)"] show "E (Sql InvalidRequestError)"
    by (auto simp: user_rows_def filter_empty_conv ids_def)
qed

lemma p_update_last_login:
  assumes "UserRow (usr_id u) \<in> F"
  shows "promises X n F (t_update_last_login X u) (\<lambda>_. True) (\<lambda>_. {}) E"
  unfolding t_update_last_login_def
proof (rule p_insert)
  show "promises X n F (atomically (update_last_login X u)) (\<lambda>v. usr_id v = usr_id u) (\<lambda>_. {}) E"
    by (rule p_atomically, rule obeys_snd [OF accounts_carry_on(2)]) (auto simp: update_last_login_run Let_def)
  fix v w s assume k: "usr_id v = usr_id u" "knows X n (F \<union> {}) w"
  show "True \<and> (\<forall>f \<in> {}. stored f w)" by simp
  assume "user_rows (usr_id v) w = []"
  with stored_user [OF k(2), of "usr_id u"] assms k(1) show "E (Sql InvalidRequestError)"
    by (auto simp: user_rows_def filter_empty_conv ids_def)
qed

lemma p_role_create:
  assumes cf: "collision_free X n" and fits: "length name \<le> 100"
    and g: "\<And>w. knows X n F w \<Longrightarrow> refers g (ids org_id (organizations w))"
    and E: "\<And>m. E (Repository (DuplicateRoleNameError m))"
  shows "promises X n F (t_role_create X name d g) (\<lambda>_. True) (\<lambda>r. {RoleRow r}) E"
  unfolding t_role_create_def
proof (rule p_insert)
  show "promises X n F (atomically (role_create X name d g)) (\<lambda>_. True) (\<lambda>r. {RoleRow r}) E"
  proof (rule p_atomically)
    fix w show "carries_on X n w (snd (role_create X name d g w))" by (rule obeys_snd [OF graph_moves(1)])
    fix r w' assume k: "knows X n F w" "draws w \<le> n" "draws w' \<le> n" and run: "role_create X name d g w = (r, w')"
    from run have "draws w < draws w'" by (cases rule: role_create_cases) simp_all
    with k(3) have "draws w < n" by simp
    with role_create_run [OF knowsD(2) [OF k(1)] cf _ fits g [OF k(1)]] run E
    show "case r of Inl e \<Rightarrow> E e | Inr u \<Rightarrow> True \<and> (\<forall>f \<in> {RoleRow u}. stored f w')"
      by (auto simp: Let_def split: if_splits)
  qed
  fix r w s assume k: "knows X n (F \<union> {RoleRow r}) w"
  show "True \<and> (\<forall>f \<in> {RoleRow s}. stored f w)" if "s \<in> set (role_rows (role_id r) w)"
    using that by (auto simp: role_rows_def)
  assume "role_rows (role_id r) w = []"
  with stored_role [OF k, of r] show "E (Sql InvalidRequestError)"
    by (auto simp: role_rows_def filter_empty_conv)
qed

lemma p_organization_create:
  assumes cf: "collision_free X n" and fits: "length name \<le> 255"
    and E: "\<And>m. E (Repository (DuplicateOrganizationNameError m))"
  shows "promises X n F (t_organization_create X name) (\<lambda>_. True) (\<lambda>g. {OrganizationRow (org_id g)}) E"
  unfolding t_organization_create_def
proof (rule p_insert)
  show "promises X n F (atomically (organization_create X name)) (\<lambda>_. True) (\<lambda>g. {OrganizationRow (org_id g)}) E"
  proof (rule p_atomically)
    fix w show "carries_on X n w (snd (organization_create X name w))" by (rule obeys_snd [OF graph_moves(2)])
    fix r w' assume k: "knows X n F w" "draws w \<le> n" "draws w' \<le> n"
      and run: "organization_create X name w = (r, w')"
    from run have "draws w < draws w'" by (cases rule: organization_create_cases) simp_all
    with k(3) have "draws w < n" by simp
    with organization_create_run [OF knowsD(2) [OF k(1)] cf _ fits] run E
    show "case r of Inl e \<Rightarrow> E e | Inr g \<Rightarrow> True \<and> (\<forall>f \<in> {OrganizationRow (org_id g)}. stored f w')"
      by (auto simp: Let_def split: if_splits)
  qed
  fix g w s assume k: "knows X n (F \<union> {OrganizationRow (org_id g)}) w"
  show "True \<and> (\<forall>f \<in> {OrganizationRow (org_id s)}. stored f w)" if "s \<in> set (organization_rows (org_id g) w)"
    using that by (auto simp: organization_rows_def ids_def intro: rev_image_eqI)
  assume "organization_rows (org_id g) w = []"
  with stored_organization [OF k, of "org_id g"] show "E (Sql InvalidRequestError)"
    by (auto simp: organization_rows_def filter_empty_conv ids_def)
qed

text \<open>
  The two INSERTs whose row somebody else may delete before \<open>session.refresh\<close> reads it:
  the exception of SQLAlchemy is then not caught.
\<close>

lemma p_user_role_assign:
  assumes cf: "collision_free X n" and r: "RoleRow r \<in> F"
    and fit: "role_organization_id r = None \<or> role_organization_id r = g"
    and E: "\<And>m. E (Repository (DuplicateRoleAssignmentError m))" "E (Sql InvalidRequestError)"
  shows "promises X n F (t_user_role_assign X u (role_id r) g) (\<lambda>_. True) (\<lambda>_. {}) E"
  unfolding t_user_role_assign_def
proof (rule p_insert)
  show "promises X n F (atomically (user_role_assign X u (role_id r) g)) (\<lambda>_. True) (\<lambda>_. {}) E"
  proof (rule p_atomically)
    show "carries_on X n w (snd (user_role_assign X u (role_id r) g w))" if "knows X n F w" for w
      by (rule user_role_assign_carries_on [OF knowsD(1) [OF that] stored_role [OF that r] fit])
    fix w x w' assume k: "knows X n F w" "draws w \<le> n" "draws w' \<le> n"
      and run: "user_role_assign X u (role_id r) g w = (x, w')"
    from run have "draws w < draws w'" by (cases rule: user_role_assign_cases) simp_all
    with k(3) have "draws w < n" by simp
    with user_role_assign_run [OF knowsD(2) [OF k(1)] cf, of u "role_id r" g] run E
    show "case x of Inl e \<Rightarrow> E e | Inr a \<Rightarrow> True \<and> (\<forall>f \<in> {}. stored f w')"
      by (auto simp: Let_def split: if_splits)
  qed
qed (simp_all add: E)

lemma p_membership_add:
  assumes cf: "collision_free X n" and u: "UserRow u \<in> F" and g: "OrganizationRow g \<in> F"
    and E: "\<And>m. E (Repository (DuplicateMembershipError m))" "E (Sql InvalidRequestError)"
  shows "promises X n F (t_membership_add X u g) (\<lambda>_. True) (\<lambda>_. {}) E"
  unfolding t_membership_add_def
proof (rule p_insert)
  show "promises X n F (atomically (membership_add X u g)) (\<lambda>_. True) (\<lambda>_. {}) E"
  proof (rule p_atomically)
    fix w show "carries_on X n w (snd (membership_add X u g w))" by (rule obeys_snd [OF graph_moves(3)])
    fix x w' assume k: "knows X n F w" "draws w \<le> n" "draws w' \<le> n" and run: "membership_add X u g w = (x, w')"
    from run have "draws w < draws w'" by (cases rule: membership_add_cases) simp_all
    with k(3) have "draws w < n" by simp
    with membership_add_run [OF knowsD(2) [OF k(1)] cf _ stored_user [OF k(1) u] stored_organization [OF k(1) g]]
      run E
    show "case x of Inl e \<Rightarrow> E e | Inr a \<Rightarrow> True \<and> (\<forall>f \<in> {}. stored f w')"
      by (auto simp: Let_def split: if_splits)
  qed
qed (simp_all add: E)

lemma p_add_permission:
  assumes "\<And>m. E (Repository (DuplicateRolePermissionError m))"
  shows "promises X n F (atomically (add_permission i p)) (\<lambda>_. True) (\<lambda>_. {}) E"
  by (rule p_atomically, rule obeys_snd [OF graph_moves(5)])
    (use assms in \<open>auto simp: add_permission_run split: if_splits\<close>)

text \<open>Statements that cannot fail.\<close>

lemma p_statement:
  assumes "obeys (carries_on X n) m" and "\<And>w. knows X n F w \<Longrightarrow> \<exists>x. fst (m w) = Inr x"
  shows "promises X n F (atomically m) (\<lambda>_. True) (\<lambda>_. {}) E"
  by (rule p_atomically, rule obeys_snd [OF assms(1)]) (use assms(2) in \<open>fastforce split: sum.splits\<close>)

lemma p_statements:
  "promises X n F (atomically (remove_permission i p)) (\<lambda>_. True) (\<lambda>_. {}) E"
  "promises X n F (atomically (delete_user_role a)) (\<lambda>_. True) (\<lambda>_. {}) E"
  "promises X n F (atomically (delete_membership m)) (\<lambda>_. True) (\<lambda>_. {}) E"
  "promises X n F (atomically (mark_revoked X t)) (\<lambda>_. True) (\<lambda>_. {}) E"
  "promises X n F (atomically (mark_unrevoked X t)) (\<lambda>_. True) (\<lambda>_. {}) E"
  by (rule p_statement, rule graph_moves accounts_carry_on,
      simp add: remove_permission_run delete_user_role_def delete_membership_def mark_revoked_def
        mark_unrevoked_def utc_now_def run_simps)+

lemma p_values:
  "promises X n F (atomically (utc_now X)) (\<lambda>_. True) (\<lambda>_. {}) E"
  "promises X n F (atomically (create_access_token X s)) (\<lambda>_. True) (\<lambda>_. {}) E"
  "promises X n F (atomically (get_permissions_for_user X u g)) (\<lambda>_. True) (\<lambda>_. {}) E"
  "promises X n F (atomically (get_user_permissions X u g)) (\<lambda>_. True) (\<lambda>_. {}) E"
  "promises X n F (atomically (get_members_for_organization i)) (\<lambda>_. True) (\<lambda>_. {}) E"
  "promises X n F (atomically (list_organizations_for_user X u)) (\<lambda>_. True) (\<lambda>_. {}) E"
  by (rule p_plain_read, (intro security_quiet user_role_get_quiet get_user_permissions_quiet
        organization_get_quiet organization_reads_quiet),
      simp add: utc_now_def create_access_token_def run_simps get_permissions_for_user_def
        get_user_permissions_def get_members_for_organization_def list_organizations_for_user_def
        get_organizations_for_user_def)+

lemma p_hash_password:
  "argon2_ok X \<Longrightarrow> promises X n F (atomically (hash_password X p)) (\<lambda>h. length h \<le> 255) (\<lambda>_. {}) E"
  by (rule p_read [OF security_quiet(3)]) (auto simp: hash_password_def run_simps argon2_ok_def)

lemma p_audit_reads:
  "0 \<le> l \<Longrightarrow> 0 \<le> off \<Longrightarrow>
   promises X n F (atomically (audit_list_events g actor ac l off)) (\<lambda>_. True) (\<lambda>_. {}) E"
  "promises X n F (atomically (audit_count_events g actor ac)) (\<lambda>_. True) (\<lambda>_. {}) E"
  unfolding audit_list_events_def audit_count_events_def
  by (auto intro!: p_plain_read quieting.rules simp: run_simps)

lemma p_is_member: "promises X n F (atomically (is_member u g)) (\<lambda>_. True) (\<lambda>_. {}) E"
proof (rule p_plain_read)
  show "obeys quiet (is_member u g)" by (rule organization_get_quiet)
  fix w assume "knows X n F w"
  from knowsD(2) [OF this] have "distinct (map membership_key (organization_memberships w))"
    by (simp add: db_ok_def keys_unique_def)
  then show "\<exists>x. fst (is_member u g w) = Inr x" by (simp add: is_member_run)
qed

text \<open>The row a deletion looks for is one at most.\<close>

lemma select_one:
  assumes "distinct (map k (rows w))" and "P = (\<lambda>r. k r = v)"
  shows "scalar_one_or_none (\<lambda>w. filter P (rows w)) w = (Inr (find P (rows w)), w)"
  using scalar_one_or_none_key [where k = k and rows = rows and w = w and v = v, OF assms(1)]
  by (simp add: assms(2))

lemma p_select:
  "promises X n F (atomically (scalar_one_or_none (\<lambda>w. filter (assignment_row u i g) (user_roles w))))
     (\<lambda>_. True) (\<lambda>v. if v = None then {} else organization_facts g) E"
  "promises X n F (atomically (scalar_one_or_none (\<lambda>w. filter (membership_row u o1) (organization_memberships w))))
     (\<lambda>_. True) (\<lambda>v. if v = None then {} else {OrganizationRow o1}) E"
proof -
  have a: "assignment_row u i g = (\<lambda>a. assignment_key a = (u, i, g))"
    by (rule ext) (auto simp: assignment_row_def assignment_key_def)
  have m: "membership_row u o1 = (\<lambda>m. membership_key m = (u, o1))"
    by (rule ext) (simp add: membership_row_key)
  show "promises X n F (atomically (scalar_one_or_none (\<lambda>w. filter (assignment_row u i g) (user_roles w))))
     (\<lambda>_. True) (\<lambda>v. if v = None then {} else organization_facts g) E"
  proof (rule p_read [OF scalar_one_or_none_quiet])
    fix w r w' assume k: "knows X n F w"
      and run: "scalar_one_or_none (\<lambda>w. filter (assignment_row u i g) (user_roles w)) w = (r, w')"
    from knowsD(2) [OF k] have d: "distinct (map assignment_key (user_roles w))"
      and refs: "\<forall>b \<in> set (user_roles w). refers (ur_organization_id b) (ids org_id (organizations w))"
      by (auto simp: db_ok_def keys_unique_def refs_ok_def)
    from select_one [where rows = user_roles, OF d a] run
    have r: "r = Inr (find (assignment_row u i g) (user_roles w))" by simp
    have "refers g (ids org_id (organizations w))" if "find (assignment_row u i g) (user_roles w) = Some b" for b
      using that refs by (auto simp: find_Some_iff assignment_row_def)
    then show "case r of Inl e \<Rightarrow> E e | Inr v \<Rightarrow>
        True \<and> (\<forall>f \<in> (if v = None then {} else organization_facts g). stored f w)"
      unfolding r by (auto intro: organization_facts_stored)
  qed
  show "promises X n F (atomically (scalar_one_or_none (\<lambda>w. filter (membership_row u o1) (organization_memberships w))))
     (\<lambda>_. True) (\<lambda>v. if v = None then {} else {OrganizationRow o1}) E"
  proof (rule p_read [OF scalar_one_or_none_quiet])
    fix w r w' assume k: "knows X n F w"
      and run: "scalar_one_or_none (\<lambda>w. filter (membership_row u o1) (organization_memberships w)) w = (r, w')"
    from knowsD(2) [OF k] have d: "distinct (map membership_key (organization_memberships w))"
      and refs: "\<forall>m \<in> set (organization_memberships w). mem_organization_id m \<in> ids org_id (organizations w)"
      by (auto simp: db_ok_def keys_unique_def refs_ok_def)
    from select_one [where rows = organization_memberships, OF d m] run
    have r: "r = Inr (find (membership_row u o1) (organization_memberships w))" by simp
    have "o1 \<in> ids org_id (organizations w)" if "find (membership_row u o1) (organization_memberships w) = Some b" for b
      using that refs by (auto simp: find_Some_iff membership_row_def)
    then show "case r of Inl e \<Rightarrow> E e | Inr v \<Rightarrow>
        True \<and> (\<forall>f \<in> (if v = None then {} else {OrganizationRow o1}). stored f w)"
      unfolding r by auto
  qed
qed

text \<open>The pieces of a login and of a refresh that store a token.\<close>

lemma p_issue_token_row:
  assumes cf: "collision_free X n" and hash: "sha256_ok X" and u: "UserRow (usr_id u) \<in> F"
  shows "promises X n F (atomically (issue_token_row X u)) (\<lambda>_. True) (\<lambda>(pair, row). {TokenRow row}) E"
proof (rule p_atomically)
  fix w show "carries_on X n w (snd (issue_token_row X u w))"
    by (rule obeys_snd [OF issue_token_row_carries_on [OF cf]])
  fix r w' assume k: "knows X n F w" "draws w \<le> n" "draws w' \<le> n" and run: "issue_token_row X u w = (r, w')"
  let ?v = "w\<lparr>draws := Suc (Suc (Suc (Suc (draws w))))\<rparr>"
  let ?h = "hash_refresh_token X (token_urlsafe X (Suc (Suc (draws w))))"
  let ?e = "utc_clock X (Suc (Suc (Suc (draws w)))) + days (refresh_token_ttl_days (config X))"
  from run have create: "r = (case fst (refresh_token_create X (usr_id u) ?h ?e ?v) of
        Inl e \<Rightarrow> Inl e | Inr row \<Rightarrow> Inr (fst (projr r), row))"
      "w' = snd (refresh_token_create X (usr_id u) ?h ?e ?v)"
    by (auto simp: issue_token_row_def run_simps utc_now_def create_access_token_run
        generate_refresh_token_def refresh_token_expiry_def Let_def numeral_2_eq_2
        split: prod.splits sum.splits)
  obtain res where c: "refresh_token_create X (usr_id u) ?h ?e ?v = (res, w')"
    using create(2) by (cases "refresh_token_create X (usr_id u) ?h ?e ?v") simp
  then have "draws ?v < draws w'" by (cases rule: refresh_token_create_cases) simp_all
  with k(3) have n: "draws ?v < n" by simp
  have ok: "db_ok X ?v" by (rule db_ok_draws [OF _ knowsD(2) [OF k(1)]]) simp
  from refresh_token_create_run [OF ok cf n, of "usr_id u" ?h ?e] stored_user [OF k(1) u] hash create
  show "case r of Inl e \<Rightarrow> E e | Inr x \<Rightarrow> True \<and> (\<forall>f \<in> (case x of (pair, row) \<Rightarrow> {TokenRow row}). stored f w')"
    by (auto simp: Let_def sha256_ok_def hash_refresh_token_def known_def token_idents_def split: sum.splits)
qed

lemma p_rotation:
  assumes cf: "collision_free X n" and hash: "sha256_ok X" and t: "TokenRow t \<in> F"
  shows "promises X n F (atomically (rotation X t)) (\<lambda>_. True)
    (\<lambda>(raw, new). case new of None \<Rightarrow> {} | Some s \<Rightarrow> {TokenRow s}) E"
proof (rule p_atomically)
  show "carries_on X n w (snd (rotation X t w))" if "knows X n F w" for w
    by (rule rotation_carries_on [OF cf knowsD(1) [OF that] stored_token [OF that t]])
  fix w r w' assume k: "knows X n F w" "draws w \<le> n" "draws w' \<le> n" and run: "rotation X t w = (r, w')"
  let ?v = "w\<lparr>draws := Suc (Suc (draws w))\<rparr>"
  let ?raw = "token_urlsafe X (draws w)"
  let ?h = "hash_refresh_token X ?raw"
  let ?e = "utc_clock X (Suc (draws w)) + days (refresh_token_ttl_days (config X))"
  from run have create: "r = (case fst (create_rotation_pair X t ?h ?e ?v) of
        Inl e \<Rightarrow> Inl e | Inr new \<Rightarrow> Inr (?raw, new))"
      "w' = snd (create_rotation_pair X t ?h ?e ?v)"
    by (auto simp: rotation_def run_simps utc_now_def generate_refresh_token_def refresh_token_expiry_def
        Let_def numeral_2_eq_2 split: prod.splits sum.splits)
  have ok: "db_ok X ?v" by (rule db_ok_draws [OF _ knowsD(2) [OF k(1)]]) simp
  from stored_token [OF k(1) t] obtain s where s: "s \<in> set (refresh_tokens ?v)" "rt_id t = rt_id s"
      "rt_user_id t = rt_user_id s"
    by (auto simp: known_def token_idents_def)
  have len: "length ?h \<le> 64" using hash by (simp add: sha256_ok_def hash_refresh_token_def)
  obtain res where c: "create_rotation_pair X t ?h ?e ?v = (res, w')"
    using create(2) by (cases "create_rotation_pair X t ?h ?e ?v") simp
  then show "case r of Inl e \<Rightarrow> E e | Inr x \<Rightarrow>
      True \<and> (\<forall>f \<in> (case x of (raw, new) \<Rightarrow> case new of None \<Rightarrow> {} | Some s \<Rightarrow> {TokenRow s}). stored f w')"
  proof (cases rule: create_rotation_pair_cases)
    case lost
    then have "r = Inr (?raw, None)" by (simp add: create(1) c)
    then show ?thesis by simp
  next
    case (failed err)
    with k(3) have "Suc (draws ?v) < n" by simp
    from create_rotation_pair_run [OF ok cf this s len, of ?e] failed(1) c show ?thesis
      by (auto simp: Let_def split: if_splits)
  next
    case (won new ts)
    have "token_idents w' = map (\<lambda>t. (rt_id t, rt_user_id t, rt_token_hash t)) (ts @ [new])"
      unfolding won(6) token_idents_def by (simp add: update_where_map)
    then have "known new w'" by (simp add: known_def)
    moreover have "r = Inr (?raw, Some new)" by (simp add: create(1) c won(1))
    ultimately show ?thesis by simp
  qed
qed

end
