(* ===== verification/Request_Promises.thy ===== *)
theory Request_Promises
  imports Promises
begin

text \<open>
  The promises of the services and of the routes, and so of every request: whatever runs
  beside it, it is answered with a status its route documents.
\<close>

section \<open>Composing\<close>

lemma p_pair: "(\<And>a b. x = (a, b) \<Longrightarrow> promises X n F (f a b) V A E) \<Longrightarrow>
   promises X n F (case x of (a, b) \<Rightarrow> f a b) V A E"
  by (cases x) simp

text \<open>A first part of which nothing is used.\<close>

lemmas p_next = p_then [where V = "\<lambda>_. True" and A = "\<lambda>_. {}"]

text \<open>A \<open>try/except\<close> for one repository exception.\<close>

lemma p_handled:
  assumes "promises X n F t V A (\<lambda>e. (\<exists>m. e = Repository (C m)) \<or> E e)"
    and "\<And>e t'. h e = Some t' \<Longrightarrow> t' = u" and "\<And>m. h (Repository (C m)) \<noteq> None"
    and "promises X n F u V A E"
  shows "promises X n F (t_except t h) V A E"
proof (rule p_except [OF assms(1)])
  show "E e" if "(\<exists>m. e = Repository (C m)) \<or> E e" "h e = None" for e
    using that assms(3) by metis
  show "promises X n F t' V A E" if "h e = Some t'" for e t'
    using assms(2) [OF that] assms(4) by simp
qed

lemma actor_refers:
  "knows X n F w \<Longrightarrow> UserRow i \<in> F \<Longrightarrow> refers (Some i) (ids usr_id (users w))"
  "knows X n F w \<Longrightarrow> TokenRow t \<in> F \<Longrightarrow> refers (Some (rt_user_id t)) (ids usr_id (users w))"
  by (simp_all add: stored_user stored_token_owner)

lemma organization_refers:
  "knows X n F w \<Longrightarrow> OrganizationRow i \<in> F \<Longrightarrow> refers (Some i) (ids org_id (organizations w))"
  by (simp add: stored_organization)

lemmas p_control = p_if p_option p_let p_pair
lemmas p_reads = p_user_get p_token_get p_require p_permission_get p_values p_audit_reads p_is_member p_select

section \<open>The authentication service\<close>

lemma p_audit_user:
  assumes "collision_free X n" and "UserRow i \<in> F" and "length action \<le> 100" and "opt_length_le target_type 100"
  shows "promises X n F (t_audit_record X action (Some i) target_type target_id None metadata)
    (\<lambda>_. True) (\<lambda>_. {}) E"
  by (rule p_audit [OF assms(1) _ _ assms(3,4)]) (simp_all add: stored_user [OF _ assms(2)])

lemma p_audit_token:
  assumes "collision_free X n" and "TokenRow t \<in> F" and "length action \<le> 100" and "opt_length_le target_type 100"
  shows "promises X n F (t_audit_record X action (Some (rt_user_id t)) target_type target_id None metadata)
    (\<lambda>_. True) (\<lambda>_. {}) E"
  by (rule p_audit [OF assms(1) _ _ assms(3,4)]) (simp_all add: stored_token_owner [OF _ assms(2)])

lemma p_audit_nobody:
  assumes "collision_free X n" and "length action \<le> 100" and "opt_length_le target_type 100"
  shows "promises X n F (t_audit_record X action None target_type target_id None metadata)
    (\<lambda>_. True) (\<lambda>_. {}) E"
  by (rule p_audit [OF assms(1) _ _ assms(2,3)]) simp_all

lemma p_register:
  assumes cf: "collision_free X n" and "argon2_ok X" and "length email \<le> 255"
    and "\<And>m. E (Domain (EmailAlreadyExistsError m))"
  shows "promises X n F (t_auth_register X email password) (\<lambda>_. True) (\<lambda>_. {}) E"
  unfolding t_auth_register_def
proof (rule p_then [OF p_hash_password [OF assms(2)]])
  fix h :: string assume h: "length h \<le> 255"
  let ?failed = "t_then (t_audit_record X USER_REGISTRATION_FAILED None (Some ''user'') None None
      (Some [(''attempted_email'', JStr email), (''reason'', JStr ''duplicate_email'')]))
      (\<lambda>_. t_raise (Domain (EmailAlreadyExistsError ''Unable to register with the provided details.'')))"
  show "promises X n (F \<union> {}) (t_then (t_except (t_create_user X email h)
      (\<lambda>e. case e of Repository (DuplicateEmailError _) \<Rightarrow> Some ?failed | _ \<Rightarrow> None)) (\<lambda>u.
      t_then (t_audit_record X USER_REGISTERED (Some (usr_id u)) (Some ''user'') (Some (usr_id u)) None None)
      (\<lambda>_. t_pure \<lparr>reg_id = usr_id u, reg_email = usr_email u, reg_created_at = usr_created_at u\<rparr>)))
      (\<lambda>_. True) (\<lambda>_. {}) E"
  proof (rule p_then)
    show "promises X n (F \<union> {}) (t_except (t_create_user X email h)
        (\<lambda>e. case e of Repository (DuplicateEmailError _) \<Rightarrow> Some ?failed | _ \<Rightarrow> None))
        (\<lambda>_. True) (\<lambda>u. {UserRow (usr_id u)}) E"
    proof (rule p_handled [where C = DuplicateEmailError and u = ?failed])
      show "promises X n (F \<union> {}) (t_create_user X email h) (\<lambda>_. True) (\<lambda>u. {UserRow (usr_id u)})
          (\<lambda>e. (\<exists>m. e = Repository (DuplicateEmailError m)) \<or> E e)"
        by (rule p_create_user [OF cf assms(3) h]) blast
      show "promises X n (F \<union> {}) ?failed (\<lambda>_. True) (\<lambda>u. {UserRow (usr_id u)}) E"
        by (rule p_then [OF p_audit_nobody [OF cf]]) (simp_all add: p_raise assms(4))
    qed (erule handlers, simp)
    fix u :: user
    show "promises X n (F \<union> {} \<union> {UserRow (usr_id u)})
       (t_then (t_audit_record X USER_REGISTERED (Some (usr_id u)) (Some ''user'') (Some (usr_id u)) None None)
       (\<lambda>_. t_pure \<lparr>reg_id = usr_id u, reg_email = usr_email u, reg_created_at = usr_created_at u\<rparr>))
       (\<lambda>_. True) (\<lambda>_. {}) E"
      by (rule p_then [OF p_audit_user [OF cf]]) (simp_all add: p_pure)
  qed
qed

lemma p_login:
  assumes cf: "collision_free X n" and hash: "sha256_ok X"
    and "\<And>m. E (Domain (InvalidCredentialsError m))" and "\<And>m. E (Domain (InactiveUserError m))"
  shows "promises X n F (t_auth_login X email password) (\<lambda>_. True) (\<lambda>_. {}) E"
  unfolding t_auth_login_def t_issue_token_pair_def
  by (rule p_then p_control p_raise p_pure assms(3,4) p_user_get p_token_refresh p_update_last_login
      p_audit_nobody [OF cf] p_audit_user [OF cf] p_issue_token_row [OF cf hash] | simp; fail)+

lemma loaded_known:
  "\<forall>c \<in> set session. TokenRow c \<in> F \<Longrightarrow> TokenRow r \<in> F \<Longrightarrow> TokenRow (loaded fresh session r) \<in> F"
  by (auto simp: loaded_def find_Some_iff split: option.split)

lemma p_walk:
  "\<forall>c \<in> set session. TokenRow c \<in> F \<Longrightarrow>
   promises X n F (t_family_walk fresh k X session i) (\<lambda>_. True) (\<lambda>_. {}) E"
proof (induction k arbitrary: session i F)
  case (Suc k)
  show ?case
    unfolding t_family_walk.simps
  proof (rule p_then [OF p_token_get(1)], rule p_control, simp add: p_pure, rule p_let)
    fix found r assume found: "found = Some (r :: refresh_token)"
    let ?F = "F \<union> (case found of None \<Rightarrow> {} | Some t \<Rightarrow> {TokenRow t})"
    let ?c = "loaded fresh session r"
    have c: "TokenRow ?c \<in> ?F" and s: "\<forall>c \<in> set (?c # session). TokenRow c \<in> ?F"
      using Suc.prems loaded_known [of session ?F r fresh] found by auto
    show "promises X n ?F (case rt_replaced_by ?c of
          Some i \<Rightarrow> t_family_walk fresh k X (?c # session) i
        | None \<Rightarrow>
            t_then (atomically (mark_unrevoked X ?c)) (\<lambda>rowcount.
            if rowcount = 0 then
              t_then (atomically (token_get_by_id (rt_id ?c))) (\<lambda>refreshed.
              case refreshed of
                None \<Rightarrow> t_pure None
              | Some q \<Rightarrow>
                  (case rt_replaced_by (loaded fresh (?c # session) q) of
                     None \<Rightarrow> t_pure None
                   | Some i \<Rightarrow> t_family_walk fresh k X (?c # session) i))
            else t_then (atomically (token_refresh ?c)) (\<lambda>s. t_pure (Some s)))) (\<lambda>_. True) (\<lambda>_. {}) E"
      by (rule p_then p_control p_pure p_statements p_token_get p_token_refresh Suc.IH | use c s in force)+
  qed
qed (simp add: p_pure)

lemma p_rejection:
  assumes "collision_free X n" and "TokenRow t \<in> F"
  shows "promises X n F (t_record_rejection X t reason) (\<lambda>_. True) (\<lambda>_. {}) E"
  unfolding t_record_rejection_def by (rule p_audit_token [OF assms]) simp_all

lemma p_handle_revoked:
  assumes cf: "collision_free X n" and t: "TokenRow t \<in> F"
  shows "promises X n F (t_handle_revoked_token X fresh t) (\<lambda>_. True) (\<lambda>_. {}) E"
proof -
  have d: "promises X n F (t_revoke_descendants X fresh t) (\<lambda>_. True) (\<lambda>_. {}) E" for E
    unfolding t_revoke_descendants_def by (rule p_control p_pure p_walk | use t in simp)+
  show ?thesis
    unfolding t_handle_revoked_token_def
    by (rule p_then p_control p_pure d p_rejection [OF cf] p_audit_token [OF cf] | use t in simp)+
qed

lemma p_refresh_pair:
  "TokenRow t \<in> F \<Longrightarrow> TokenRow s \<in> F \<Longrightarrow> promises X n F (t_refresh_pair t s) (\<lambda>_. True) (\<lambda>_. {}) E"
  unfolding t_refresh_pair_def by (rule p_then p_pure p_token_refresh | simp)+

lemma p_rotate:
  assumes cf: "collision_free X n" and hash: "sha256_ok X" and t: "TokenRow t \<in> F" and u: "UserRow (usr_id u) \<in> F"
    and "E invalid_refresh_token"
  shows "promises X n F (t_rotate_token X t u) (\<lambda>_. True) (\<lambda>_. {}) E"
  unfolding t_rotate_token_def
  by (rule p_then p_control p_pure p_raise p_rotation [OF cf hash] p_rejection [OF cf] p_audit_user [OF cf]
      p_refresh_pair p_values assms(5) | use t u in simp)+

lemma p_refresh:
  assumes cf: "collision_free X n" and hash: "sha256_ok X" and "E invalid_refresh_token"
  shows "promises X n F (t_auth_refresh X fresh presented) (\<lambda>_. True) (\<lambda>_. {}) E"
  unfolding t_auth_refresh_def
  by (rule p_then p_control p_pure p_raise p_token_get p_user_get p_values p_audit_nobody [OF cf]
      p_rejection [OF cf] p_handle_revoked [OF cf] p_rotate [OF cf hash] assms(3) | simp)+

lemma p_logout:
  assumes cf: "collision_free X n"
  shows "promises X n F (t_auth_logout X presented) (\<lambda>_. True) (\<lambda>_. {}) E"
  unfolding t_auth_logout_def t_revoke_def
  by (rule p_then p_control p_pure p_token_get p_statements p_token_refresh p_audit_token [OF cf] | simp)+

section \<open>The authorization service\<close>

text \<open>An event of the permission graph: the actor is the caller, the organization a row.\<close>

lemma p_audit_graph:
  assumes "collision_free X n" and "UserRow i \<in> F" and "\<And>w. knows X n F w \<Longrightarrow> refers g (ids org_id (organizations w))"
    and "length action \<le> 100" and "opt_length_le target_type 100"
  shows "promises X n F (t_audit_record X action (Some i) target_type target_id g metadata)
    (\<lambda>_. True) (\<lambda>_. {}) E"
  by (rule p_audit [OF assms(1) _ assms(3-5)]) (simp add: stored_user [OF _ assms(2)])

lemma p_authorize:
  "promises X n F (t_authorize X u re a g) (\<lambda>_. True) (\<lambda>_. {}) E"
  unfolding t_authorize_def by (rule p_then p_control p_pure p_user_get p_values | simp)+

lemma p_create_role:
  assumes cf: "collision_free X n" and fits: "length name \<le> 100" and actor: "UserRow actor \<in> F"
    and E: "\<And>m. E (Domain (OrganizationNotFoundError m))" "\<And>m. E (Domain (RoleNameAlreadyExistsError m))"
  shows "promises X n F (t_create_role X name d g actor) (\<lambda>_. True) (\<lambda>_. {}) E"
  unfolding t_create_role_def
proof (rule p_then [where V = "\<lambda>_. True" and A = "\<lambda>_. organization_facts g"])
  let ?F = "F \<union> organization_facts g"
  show "promises X n F (case g of None \<Rightarrow> t_pure () | Some i \<Rightarrow>
      t_then (atomically (require_organization i)) (\<lambda>_. t_pure ())) (\<lambda>_. True)
      (\<lambda>_. organization_facts g) E"
    by (rule p_then p_control p_pure p_require E | simp)+
  let ?taken = "t_raise (Domain (RoleNameAlreadyExistsError (''Role name already exists: '' @ name)))"
  have og: "refers g (ids org_id (organizations w))" if "knows X n ?F w" for w
    by (rule organization_facts_refers [OF that]) auto
  show "promises X n ?F
     (t_then (t_except (t_role_create X name d g)
        (\<lambda>e. case e of Repository (DuplicateRoleNameError _) \<Rightarrow> Some ?taken | _ \<Rightarrow> None)) (\<lambda>r.
      t_then (t_audit_record X ROLE_CREATED (Some actor) (Some ''role'') (Some (role_id r))
        (role_organization_id r) (Some [(''name'', JStr (role_name r))])) (\<lambda>_.
      t_pure (role_response r)))) (\<lambda>_. True) (\<lambda>_. {}) E"
  proof (rule p_then)
    show "promises X n ?F (t_except (t_role_create X name d g)
        (\<lambda>e. case e of Repository (DuplicateRoleNameError _) \<Rightarrow> Some ?taken | _ \<Rightarrow> None))
        (\<lambda>_. True) (\<lambda>r. {RoleRow r}) E"
      by (rule p_handled [where C = DuplicateRoleNameError and u = ?taken],
          rule p_role_create [OF cf fits og], assumption, blast, erule handlers, simp, rule p_raise, rule E)
    fix r :: role
    show "promises X n (?F \<union> {RoleRow r})
        (t_then (t_audit_record X ROLE_CREATED (Some actor) (Some ''role'') (Some (role_id r))
          (role_organization_id r) (Some [(''name'', JStr (role_name r))])) (\<lambda>_.
        t_pure (role_response r))) (\<lambda>_. True) (\<lambda>_. {}) E"
      by (rule p_then [OF p_audit_graph [OF cf]] p_pure stored_role_organization | use actor in simp)+
  qed
qed

lemma p_check_membership:
  assumes E: "\<And>m. E (Domain (OrganizationNotFoundError m))" "\<And>m. E (Domain (UserNotOrganizationMemberError m))"
  shows "promises X n F (t_check_membership u g) (\<lambda>_. True)
    (\<lambda>_. organization_facts g) E"
  unfolding t_check_membership_def
  by (rule p_then p_control p_pure p_raise p_require p_is_member E | simp)+

lemma p_assign_role:
  assumes cf: "collision_free X n" and actor: "UserRow actor \<in> F"
    and E: "\<And>m. E (Domain (RoleNotFoundError m))" "\<And>m. E (Domain (OrganizationNotFoundError m))"
      "\<And>m. E (Domain (RoleOrganizationMismatchError m))" "\<And>m. E (Domain (UserNotOrganizationMemberError m))"
      "\<And>m. E (Domain (RoleAlreadyAssignedError m))" "E (Sql InvalidRequestError)"
  shows "promises X n F (t_assign_role X u i g actor) (\<lambda>_. True) (\<lambda>_. {}) E"
  unfolding t_assign_role_def
proof (rule p_then [OF p_require(1)], rule E, rule p_if, rule p_raise, rule E, rule p_then [OF p_check_membership], rule E, rule E)
  fix r :: role
  assume r: "role_id r = i" and "\<not> (role_organization_id r \<noteq> None \<and> role_organization_id r \<noteq> g)"
  then have fit: "role_organization_id r = None \<or> role_organization_id r = g" by blast
  let ?F = "F \<union> {RoleRow r} \<union> organization_facts g"
  let ?taken = "t_raise (Domain (RoleAlreadyAssignedError (assignment_message u i g)))"
  show "promises X n ?F
     (t_then (t_except (t_then (t_user_role_assign X u i g) (\<lambda>_. t_pure ()))
        (\<lambda>e. case e of Repository (DuplicateRoleAssignmentError _) \<Rightarrow> Some ?taken | _ \<Rightarrow> None)) (\<lambda>_.
      t_then (t_audit_record X ROLE_ASSIGNED (Some actor) (Some ''user'') (Some u) g
        (Some [(''role_id'', JStr (uuid_str i))])) (\<lambda>_. t_pure ()))) (\<lambda>_. True) (\<lambda>_. {}) E"
  proof (rule p_next)
    show "promises X n ?F (t_except (t_then (t_user_role_assign X u i g) (\<lambda>_. t_pure ()))
        (\<lambda>e. case e of Repository (DuplicateRoleAssignmentError _) \<Rightarrow> Some ?taken | _ \<Rightarrow> None))
        (\<lambda>_. True) (\<lambda>_. {}) E"
    proof (rule p_handled [where C = DuplicateRoleAssignmentError and u = ?taken])
      show "promises X n ?F (t_then (t_user_role_assign X u i g) (\<lambda>_. t_pure ())) (\<lambda>_. True) (\<lambda>_. {})
          (\<lambda>e. (\<exists>m. e = Repository (DuplicateRoleAssignmentError m)) \<or> E e)"
        unfolding r [symmetric]
        by (rule p_then [OF p_user_role_assign [OF cf _ fit]] p_pure | use E in simp)+
      show "promises X n ?F ?taken (\<lambda>_. True) (\<lambda>_. {}) E" by (rule p_raise, rule E)
    qed (erule handlers, simp)
    have og: "refers g (ids org_id (organizations w))" if "knows X n (?F \<union> {}) w" for w
      by (rule organization_facts_refers [OF that]) auto
    show "promises X n (?F \<union> {})
        (t_then (t_audit_record X ROLE_ASSIGNED (Some actor) (Some ''user'') (Some u) g
          (Some [(''role_id'', JStr (uuid_str i))])) (\<lambda>_. t_pure ())) (\<lambda>_. True) (\<lambda>_. {}) E"
      by (rule p_then [OF p_audit_graph [OF cf _ og]] p_pure | use actor in simp)+
  qed
qed

text \<open>What was removed was a row, so its organization is one.\<close>

lemma p_removals:
  "promises X n F (t_user_role_revoke u i g) (\<lambda>_. True) (\<lambda>r. if r then organization_facts g else {}) E"
  "promises X n F (t_membership_remove u o1) (\<lambda>_. True) (\<lambda>r. if r then {OrganizationRow o1} else {}) E"
  unfolding t_user_role_revoke_def t_membership_remove_def
  by (rule p_then p_control p_pure p_select p_statements | force)+

lemma p_revoke_role:
  assumes cf: "collision_free X n" and actor: "UserRow actor \<in> F"
  shows "promises X n F (t_revoke_role X u i g actor) (\<lambda>_. True) (\<lambda>_. {}) E"
  unfolding t_revoke_role_def
  by (rule p_then [OF p_removals(1)] p_next p_then [OF p_audit_graph [OF cf]] p_control p_pure
      | use actor in \<open>force intro: organization_facts_refers\<close>)+

lemma p_assign_permission:
  assumes cf: "collision_free X n" and actor: "UserRow actor \<in> F"
    and E: "\<And>m. E (Domain (RoleNotFoundError m))" "\<And>m. E (Domain (PermissionNotFoundError m))"
      "\<And>m. E (Domain (PermissionAlreadyAssignedError m))"
  shows "promises X n F (t_assign_permission_to_role X i p actor) (\<lambda>_. True) (\<lambda>_. {}) E"
  unfolding t_assign_permission_to_role_def
proof (rule p_then [OF p_require(1)], rule E, rule p_then [OF p_permission_get], rule p_option, rule p_raise, rule E)
  fix r :: role and found q
  let ?F = "F \<union> {RoleRow r} \<union> (case found of None \<Rightarrow> {} | Some p \<Rightarrow> {PermissionRow (perm_id p)})"
  let ?taken = "t_raise (Domain (PermissionAlreadyAssignedError
    (''Role '' @ uuid_str i @ '' already has permission '' @ uuid_str p)))"
  show "promises X n ?F
     (t_then (t_except (atomically (add_permission i p))
        (\<lambda>e. case e of Repository (DuplicateRolePermissionError _) \<Rightarrow> Some ?taken | _ \<Rightarrow> None)) (\<lambda>_.
      t_then (t_audit_record X PERMISSION_ASSIGNED_TO_ROLE (Some actor) (Some ''role'') (Some i)
        (role_organization_id r) (Some [(''permission_id'', JStr (uuid_str p))])) (\<lambda>_.
      t_pure ()))) (\<lambda>_. True) (\<lambda>_. {}) E"
  proof (rule p_next)
    show "promises X n ?F (t_except (atomically (add_permission i p))
        (\<lambda>e. case e of Repository (DuplicateRolePermissionError _) \<Rightarrow> Some ?taken | _ \<Rightarrow> None))
        (\<lambda>_. True) (\<lambda>_. {}) E"
      by (rule p_handled [where C = DuplicateRolePermissionError and u = ?taken],
          rule p_add_permission, blast, erule handlers, simp, rule p_raise, rule E)
    show "promises X n (?F \<union> {}) (t_then (t_audit_record X PERMISSION_ASSIGNED_TO_ROLE (Some actor)
        (Some ''role'') (Some i) (role_organization_id r) (Some [(''permission_id'', JStr (uuid_str p))]))
        (\<lambda>_. t_pure ())) (\<lambda>_. True) (\<lambda>_. {}) E"
      by (rule p_then [OF p_audit_graph [OF cf]] p_pure stored_role_organization | use actor in simp)+
  qed
qed

lemma p_remove_permission:
  assumes cf: "collision_free X n" and actor: "UserRow actor \<in> F"
    and E: "\<And>m. E (Domain (RoleNotFoundError m))"
  shows "promises X n F (t_remove_permission_from_role X i p actor) (\<lambda>_. True) (\<lambda>_. {}) E"
  unfolding t_remove_permission_from_role_def
  by (rule p_then [OF p_require(1)] E p_then [OF p_statements(1)] p_then [OF p_audit_graph [OF cf]] p_next
      p_control p_pure stored_role_organization | use actor in simp)+

section \<open>The organization and audit log services\<close>

lemma p_create_organization:
  assumes cf: "collision_free X n" and fits: "length name \<le> 255" and actor: "UserRow actor \<in> F"
    and E: "\<And>m. E (Domain (OrganizationNameAlreadyExistsError m))"
  shows "promises X n F (t_create_organization X name actor) (\<lambda>_. True) (\<lambda>_. {}) E"
  unfolding t_create_organization_def
proof (rule p_then)
  let ?taken = "t_raise (Domain (OrganizationNameAlreadyExistsError (''Organization name already exists: '' @ name)))"
  show "promises X n F (t_except (t_organization_create X name)
      (\<lambda>e. case e of Repository (DuplicateOrganizationNameError _) \<Rightarrow> Some ?taken | _ \<Rightarrow> None))
      (\<lambda>_. True) (\<lambda>g. {OrganizationRow (org_id g)}) E"
    by (rule p_handled [where C = DuplicateOrganizationNameError and u = ?taken],
        rule p_organization_create [OF cf fits], blast, erule handlers, simp, rule p_raise, rule E)
  fix g :: organization
  show "promises X n (F \<union> {OrganizationRow (org_id g)}) (t_then (t_audit_record X ORGANIZATION_CREATED
      (Some actor) (Some ''organization'') (Some (org_id g)) (Some (org_id g))
      (Some [(''name'', JStr (org_name g))])) (\<lambda>_. t_pure (organization_response g))) (\<lambda>_. True) (\<lambda>_. {}) E"
    by (rule p_then [OF p_audit_graph [OF cf]] p_pure organization_refers | use actor in simp)+
qed

lemma p_add_member:
  assumes cf: "collision_free X n" and actor: "UserRow actor \<in> F"
    and E: "\<And>m. E (Domain (UserNotFoundError m))" "\<And>m. E (Domain (OrganizationNotFoundError m))"
      "\<And>m. E (Domain (OrganizationMembershipAlreadyExistsError m))" "E (Sql InvalidRequestError)"
  shows "promises X n F (t_add_member X u g actor) (\<lambda>_. True) (\<lambda>_. {}) E"
  unfolding t_add_member_def
proof (rule p_then [OF p_user_get(1)], rule p_option, rule p_raise, rule E, rule p_then [OF p_require(3)], rule E)
  fix found :: "user option" and v
  assume v: "\<forall>v. found = Some v \<longrightarrow> usr_id v = u" "found = Some v"
  let ?F = "F \<union> (case found of None \<Rightarrow> {} | Some u \<Rightarrow> {UserRow (usr_id u)}) \<union> {OrganizationRow g}"
  let ?taken = "t_raise (Domain (OrganizationMembershipAlreadyExistsError
    (''User '' @ uuid_str u @ '' is already a member of organization '' @ uuid_str g)))"
  show "promises X n ?F
     (t_then (t_except (t_then (t_membership_add X u g) (\<lambda>_. t_pure ()))
        (\<lambda>e. case e of Repository (DuplicateMembershipError _) \<Rightarrow> Some ?taken | _ \<Rightarrow> None)) (\<lambda>_.
      t_then (t_audit_record X ORGANIZATION_MEMBER_ADDED (Some actor) (Some ''user'') (Some u) (Some g) None)
      (\<lambda>_. t_pure ()))) (\<lambda>_. True) (\<lambda>_. {}) E"
  proof (rule p_next)
    show "promises X n ?F (t_except (t_then (t_membership_add X u g) (\<lambda>_. t_pure ()))
        (\<lambda>e. case e of Repository (DuplicateMembershipError _) \<Rightarrow> Some ?taken | _ \<Rightarrow> None))
        (\<lambda>_. True) (\<lambda>_. {}) E"
    proof (rule p_handled [where C = DuplicateMembershipError and u = ?taken])
      show "promises X n ?F (t_then (t_membership_add X u g) (\<lambda>_. t_pure ())) (\<lambda>_. True) (\<lambda>_. {})
          (\<lambda>e. (\<exists>m. e = Repository (DuplicateMembershipError m)) \<or> E e)"
        by (rule p_then [OF p_membership_add [OF cf]] p_pure | use E v in simp)+
      show "promises X n ?F ?taken (\<lambda>_. True) (\<lambda>_. {}) E" by (rule p_raise, rule E)
    qed (erule handlers, simp)
    show "promises X n (?F \<union> {}) (t_then (t_audit_record X ORGANIZATION_MEMBER_ADDED (Some actor)
        (Some ''user'') (Some u) (Some g) None) (\<lambda>_. t_pure ())) (\<lambda>_. True) (\<lambda>_. {}) E"
      by (rule p_then [OF p_audit_graph [OF cf]] p_pure organization_refers | use actor in simp)+
  qed
qed

lemma p_remove_member:
  assumes cf: "collision_free X n" and actor: "UserRow actor \<in> F"
  shows "promises X n F (t_remove_member X u g actor) (\<lambda>_. True) (\<lambda>_. {}) E"
  unfolding t_remove_member_def
  by (rule p_then [OF p_removals(2)] p_then [OF p_audit_graph [OF cf]] p_next p_control p_pure
      organization_refers | use actor in simp)+

lemma p_list_members:
  "(\<And>m. E (Domain (OrganizationNotFoundError m))) \<Longrightarrow>
   promises X n F (t_list_members g) (\<lambda>_. True) (\<lambda>_. {}) E"
  unfolding t_list_members_def by (rule p_then [OF p_require(3)] p_values | simp)+

lemma p_list_events:
  "0 \<le> l \<Longrightarrow> 0 \<le> off \<Longrightarrow> promises X n F (t_list_events g u a l off) (\<lambda>_. True) (\<lambda>_. {}) E"
  unfolding t_list_events_def by (rule p_then p_audit_reads p_pure | simp)+

section \<open>Dependencies and routes\<close>

lemma p_current_user:
  assumes sub: "subjects_are_strings X" and E: "E unauthorized"
  shows "promises X n F (atomically (get_current_user X auth)) (\<lambda>_. True) (\<lambda>u. {UserRow (usr_id u)}) E"
proof (rule p_read [OF get_current_user_quiet])
  fix w r w' assume k: "knows X n F w" and run: "get_current_user X auth w = (r, w')"
  from get_current_user_run [OF knowsD(2) [OF k] sub, of auth] run E
  show "case r of Inl e \<Rightarrow> E e | Inr u \<Rightarrow> True \<and> (\<forall>f \<in> {UserRow (usr_id u)}. stored f w)"
    by (auto simp: ids_def dest: caller_stored split: option.splits)
qed

lemma p_admin:
  assumes sub: "subjects_are_strings X" and E: "E unauthorized" "E (HTTPException 403 PERMISSION_DENIED_DETAIL)"
    and "\<And>u. promises X n (F \<union> {UserRow (usr_id u)}) (f u) V A E"
  shows "promises X n F (t_admin X r a auth f) V A E"
  unfolding t_admin_def
proof (rule p_then)
  show "promises X n F (t_require_permission X r a auth) (\<lambda>_. True) (\<lambda>u. {UserRow (usr_id u)}) E"
    unfolding t_require_permission_def
    by (rule p_then [OF p_current_user [OF sub]] p_then [OF p_authorize] p_control p_raise p_pure E | simp)+
qed (rule assms(4))

text \<open>The except clauses of a route.\<close>

definition through :: "(domain_error \<Rightarrow> (nat \<times> string) option) \<Rightarrow> (exn \<Rightarrow> bool) \<Rightarrow> exn \<Rightarrow> bool" where
  "through clauses E e = (case e of
     Domain d \<Rightarrow> (case clauses d of None \<Rightarrow> E e | Some (status, detail) \<Rightarrow> E (HTTPException status detail))
   | _ \<Rightarrow> E e)"

lemma p_excepting:
  assumes "promises X n F t V A (through clauses E)"
  shows "promises X n F (t_excepting clauses t) V A E"
  unfolding t_excepting_def
  by (rule p_except [OF assms])
    (auto simp: through_def intro!: p_raise split: exn.splits option.splits prod.splits)

lemma p_answer:
  assumes "promises X n F t (\<lambda>_. True) (\<lambda>_. {}) E" and "\<And>x. V (status, body x)"
  shows "promises X n F (t_answer status body t) V (\<lambda>_. {}) E"
  unfolding t_answer_def by (rule p_then [OF assms(1)], rule p_pure) (simp_all add: assms(2))

section \<open>Every request\<close>

text \<open>
  The two routes whose new row a request that runs beside them can delete before it is
  read back.
\<close>

fun overtakable :: "request \<Rightarrow> bool" where
  "overtakable (AssignRole _ _ _) = True"
| "overtakable (AddMember _ _) = True"
| "overtakable _ = False"

definition tolerated :: "request \<Rightarrow> exn \<Rightarrow> bool" where
  "tolerated req e = (status_of (Inl e) \<in> documented req \<or> overtakable req \<and> e = Sql InvalidRequestError)"

lemma through_simps:
  "clauses d = Some (s, m) \<Longrightarrow> through clauses E (Domain d) = E (HTTPException s m)"
  "through clauses E (Sql x) = E (Sql x)"
  by (simp_all add: through_def)

lemma p_serve:
  assumes cf: "collision_free X n" and "argon2_ok X" and hash: "sha256_ok X" and sub: "subjects_are_strings X"
    and "fits_columns X req"
  shows "promises X n {} (serve X fresh auth req) (\<lambda>a. fst a \<in> documented req) (\<lambda>_. {}) (tolerated req)"
proof -
  note personal = p_then [OF p_current_user [OF sub]]
  note services = p_register [OF cf assms(2)] p_login [OF cf hash] p_refresh [OF cf hash] p_logout [OF cf]
    p_authorize p_create_role [OF cf] p_assign_permission [OF cf] p_remove_permission [OF cf]
    p_assign_role [OF cf] p_revoke_role [OF cf] p_create_organization [OF cf] p_add_member [OF cf]
    p_remove_member [OF cf] p_list_members p_list_events p_values
  note statuses = through_def tolerated_def error_clauses unauthorized_def unprocessable_def
    invalid_refresh_token_def
  show ?thesis
  proof (cases req)
    case (Register email password)
    then show ?thesis
      using assms(5)
      by (simp only: serve.simps, intro p_control p_answer p_excepting p_raise p_register [OF cf assms(2)])
        (auto simp: statuses)
  next
    case (CreateRole name d g)
    with assms(5) have "length name \<le> 100" by simp
    then show ?thesis
      unfolding CreateRole serve.simps
      by (intro p_admin [OF sub] p_answer p_excepting p_create_role [OF cf]) (auto simp: statuses)
  next
    case (CreateOrganization name)
    with assms(5) have "length name \<le> 255" by simp
    then show ?thesis
      unfolding CreateOrganization serve.simps
      by (intro p_admin [OF sub] p_answer p_excepting p_create_organization [OF cf]) (auto simp: statuses)
  qed (simp only: serve.simps,
       (rule p_control p_admin [OF sub] personal p_answer p_excepting services p_raise p_pure
        | simp add: statuses; fail)+)+
qed

end
