(* ===== verification/Races.thy ===== *)
theory Races
  imports Interference Requests
begin

text \<open>
  Two interleavings followed turn by turn: a role assignment that is revoked before it is
  read back, and one assignment that two requests revoke.
\<close>

section \<open>One turn\<close>

lemma turn_taken:
  assumes "i < length ts" and "ts ! i = t_then (atomically m) f" and "m s = (Inr x, s')"
  shows "give_turn i (ts, s) = (ts[i := f x], s')"
  using assms by (simp add: give_turn_def atomically_def)

lemma t_then_assoc: "t_then (t_then t f) g = t_then t (\<lambda>x. t_then (f x) g)"
  by (induction t) (auto split: sum.split)

text \<open>The three turns that let a caller in.\<close>

lemma admitted_turns:
  assumes ok: "db_ok X s" and sub: "subjects_are_strings X" and u: "caller X auth s = Some u"
    and may: "may s (usr_id u) r a None" and i: "i < length ts" "ts ! i = t_admin X r a auth f"
  shows "give_turns [i, i, i] (ts, s) = (ts[i := f u], read_header auth s)"
proof -
  let ?s = "read_header auth s"
  have ok': "db_ok X ?s" by (rule read_header_ok [OF ok])
  have may': "may ?s (usr_id u) r a None" using may by (subst may_cong [of ?s s]) simp_all
  then obtain v where v: "v \<in> set (users ?s)" "usr_id v = usr_id u" "usr_is_active v"
    by (auto simp: may_def)
  have found: "user_get_by_id (usr_id u) ?s = (Inr (Some v), ?s)"
    using find_key_unique [of usr_id "users ?s" v] v(1,2) ok'
    by (simp add: user_get_by_id_run [OF ok'] db_ok_def keys_unique_def)
  let ?ps = "order_by (by_resource_action X) (remdups (permissions_of ?s (usr_id u) None))"
  have granted: "\<exists>p \<in> set ?ps. perm_resource p = r \<and> perm_action p = a"
    using may' unfolding set_order_by set_remdups set_permissions_of may_def by blast
  then have granted': "\<not> (\<forall>p \<in> set ?ps. perm_resource p = r \<longrightarrow> perm_action p \<noteq> a)" by blast
  have header: "get_current_user X auth s = (Inr u, ?s)"
    by (simp add: get_current_user_run [OF ok sub] u)
  show ?thesis
    using i
    by (simp add: give_turn_def atomically_def t_admin_def t_require_permission_def t_authorize_def
        header found v(3) get_permissions_for_user_run granted granted' decision_def t_pure_def Let_def
        del: set_order_by set_remdups)
qed

section \<open>An assignment overtaken\<close>

text \<open>The turns of an assignment of a role that is global, from the role on.\<close>

lemma assignment_turns:
  assumes "require_role i s = (Inr r, s)" and "role_organization_id r = None"
    and "user_role_assign X u i None s = (Inr a, s')"
  shows "\<exists>t. give_turns [0, 0] ([t_answer 204 (\<lambda>_. EmptyBody)
      (t_excepting assign_role_errors (t_assign_role X u i None actor)), c], s) = ([t, c], s') \<and>
    (\<forall>d v. assignment_rows (ur_id a) v = [] \<longrightarrow>
      give_turn 0 ([t, d], v) = ([Finished (Inl (Sql InvalidRequestError)), d], v))"
  by (simp add: give_turn_def atomically_def t_answer_def t_excepting_def t_assign_role_def
      t_check_membership_def t_user_role_assign_def t_insert_def t_pure_def assms session_refresh_def)

text \<open>The turns of a revocation that finds its assignment.\<close>

lemma revocation_turns:
  assumes "scalar_one_or_none (\<lambda>w. filter (assignment_row u i g) (user_roles w)) s = (Inr (Some a), s)"
    and "audit_record X ROLE_REVOKED (Some actor) (Some ''user'') (Some u) g
      (Some [(''role_id'', JStr (uuid_str i))]) (snd (delete_user_role a s)) = (Inr l, s')"
    and "log_rows (log_id l) s' = [l]"
  shows "give_turns [1, 1, 1, 1] ([d, t_answer 204 (\<lambda>_. EmptyBody) (t_revoke_role X u i g actor)], s) =
    ([d, Finished (Inr (204, EmptyBody))], s')"
  using assms(2)
  by (simp add: give_turn_def atomically_def t_answer_def t_revoke_role_def t_user_role_revoke_def
      t_audit_record_def t_insert_def t_pure_def assms session_refresh_def delete_user_role_def)

lemma revocation_served:
  assumes ok: "db_ok X s" and cf: "collision_free X n" and n: "draws s + 3 \<le> n"
    and sub: "subjects_are_strings X" and admin: "caller X auth s = Some admin"
    and may: "may s (usr_id admin) ''user'' ''manage'' None"
    and a: "a \<in> set (user_roles s)" "assignment_key a = (u, i, g)"
  obtains s' l where
    "give_turns [1, 1, 1, 1, 1, 1, 1] ([d, serve X fresh auth (RevokeRole u i g)], s) =
       ([d, Finished (Inr (204, EmptyBody))], s')"
    "user_roles s' = filter (\<lambda>b. ur_id b \<noteq> ur_id a) (user_roles s)"
    "audit_logs s' = audit_logs s @ [l]" "log_action l = ROLE_REVOKED"
proof -
  let ?s1 = "read_header auth s"
  have ok1: "db_ok X ?s1" by (rule read_header_ok [OF ok])
  have keys: "distinct (map assignment_key (user_roles s))"
    using ok by (simp add: db_ok_def keys_unique_def)
  have row: "assignment_row u i g = (\<lambda>b. assignment_key b = assignment_key a)"
    by (rule ext) (auto simp: assignment_row_def assignment_key_def a(2) [unfolded assignment_key_def])
  have select: "scalar_one_or_none (\<lambda>w. filter (assignment_row u i g) (user_roles w)) ?s1 = (Inr (Some a), ?s1)"
    using scalar_one_or_none_key [where k = assignment_key and rows = user_roles and w = ?s1 and v = "assignment_key a"]
      keys find_key_unique [OF keys a(1)] by (simp add: row)
  let ?s2 = "snd (delete_user_role a ?s1)"
  have s2: "users ?s2 = users s" "organizations ?s2 = organizations s" "draws ?s2 = draws ?s1"
    "user_roles ?s2 = filter (\<lambda>b. ur_id b \<noteq> ur_id a) (user_roles s)" "audit_logs ?s2 = audit_logs s"
    by (simp_all add: delete_user_role_def)
  have ok2: "db_ok X ?s2" by (rule obeys_keepsD [OF delete_keeps(1) ok1])
  have "draws ?s1 \<le> Suc (draws s)" by simp
  with n have n2: "draws ?s2 < n" by (simp only: s2)
  have actor: "refers (Some (usr_id admin)) (ids usr_id (users ?s2))"
    using caller_stored [OF admin] by (simp add: s2 ids_def)
  have og: "refers g (ids org_id (organizations ?s2))"
    using ok a by (auto simp: s2 db_ok_def refs_ok_def assignment_key_def)
  have short: "length ROLE_REVOKED \<le> 100" "opt_length_le (Some ''user'') 100" by simp_all
  let ?m = "Some [(''role_id'', JStr (uuid_str i))]"
  obtain l s' where audit: "audit_record X ROLE_REVOKED (Some (usr_id admin)) (Some ''user'') (Some u) g ?m ?s2 = (Inr l, s')"
    and s': "s' = log_event X ROLE_REVOKED (Some (usr_id admin)) (Some ''user'') (Some u) g ?m ?s2"
    and l: "l = audit_row ROLE_REVOKED (Some (usr_id admin)) (Some ''user'') (Some u) g ?m
       (gen_random_uuid X (draws ?s2)) (db_now X (Suc (draws ?s2)))"
    using audit_record_run [OF ok2 cf n2 actor og short] by blast
  have logs: "audit_logs s' = audit_logs s @ [l]" by (simp add: s' l log_event_def s2)
  have "db_ok X s'" using obeys_keepsD [OF audit_record_keeps ok2] audit by (metis snd_conv)
  then have "distinct (map log_id (audit_logs s'))" by (simp add: db_ok_def keys_unique_def)
  from filter_key [OF this, of "log_id l"] find_key_unique [OF this, of l] logs
  have rows: "log_rows (log_id l) s' = [l]" by (simp add: log_rows_def)
  have "give_turns [1, 1, 1] ([d, serve X fresh auth (RevokeRole u i g)], s) =
      ([d, t_answer 204 (\<lambda>_. EmptyBody) (t_revoke_role X u i g (usr_id admin))], ?s1)"
    by (subst admitted_turns [OF ok sub admin may]) simp_all
  then have "give_turns [1, 1, 1, 1, 1, 1, 1] ([d, serve X fresh auth (RevokeRole u i g)], s) =
      ([d, Finished (Inr (204, EmptyBody))], s')"
    using revocation_turns [OF select audit rows, of d]
      give_turns_append [of "[1, 1, 1]" "[1, 1, 1, 1]" "([d, serve X fresh auth (RevokeRole u i g)], s)"] by simp
  moreover have "user_roles s' = filter (\<lambda>b. ur_id b \<noteq> ur_id a) (user_roles s)"
    by (simp add: s' log_event_def s2)
  moreover have "log_action l = ROLE_REVOKED" by (simp add: l audit_row_def)
  ultimately show ?thesis using logs that by blast
qed

end
