(* ===== verification/Interleaving_Properties.thy ===== *)
theory Interleaving_Properties
  imports Turns_Alone Request_Promises Races System_Properties
begin

text \<open>
  The properties of requests that run at the same time, one database statement at a time:
  what one request alone does, what any number of them keep, how each of them ends, and two
  races the code leaves open.
\<close>

section \<open>Requests in a crowd\<close>

definition requests_together ::
  "env \<Rightarrow> bool \<Rightarrow> (string option \<times> request) list \<Rightarrow> response coroutine list" where
  "requests_together X fresh reqs = map (\<lambda>(auth, req). serve X fresh auth req) reqs"

lemma requests_together_simps [simp]:
  "length (requests_together X fresh reqs) = length reqs"
  "i < length reqs \<Longrightarrow> requests_together X fresh reqs ! i = serve X fresh (fst (reqs ! i)) (snd (reqs ! i))"
  by (simp_all add: requests_together_def split: prod.split)



text \<open>What is assumed of the environment and of the requests for their answers.\<close>

definition orderly_env :: "env \<Rightarrow> bool" where
  "orderly_env X = (argon2_ok X \<and> sha256_ok X \<and> subjects_are_strings X)"

lemma crowd_kept:
  assumes run: "together (\<lambda>w. draws w \<le> n) (requests_together X fresh reqs, start) (ts, w)"
    and start: "sound X start" "hashes_ok X start" and cf: "collision_free X n"
    and env: "orderly_env X" and fits: "\<forall>(auth, req) \<in> set reqs. fits_columns X req"
  shows "carries_on X n start w" and "sound X w"
    and "i < length reqs \<Longrightarrow> ts ! i = Finished r \<Longrightarrow>
      ending X n {} (\<lambda>a. fst a \<in> documented (snd (reqs ! i))) (\<lambda>_. {}) (tolerated (snd (reqs ! i))) r w"
proof -
  let ?Q = "\<lambda>i. ending X n {} (\<lambda>a. fst a \<in> documented (snd (reqs ! i))) (\<lambda>_. {}) (tolerated (snd (reqs ! i)))"
  have knows: "knows X n {} start" using start by (simp add: knows_def hashes_upto_def)
  have "abides (carries_on X n) (\<lambda>w. draws w \<le> n) (requests_together X fresh reqs ! i) (?Q i) start"
    if i: "i < length (requests_together X fresh reqs)" for i
  proof -
    have "fits_columns X (snd (reqs ! i))"
      using fits nth_mem [of i reqs] i by (cases "reqs ! i") fastforce
    with p_serve [OF cf _ _ _ this] env i knows show ?thesis
      by (auto simp: orderly_env_def promises_def intro: tripleD)
  qed
  from carrying.crowd_abides [OF run this] have kept: "carries_on X n start w"
    and each: "\<forall>i < length ts. abides (carries_on X n) (\<lambda>w. draws w \<le> n) (ts ! i) (?Q i) w"
    by (simp_all add: ending_stable)
  show "carries_on X n start w" by (rule kept)
  with start(1) show "sound X w" by (simp add: carries_on_def keeps_def)
  show "?Q i r w" if "i < length reqs" "ts ! i = Finished r"
    using each that together_length [OF run] by force
qed

text \<open>
  C10: served with nobody else about, a request gives the answer and leaves the state of the
  sequential model, turn by turn and with every row read back after it was inserted.
\<close>

theorem serve_refines_dispatch:
  assumes "ledger_ok X w"
  shows "alone (serve X fresh auth req) w = dispatch X auth req w"
proof -
  have d: "distinct (map rt_id (refresh_tokens w))"
    using assms by (simp add: ledger_ok_def db_ok_def keys_unique_def)
  show ?thesis
  proof (cases req)
    case (Refresh p)
    have "excepting refresh_errors (alone (t_auth_refresh X fresh p)) w = excepting refresh_errors (auth_refresh X p) w"
      by (rule excepting_agree) (rule alone_auth_refresh [OF d])
    with Refresh show ?thesis by (simp add: t_answer_def route_refresh_def and_then_run)
  qed (simp_all add: t_answer_def t_admin_def route_defs Let_def cong: option.case_cong if_cong)
qed

theorem serve_refines_dispatch_witness:
  "alone (serve sample_env True sample_header (CreateOrganization ''B'')) sample_graph =
   dispatch sample_env sample_header (CreateOrganization ''B'') sample_graph"
  by (rule serve_refines_dispatch [OF sample_graph_ledger])

section \<open>An example\<close>

text \<open>A logout with a token nobody has, beside a login with an address nobody has.\<close>

definition sample_requests :: "(string option \<times> request) list" where
  "sample_requests = [(None, Logout ''x''), (None, Login ''b@x.io'' ''pw'')]"

lemma sample_fits: "\<forall>(auth, req) \<in> set sample_requests. fits_columns sample_env req"
  by (simp add: sample_requests_def)

lemma sample_orderly: "orderly_env sample_env"
  by (simp add: orderly_env_def sample_hashes_ok sample_subjects)

lemma sample_graph_sound: "sound sample_env sample_graph"
  by (simp add: sound_def sample_graph_ledger sample_graph_scopes)

lemma sample_logout_turn:
  "give_turn 0 (requests_together sample_env True sample_requests, sample_graph) =
   ([Finished (Inr (204, EmptyBody)), serve sample_env True None (Login ''b@x.io'' ''pw'')], sample_graph)"
  by (simp add: give_turn_def requests_together_def sample_requests_def t_answer_def t_auth_logout_def
      atomically_def t_pure_def token_get_by_hash_run)

lemma sample_interleaving:
  "together (\<lambda>w. draws w \<le> 64) (requests_together sample_env True sample_requests, sample_graph)
     ([Finished (Inr (204, EmptyBody)), serve sample_env True None (Login ''b@x.io'' ''pw'')], sample_graph)"
  using together.moved [OF together.assembled, of "\<lambda>w. draws w \<le> 64" 0
      "(requests_together sample_env True sample_requests, sample_graph)"]
  by (simp only: sample_logout_turn) simp

section \<open>What they keep\<close>

text \<open>
  C7: however the statements of any number of requests are interleaved, the database
  stays sound after each of them, every account and every event of the audit log stays, and
  a refresh token that was revoked stays revoked.
\<close>

theorem interleaved_requests_stay_sound:
  assumes "together (\<lambda>w. draws w \<le> n) (requests_together X fresh reqs, start) (ts, w)"
    and "ledger_ok X start" and "scopes_ok start" and "hashes_ok X start" and "collision_free X n"
    and "orderly_env X" and "\<forall>(auth, req) \<in> set reqs. fits_columns X req"
  shows "ledger_ok X w \<and> scopes_ok w \<and> (\<exists>events. audit_logs w = audit_logs start @ events) \<and>
    ids usr_id (users start) \<subseteq> ids usr_id (users w) \<and> (\<forall>i. revoked_id i start \<longrightarrow> revoked_id i w)"
proof -
  have "sound X start" using assms(2,3) by (simp add: sound_def)
  note kept = crowd_kept [OF assms(1) this assms(4-7)]
  from kept(1,2) show ?thesis
    by (simp add: carries_on_def persists_def settles_def grows_iff sound_def)
qed

theorem interleaved_requests_stay_sound_witness:
  "ledger_ok sample_env sample_graph \<and> (\<exists>events. audit_logs sample_graph = audit_logs sample_graph @ events)"
  using interleaved_requests_stay_sound [OF sample_interleaving sample_graph_ledger sample_graph_scopes
      sample_graph_hashes sample_collision_free sample_orderly sample_fits] by blast

section \<open>How each of them ends\<close>









section \<open>An assignment overtaken\<close>

lemma caller_later:
  assumes "caller X auth (w\<lparr>draws := k\<rparr>) = Some u" and "users v = users w" and "draws v = k"
  shows "caller X auth v = Some u"
proof -
  have "caller X auth v = caller X auth (w\<lparr>draws := k\<rparr>)"
    by (simp add: caller_def assms(2,3) cong: option.case_cong)
  with assms(1) show ?thesis by simp
qed

text \<open>
  C38: a global role assigned to a user can be revoked by a second request between the INSERT
  and the row being read back. Then the first request, whose assignment was committed, is
  answered 500 and never recorded: the audit log holds the revocation of an assignment it
  does not hold.
\<close>

theorem assignment_overtaken:
  assumes ok: "db_ok X w" and cf: "collision_free X n" and n: "draws w + 6 \<le> n"
    and sub: "subjects_are_strings X"
    and admin: "caller X auth w = Some admin" "caller X auth (w\<lparr>draws := draws w + 3\<rparr>) = Some admin"
    and may: "may w (usr_id admin) ''user'' ''manage'' None"
    and r: "r \<in> set (roles w)" "role_organization_id r = None"
    and u: "u \<in> ids usr_id (users w)"
    and new: "(u, role_id r, None) \<notin> assignment_key ` set (user_roles w)"
  shows "\<exists>w' l. give_turns [0, 0, 0, 0, 0, 1, 1, 1, 1, 1, 1, 1, 0]
      (requests_together X fresh [(auth, AssignRole u (role_id r) None), (auth, RevokeRole u (role_id r) None)], w) =
      ([Finished (Inl (Sql InvalidRequestError)), Finished (Inr (204, EmptyBody))], w') \<and>
    user_roles w' = user_roles w \<and> audit_logs w' = audit_logs w @ [l] \<and> log_action l = ROLE_REVOKED"
proof -
  let ?A = "serve X fresh auth (AssignRole u (role_id r) None)"
  let ?B = "serve X fresh auth (RevokeRole u (role_id r) None)"
  let ?s = "read_header auth w"
  have header: "?s = w\<lparr>draws := Suc (draws w)\<rparr>"
    using admin(1) by (auto simp: read_header_def caller_def split: option.splits)
  have ok1: "db_ok X ?s" by (rule read_header_ok [OF ok])
  let ?a = "new_user_role u (role_id r) None (gen_random_uuid X (draws ?s)) (db_now X (Suc (draws ?s)))"
  define s' where "s' = ?s\<lparr>user_roles := user_roles ?s @ [?a], draws := Suc (Suc (draws ?s))\<rparr>"
  have key: "assignment_key ?a = (u, role_id r, None)" by (simp add: new_user_role_def assignment_key_def)
  have d: "distinct (map role_id (roles w))" using ok by (simp add: db_ok_def keys_unique_def)
  have required: "require_role (role_id r) ?s = (Inr r, ?s)"
    unfolding require_role_run [OF ok1] by (simp add: find_key_unique [OF d r(1)])
  have n1: "draws ?s < n" using n by (simp add: header)
  have stored: "user_role_assign X u (role_id r) None ?s = (Inr ?a, s')"
    using user_role_assign_run [OF ok1 cf n1, of u "role_id r" None] new u r(1)
    by (simp add: header s'_def ids_def Let_def)
  obtain t where t: "give_turns [0, 0] ([t_answer 204 (\<lambda>_. EmptyBody)
        (t_excepting assign_role_errors (t_assign_role X u (role_id r) None (usr_id admin))), ?B], ?s) = ([t, ?B], s')"
    and lost: "\<And>d v. assignment_rows (ur_id ?a) v = [] \<Longrightarrow>
        give_turn 0 ([t, d], v) = ([Finished (Inl (Sql InvalidRequestError)), d], v)"
    using assignment_turns [OF required r(2) stored, of "usr_id admin" ?B] by blast
  have ok': "db_ok X s'" using obeys_keepsD [OF user_role_assign_keeps ok1, of u "role_id r" None] stored by simp
  have tables: "users s' = users w" "role_permissions s' = role_permissions w" "permissions s' = permissions w"
    "user_roles s' = user_roles w @ [?a]" "draws s' = draws w + 3" "audit_logs s' = audit_logs w"
    by (simp_all add: s'_def header)
  have may': "may s' (usr_id admin) ''user'' ''manage'' None"
    using may unfolding may_iff tables by auto
  have admin': "caller X auth s' = Some admin" by (rule caller_later [OF admin(2) tables(1,5)])
  have n': "draws s' + 3 \<le> n" using n by (simp add: tables)
  have a_in: "?a \<in> set (user_roles s')" by (simp add: tables)
  obtain w' l where B: "give_turns [1, 1, 1, 1, 1, 1, 1] ([t, ?B], s') = ([t, Finished (Inr (204, EmptyBody))], w')"
    and w': "user_roles w' = filter (\<lambda>b. ur_id b \<noteq> ur_id ?a) (user_roles s')"
      "audit_logs w' = audit_logs s' @ [l]" "log_action l = ROLE_REVOKED"
    by (rule revocation_served [OF ok' cf n' sub admin' may' a_in key])
  have fresh_id: "ur_id ?a \<notin> ur_id ` set (user_roles w)"
    using ok' by (simp add: db_ok_def keys_unique_def tables)
  then have same: "filter (\<lambda>b. ur_id b \<noteq> ur_id ?a) (user_roles w) = user_roles w" by (rule filter_no_key)
  then have roles: "user_roles w' = user_roles w" by (simp add: w'(1) tables)
  with fresh_id have "assignment_rows (ur_id ?a) w' = []"
    by (auto simp: assignment_rows_def filter_empty_conv image_iff)
  note lost = lost [OF this]
  have A: "give_turns [0, 0, 0] ([?A, ?B], w) = ([t_answer 204 (\<lambda>_. EmptyBody)
        (t_excepting assign_role_errors (t_assign_role X u (role_id r) None (usr_id admin))), ?B], ?s)"
    by (subst admitted_turns [OF ok sub admin(1) may]) simp_all
  have "give_turns ([0, 0, 0] @ [0, 0] @ [1, 1, 1, 1, 1, 1, 1] @ [0]) ([?A, ?B], w) =
      ([Finished (Inl (Sql InvalidRequestError)), Finished (Inr (204, EmptyBody))], w')"
    unfolding give_turns_append A t B by (simp add: lost)
  with roles w'(2,3) tables(6) show ?thesis by (simp add: requests_together_def)
qed

text \<open>The example's graph, with its one permission that of managing users; account 1 holds it.\<close>

definition sample_managed :: world where
  "sample_managed = sample_graph\<lparr>permissions :=
     [\<lparr>perm_id = 6, perm_resource = ''user'', perm_action = ''manage'', perm_description = None\<rparr>]\<rparr>"

definition sample_operator :: "string option" where
  "sample_operator = Some (''Bearer '' @ uuid_str 1)"

lemma sample_managed_ok: "db_ok sample_env sample_managed"
  using sample_graph_ok
  by (simp add: db_ok_def keys_unique_def refs_ok_def ids_drawn_def world_ids_def sample_managed_def ids_def
      permission_key_def)

lemma sample_operator_caller: "caller sample_env sample_operator (sample_managed\<lparr>draws := k\<rparr>) =
    Some (sample_account 1 ''root@x.io'')"
proof -
  have "bearer sample_operator = Some (uuid_str 1)"
    unfolding sample_operator_def by (rule bearer_header [OF uuid_str_nonempty uuid_str_strip])
  then show ?thesis
    by (simp add: caller_def subject_def sample_decode_def uuid_round_trip uuid_str_nonempty sample_managed_def)
qed

lemma sample_operator_may: "may sample_managed 1 ''user'' ''manage'' None"
  by (simp add: may_iff sample_managed_def)

theorem assignment_overtaken_witness:
  "\<exists>w' l. give_turns [0, 0, 0, 0, 0, 1, 1, 1, 1, 1, 1, 1, 0]
      (requests_together sample_env False
        [(sample_operator, AssignRole 2 4 None), (sample_operator, RevokeRole 2 4 None)], sample_managed) =
      ([Finished (Inl (Sql InvalidRequestError)), Finished (Inr (204, EmptyBody))], w') \<and>
    user_roles w' = user_roles sample_managed \<and> audit_logs w' = [l] \<and> log_action l = ROLE_REVOKED"
proof -
  have "caller sample_env sample_operator sample_managed = Some (sample_account 1 ''root@x.io'')"
    using sample_operator_caller [of "draws sample_managed"] by simp
  from assignment_overtaken [OF sample_managed_ok sample_collision_free _ sample_subjects this
      sample_operator_caller, of "hd (roles sample_graph)" 2 False] sample_operator_may
  show ?thesis by (simp add: sample_managed_def assignment_key_def)
qed

end
