(* ===== verification/Seeds.thy ===== *)
theory Seeds
  imports Authorization_Runs
begin

text \<open>
  The data migrations of \<open>app/db/migrations/versions\<close>: the default roles and the
  permission catalogue (\<open>ca306aad2376\<close>), and the two permissions that came later
  (\<open>97122fa13dcc\<close>, \<open>cbf5b83aa3f8\<close>), each with its downgrade. The tables are those of
  the finished schema: a row seeded before \<open>organization_id\<close> existed has NULL there.
\<close>

section \<open>The seed data\<close>

definition ROLES :: "(string \<times> string \<times> bool) list" where
  "ROLES = [
     (''Admin'', ''Full administrative access to the system'', True),
     (''Manager'', ''Manages documents and team members'', True),
     (''Developer'', ''Can view and edit documents'', True),
     (''Intern'', ''Read-only access to documents'', True)]"

definition PERMISSIONS :: "(string \<times> string \<times> string) list" where
  "PERMISSIONS = [
     (''document'', ''view'', ''View documents''),
     (''document'', ''edit'', ''Edit documents''),
     (''document'', ''delete'', ''Delete documents''),
     (''role'', ''manage'', ''Create roles and manage role-permission assignments''),
     (''user'', ''manage'', ''Assign or revoke roles for users'')]"

definition ROLE_PERMISSION_MAP :: "(string \<times> string \<times> string) list" where
  "ROLE_PERMISSION_MAP = [
     (''Admin'', ''document'', ''view''),
     (''Admin'', ''document'', ''edit''),
     (''Admin'', ''document'', ''delete''),
     (''Admin'', ''role'', ''manage''),
     (''Admin'', ''user'', ''manage''),
     (''Manager'', ''document'', ''view''),
     (''Manager'', ''document'', ''edit''),
     (''Manager'', ''document'', ''delete''),
     (''Manager'', ''user'', ''manage''),
     (''Developer'', ''document'', ''view''),
     (''Developer'', ''document'', ''edit''),
     (''Intern'', ''document'', ''view'')]"

section \<open>Statements\<close>

text \<open>The rows of an INSERT, one after the other.\<close>

fun each :: "('d \<Rightarrow> unit py) \<Rightarrow> 'd list \<Rightarrow> unit py" where
  "each insert_one [] = pure ()"
| "each insert_one (d # ds) = and_then (insert_one d) (\<lambda>_. each insert_one ds)"

fun role_row :: "datetime \<Rightarrow> uuid \<Rightarrow> string \<times> string \<times> bool \<Rightarrow> role" where
  "role_row now i (name, description, is_system) =
     \<lparr>role_id = i, role_name = name, role_description = Some description,
      role_is_system_role = is_system, role_organization_id = None, role_created_at = now\<rparr>"

fun permission_row :: "uuid \<Rightarrow> string \<times> string \<times> string \<Rightarrow> permission" where
  "permission_row i (resource, action, description) =
     \<lparr>perm_id = i, perm_resource = resource, perm_action = action,
      perm_description = Some description\<rparr>"

definition store_permission :: "permission \<Rightarrow> world \<Rightarrow> world" where
  "store_permission p w = w\<lparr>permissions := permissions w @ [p]\<rparr>"

definition seed_role :: "env \<Rightarrow> datetime \<Rightarrow> string \<times> string \<times> bool \<Rightarrow> unit py" where
  "seed_role X now d =
     and_then (draw (gen_random_uuid X)) (\<lambda>i.
     and_then (insert_row role_fits role_consistent store_role (role_row now i d)) (\<lambda>_. pure ()))"

definition seed_permission :: "env \<Rightarrow> string \<times> string \<times> string \<Rightarrow> unit py" where
  "seed_permission X d =
     and_then (draw (gen_random_uuid X)) (\<lambda>i.
     and_then (insert_row permission_fits permission_consistent store_permission (permission_row i d))
       (\<lambda>_. pure ()))"

definition insert_grant :: "role_permission \<Rightarrow> unit py" where
  "insert_grant m =
     and_then (insert_row (\<lambda>_. True) role_permission_consistent store_role_permission m) (\<lambda>_. pure ())"

text \<open>
  \<open>INSERT INTO role_permissions SELECT r.id, p.id FROM roles r JOIN permissions p\<close> under
  a condition: the rows are selected first, then inserted.
\<close>

definition select_grants :: "(role \<Rightarrow> permission \<Rightarrow> bool) \<Rightarrow> world \<Rightarrow> role_permission list" where
  "select_grants P w =
     concat (map (\<lambda>r. map (\<lambda>p. \<lparr>rp_role_id = role_id r, rp_permission_id = perm_id p\<rparr>)
       (filter (P r) (permissions w))) (roles w))"

definition insert_select :: "(role \<Rightarrow> permission \<Rightarrow> bool) \<Rightarrow> unit py" where
  "insert_select P = (\<lambda>w. each insert_grant (select_grants P w) w)"

text \<open>
  DELETE. A deleted role takes its assignments and grants along, a deleted permission its
  grants (\<open>ON DELETE CASCADE\<close>).
\<close>

definition delete_grants :: "(world \<Rightarrow> role_permission \<Rightarrow> bool) \<Rightarrow> unit py" where
  "delete_grants P = (\<lambda>w.
     (Inr (), w\<lparr>role_permissions := filter (\<lambda>m. \<not> P w m) (role_permissions w)\<rparr>))"

definition delete_roles :: "(role \<Rightarrow> bool) \<Rightarrow> unit py" where
  "delete_roles P = (\<lambda>w.
     let gone = ids role_id (filter P (roles w)) in
     (Inr (), w\<lparr>roles := filter (\<lambda>r. \<not> P r) (roles w),
        role_permissions := filter (\<lambda>m. rp_role_id m \<notin> gone) (role_permissions w),
        user_roles := filter (\<lambda>a. ur_role_id a \<notin> gone) (user_roles w)\<rparr>))"

definition delete_permissions :: "(permission \<Rightarrow> bool) \<Rightarrow> unit py" where
  "delete_permissions P = (\<lambda>w.
     let gone = ids perm_id (filter P (permissions w)) in
     (Inr (), w\<lparr>permissions := filter (\<lambda>p. \<not> P p) (permissions w),
        role_permissions := filter (\<lambda>m. rp_permission_id m \<notin> gone) (role_permissions w)\<rparr>))"

section \<open>The migrations\<close>

definition role_names :: "string set" where
  "role_names = fst ` set ROLES"

definition permission_pairs :: "(string \<times> string) set" where
  "permission_pairs = (\<lambda>(resource, action, _). (resource, action)) ` set PERMISSIONS"

definition ca306aad2376_upgrade :: "env \<Rightarrow> unit py" where
  "ca306aad2376_upgrade X =
     and_then (draw (db_now X)) (\<lambda>now.
     and_then (each (seed_role X now) ROLES) (\<lambda>_.
     and_then (each (seed_permission X) PERMISSIONS) (\<lambda>_.
     insert_select (\<lambda>r p. (role_name r, perm_resource p, perm_action p) \<in> set ROLE_PERMISSION_MAP))))"

definition ca306aad2376_downgrade :: "unit py" where
  "ca306aad2376_downgrade =
     and_then (delete_grants (\<lambda>w m.
       rp_role_id m \<in> ids role_id (filter (\<lambda>r. role_name r \<in> role_names) (roles w)) \<and>
       rp_permission_id m \<in> ids perm_id (filter (\<lambda>p. permission_key p \<in> permission_pairs) (permissions w)))) (\<lambda>_.
     and_then (delete_roles (\<lambda>r. role_name r \<in> role_names)) (\<lambda>_.
     delete_permissions (\<lambda>p. permission_key p \<in> permission_pairs)))"

text \<open>The two later migrations have one shape: a permission, and its grant to Admin.\<close>

definition admin_permission_upgrade :: "env \<Rightarrow> string \<times> string \<times> string \<Rightarrow> unit py" where
  "admin_permission_upgrade X d =
     and_then (seed_permission X d) (\<lambda>_.
     insert_select (\<lambda>r p. (perm_resource p = fst d \<and> perm_action p = fst (snd d)) \<and> role_name r = ''Admin''))"

definition admin_permission_downgrade :: "string \<Rightarrow> string \<Rightarrow> unit py" where
  "admin_permission_downgrade resource action =
     (let selected = (\<lambda>p. perm_resource p = resource \<and> perm_action p = action) in
      and_then (delete_grants (\<lambda>w m. rp_permission_id m \<in> ids perm_id (filter selected (permissions w)))) (\<lambda>_.
      delete_permissions selected))"

definition organization_manage :: "string \<times> string \<times> string" where
  "organization_manage = (''organization'', ''manage'', ''Create organizations and manage their membership'')"

definition audit_view :: "string \<times> string \<times> string" where
  "audit_view = (''audit'', ''view'', ''View the audit log'')"

definition v97122fa13dcc_upgrade :: "env \<Rightarrow> unit py" where
  "v97122fa13dcc_upgrade X = admin_permission_upgrade X organization_manage"

definition v97122fa13dcc_downgrade :: "unit py" where
  "v97122fa13dcc_downgrade = admin_permission_downgrade ''organization'' ''manage''"

definition cbf5b83aa3f8_upgrade :: "env \<Rightarrow> unit py" where
  "cbf5b83aa3f8_upgrade X = admin_permission_upgrade X audit_view"

definition cbf5b83aa3f8_downgrade :: "unit py" where
  "cbf5b83aa3f8_downgrade = admin_permission_downgrade ''audit'' ''view''"

text \<open>
  The migration runner brackets a whole \<open>alembic upgrade\<close> in one transaction. These are
  the data steps of an upgrade to the newest revision, and of the way back.
\<close>

definition upgrade_data :: "env \<Rightarrow> unit py" where
  "upgrade_data X = transaction
     (and_then (ca306aad2376_upgrade X) (\<lambda>_.
      and_then (v97122fa13dcc_upgrade X) (\<lambda>_.
      cbf5b83aa3f8_upgrade X)))"

definition downgrade_data :: "unit py" where
  "downgrade_data = transaction
     (and_then cbf5b83aa3f8_downgrade (\<lambda>_.
      and_then v97122fa13dcc_downgrade (\<lambda>_.
      ca306aad2376_downgrade)))"

section \<open>Inserting rows that are new\<close>

text \<open>
  A table filled by single inserts: rows whose ids are fresh and whose keys are new are
  appended in order.
\<close>

fun new_rows :: "(uuid \<Rightarrow> 'd \<Rightarrow> 'r) \<Rightarrow> (nat \<Rightarrow> uuid) \<Rightarrow> nat \<Rightarrow> 'd list \<Rightarrow> 'r list" where
  "new_rows row source k [] = []"
| "new_rows row source k (d # ds) = row (source k) d # new_rows row source (Suc k) ds"

locale seeding =
  fixes X :: env
    and rows :: "world \<Rightarrow> 'r list"
    and append_rows :: "'r list \<Rightarrow> world \<Rightarrow> world"
    and insert_one :: "'d \<Rightarrow> unit py"
    and row :: "uuid \<Rightarrow> 'd \<Rightarrow> 'r"
    and key :: "'r \<Rightarrow> 'k"
    and key_of :: "'d \<Rightarrow> 'k"
    and small :: "'d \<Rightarrow> bool"
  assumes rows_append: "rows (append_rows rs w) = rows w @ rs"
    and append_append: "append_rows ss (append_rows rs w) = append_rows (rs @ ss) w"
    and append_nil: "append_rows [] w = w"
    and append_draws: "append_rows rs (w\<lparr>draws := k\<rparr>) = (append_rows rs w)\<lparr>draws := k\<rparr>"
    and draws_append: "draws (append_rows rs w) = draws w"
    and rows_draws: "rows (w\<lparr>draws := k\<rparr>) = rows w"
    and key_row: "key (row i d) = key_of d"
    and insert_one_run: "db_ok X w \<Longrightarrow> gen_random_uuid X (draws w) \<notin> world_ids w \<Longrightarrow> small d \<Longrightarrow>
      key_of d \<notin> key ` set (rows w) \<Longrightarrow>
      insert_one d w = (Inr (), append_rows [row (gen_random_uuid X (draws w)) d] (w\<lparr>draws := Suc (draws w)\<rparr>))"
    and insert_one_taken: "small d \<Longrightarrow> key_of d \<in> key ` set (rows w) \<Longrightarrow>
      fst (insert_one d w) = Inl (Sql IntegrityError)"
    and insert_one_keeps: "obeys (keeps (db_ok X)) (insert_one d)"
begin

lemma map_key_new_rows: "map key (new_rows row (gen_random_uuid X) k ds) = map key_of ds"
  by (induction ds arbitrary: k) (simp_all add: key_row)

lemma each_run:
  assumes "db_ok X w" and "collision_free X n" and "draws w + length ds \<le> n"
    and "list_all small ds" and "distinct (map key_of ds)" and "key_of ` set ds \<inter> key ` set (rows w) = {}"
  shows "each insert_one ds w =
    (Inr (), append_rows (new_rows row (gen_random_uuid X) (draws w) ds) (w\<lparr>draws := draws w + length ds\<rparr>))"
  using assms
proof (induction ds arbitrary: w)
  case Nil
  then show ?case by (simp add: run_simps append_nil)
next
  case (Cons d ds)
  let ?w = "append_rows [row (gen_random_uuid X (draws w)) d] (w\<lparr>draws := Suc (draws w)\<rparr>)"
  have fresh: "gen_random_uuid X (draws w) \<notin> world_ids w"
    using Cons.prems(1-3) fresh_id [of X w n "draws w"] by (simp add: db_ok_def)
  have run: "insert_one d w = (Inr (), ?w)"
    using Cons.prems by (intro insert_one_run fresh) auto
  have "db_ok X ?w"
    using obeysD [OF insert_one_keeps run] Cons.prems(1) by (simp add: keeps_def)
  then have "each insert_one ds ?w =
      (Inr (), append_rows (new_rows row (gen_random_uuid X) (draws ?w) ds) (?w\<lparr>draws := draws ?w + length ds\<rparr>))"
    using Cons.prems by (intro Cons.IH) (auto simp: rows_append rows_draws draws_append key_row)
  then show ?case
    by (simp add: run_simps run append_draws draws_append append_append)
qed

text \<open>A key that is taken fails the whole INSERT.\<close>

lemma each_taken:
  assumes "db_ok X w" and "collision_free X n" and "draws w + length ds \<le> n"
    and "list_all small ds" and "key_of ` set ds \<inter> key ` set (rows w) \<noteq> {}"
  shows "fst (each insert_one ds w) = Inl (Sql IntegrityError)"
  using assms
proof (induction ds arbitrary: w)
  case (Cons d ds)
  show ?case
  proof (cases "key_of d \<in> key ` set (rows w)")
    case True
    with Cons.prems(4) have "fst (insert_one d w) = Inl (Sql IntegrityError)"
      by (intro insert_one_taken) simp_all
    then show ?thesis by (cases "insert_one d w") (simp add: run_simps)
  next
    case False
    let ?w = "append_rows [row (gen_random_uuid X (draws w)) d] (w\<lparr>draws := Suc (draws w)\<rparr>)"
    have "gen_random_uuid X (draws w) \<notin> world_ids w"
      using Cons.prems(1-3) fresh_id [of X w n "draws w"] by (simp add: db_ok_def)
    then have run: "insert_one d w = (Inr (), ?w)"
      using Cons.prems False by (intro insert_one_run) simp_all
    have "db_ok X ?w"
      using obeysD [OF insert_one_keeps run] Cons.prems(1) by (simp add: keeps_def)
    then have "fst (each insert_one ds ?w) = Inl (Sql IntegrityError)"
      using Cons.prems False by (intro Cons.IH) (auto simp: rows_append rows_draws draws_append)
    then show ?thesis by (simp add: run_simps run)
  qed
qed simp

lemma each_keeps: "obeys (keeps (db_ok X)) (each insert_one ds)"
  by (induction ds) (auto intro: keeping.rules insert_one_keeps)

end

definition append_roles :: "role list \<Rightarrow> world \<Rightarrow> world" where
  "append_roles rs w = w\<lparr>roles := roles w @ rs\<rparr>"

definition append_permissions :: "permission list \<Rightarrow> world \<Rightarrow> world" where
  "append_permissions ps w = w\<lparr>permissions := permissions w @ ps\<rparr>"

lemma role_row_simps [simp]:
  "role_id (role_row now i d) = i" "role_name (role_row now i d) = fst d"
  "role_organization_id (role_row now i d) = None"
  by (cases d; simp)+

lemma permission_row_simps [simp]:
  "perm_id (permission_row i d) = i" "perm_resource (permission_row i d) = fst d"
  "perm_action (permission_row i d) = fst (snd d)"
  by (cases d; simp)+

lemma permission_consistent_draws [simp]:
  "permission_consistent (w\<lparr>draws := n\<rparr>) p = permission_consistent w p"
  by (simp add: permission_consistent_def)

lemma draw_keeps_db_ok: "obeys (keeps (db_ok X)) (draw f)"
  by (simp add: obeys_def keeps_def run_simps db_ok_draws)

lemma seed_role_keeps: "obeys (keeps (db_ok X)) (seed_role X now d)"
proof (rule obeysI)
  fix w r w' assume run: "seed_role X now d w = (r, w')"
  show "keeps (db_ok X) w w'"
    unfolding keeps_def
  proof
    assume ok: "db_ok X w"
    let ?w = "w\<lparr>draws := Suc (draws w)\<rparr>"
    have "db_ok X ?w" using ok by (simp add: db_ok_draws)
    from db_ok_insert_role [OF this, of "role_row now (gen_random_uuid X (draws w)) d"] this run
    show "db_ok X w'"
      by (auto simp: seed_role_def run_simps insert_row_def store_role_def split: if_splits)
  qed
qed

lemma seed_permission_keeps: "obeys (keeps (db_ok X)) (seed_permission X d)"
proof (rule obeysI)
  fix w r w' assume run: "seed_permission X d w = (r, w')"
  show "keeps (db_ok X) w w'"
    unfolding keeps_def
  proof
    assume ok: "db_ok X w"
    let ?w = "w\<lparr>draws := Suc (draws w)\<rparr>"
    have "db_ok X ?w" using ok by (simp add: db_ok_draws)
    from db_ok_insert_permission [OF this, of "permission_row (gen_random_uuid X (draws w)) d"] this run
    show "db_ok X w'"
      by (auto simp: seed_permission_def run_simps insert_row_def store_permission_def split: if_splits)
  qed
qed

interpretation role_seeding:
  seeding X roles append_roles "seed_role X now" "role_row now" role_name fst "\<lambda>d. length (fst d) \<le> 100"
  for X now
proof unfold_locales
  fix w :: world and d :: "string \<times> string \<times> bool"
  assume "gen_random_uuid X (draws w) \<notin> world_ids w" "length (fst d) \<le> 100"
    "fst d \<notin> role_name ` set (roles w)"
  then show "seed_role X now d w =
      (Inr (), append_roles [role_row now (gen_random_uuid X (draws w)) d] (w\<lparr>draws := Suc (draws w)\<rparr>))"
    by (simp add: seed_role_def run_simps insert_row_def role_fits_def role_consistent_def world_ids_def
        store_role_def append_roles_def)
next
  fix w :: world and d :: "string \<times> string \<times> bool"
  assume "length (fst d) \<le> 100" "fst d \<in> role_name ` set (roles w)"
  then show "fst (seed_role X now d w) = Inl (Sql IntegrityError)"
    by (simp add: seed_role_def run_simps insert_row_def role_fits_def role_consistent_def)
qed (simp_all add: append_roles_def seed_role_keeps)

interpretation permission_seeding:
  seeding X permissions append_permissions "seed_permission X" permission_row permission_key
    "\<lambda>d. (fst d, fst (snd d))" "\<lambda>d. length (fst d) \<le> 100 \<and> length (fst (snd d)) \<le> 100"
  for X
proof unfold_locales
  fix w :: world and d :: "string \<times> string \<times> string"
  assume "gen_random_uuid X (draws w) \<notin> world_ids w"
    "length (fst d) \<le> 100 \<and> length (fst (snd d)) \<le> 100"
    "(fst d, fst (snd d)) \<notin> permission_key ` set (permissions w)"
  then show "seed_permission X d w =
      (Inr (), append_permissions [permission_row (gen_random_uuid X (draws w)) d] (w\<lparr>draws := Suc (draws w)\<rparr>))"
    by (simp add: seed_permission_def run_simps insert_row_def permission_fits_def permission_consistent_def
        permission_key_def [abs_def] world_ids_def store_permission_def append_permissions_def)
next
  fix w :: world and d :: "string \<times> string \<times> string"
  assume "length (fst d) \<le> 100 \<and> length (fst (snd d)) \<le> 100"
    "(fst d, fst (snd d)) \<in> permission_key ` set (permissions w)"
  then show "fst (seed_permission X d w) = Inl (Sql IntegrityError)"
    by (simp add: seed_permission_def run_simps insert_row_def permission_fits_def permission_consistent_def
        permission_key_def [abs_def])
qed (simp_all add: append_permissions_def seed_permission_keeps permission_key_def)

section \<open>Inserting grants\<close>

lemma role_permission_consistent_keys:
  "role_permission_consistent w m \<longleftrightarrow> grant_key m \<notin> grant_key ` set (role_permissions w) \<and>
     rp_role_id m \<in> ids role_id (roles w) \<and> rp_permission_id m \<in> ids perm_id (permissions w)"
  by (simp add: role_permission_consistent_def grant_key_def)

lemma each_grant_run:
  assumes "distinct (map grant_key ms)" and "grant_key ` set ms \<inter> grant_key ` set (role_permissions w) = {}"
    and "\<And>m. m \<in> set ms \<Longrightarrow> rp_role_id m \<in> ids role_id (roles w) \<and> rp_permission_id m \<in> ids perm_id (permissions w)"
  shows "each insert_grant ms w = (Inr (), w\<lparr>role_permissions := role_permissions w @ ms\<rparr>)"
  using assms
proof (induction ms arbitrary: w)
  case Nil
  then show ?case by (simp add: run_simps)
next
  case (Cons m ms)
  let ?w = "w\<lparr>role_permissions := role_permissions w @ [m]\<rparr>"
  have "role_permission_consistent w m" using Cons.prems by (auto simp: role_permission_consistent_keys)
  then have "insert_grant m w = (Inr (), ?w)"
    by (simp add: insert_grant_def run_simps insert_row_def store_role_permission_def)
  moreover have "each insert_grant ms ?w = (Inr (), ?w\<lparr>role_permissions := role_permissions ?w @ ms\<rparr>)"
    using Cons.prems by (intro Cons.IH) auto
  ultimately show ?case by (simp add: run_simps)
qed

lemma set_select_grants:
  "set (select_grants P w) = {\<lparr>rp_role_id = role_id r, rp_permission_id = perm_id p\<rparr> | r p.
     r \<in> set (roles w) \<and> p \<in> set (permissions w) \<and> P r p}"
  by (auto simp: select_grants_def)

lemma distinct_pairs:
  assumes "distinct (map f rs)" and "distinct (map g ps)"
  shows "distinct (concat (map (\<lambda>r. map (\<lambda>p. (f r, g p)) (filter (P r) ps)) rs))"
  using assms(1)
proof (induction rs)
  case (Cons r rs)
  have "distinct (map g (filter (P r) ps))" using assms(2) by (rule distinct_map_filter)
  then have "distinct (map (\<lambda>p. (f r, g p)) (filter (P r) ps))"
    by (simp add: distinct_map inj_on_def)
  with Cons show ?case by (fastforce simp: image_iff)
qed simp

lemma distinct_select_grants:
  assumes "db_ok X w"
  shows "distinct (map grant_key (select_grants P w))"
proof -
  have "distinct (map role_id (roles w))" "distinct (map perm_id (permissions w))"
    using assms by (simp_all add: db_ok_def keys_unique_def)
  from distinct_pairs [OF this] show ?thesis
    by (simp add: select_grants_def map_concat o_def grant_key_def)
qed

lemma insert_select_run:
  assumes "db_ok X w" and "grant_key ` set (select_grants P w) \<inter> grant_key ` set (role_permissions w) = {}"
  shows "insert_select P w =
    (Inr (), w\<lparr>role_permissions := role_permissions w @ select_grants P w\<rparr>)"
  unfolding insert_select_def
  by (rule each_grant_run [OF distinct_select_grants [OF assms(1)] assms(2)])
    (auto simp: set_select_grants ids_def)

lemma insert_grant_keeps: "obeys (keeps (db_ok X)) (insert_grant m)"
  using db_ok_insert_role_permission
  by (auto simp: obeys_def keeps_def insert_grant_def run_simps insert_row_def store_role_permission_def)

lemma insert_select_keeps: "obeys (keeps (db_ok X)) (insert_select P)"
proof -
  have "obeys (keeps (db_ok X)) (each insert_grant ms)" for ms
    by (induction ms) (auto intro: keeping.rules insert_grant_keeps)
  then show ?thesis by (simp add: insert_select_def obeys_def)
qed

section \<open>Deleting\<close>

lemma ids_kept:
  "i \<in> ids k rows \<Longrightarrow> i \<notin> ids k (filter P rows) \<Longrightarrow> i \<in> ids k (filter (\<lambda>r. \<not> P r) rows)"
  by (auto simp: ids_def)

lemma db_ok_delete_roles: "obeys (keeps (db_ok X)) (delete_roles P)"
  unfolding obeys_def keeps_def
proof (intro allI impI)
  fix w assume ok: "db_ok X w"
  let ?w = "snd (delete_roles P w)"
  show "db_ok X ?w"
  proof (rule db_okI)
    show "keys_unique ?w"
      using ok by (simp add: delete_roles_def Let_def db_ok_def keys_unique_def distinct_map_filter)
    show "refs_ok ?w"
      using ok by (auto simp: delete_roles_def Let_def db_ok_def refs_ok_def intro: ids_kept)
    show "ids_drawn X ?w"
      using ok by (auto simp: delete_roles_def Let_def db_ok_def ids_drawn_def world_ids_def ids_def)
  qed
qed

lemma db_ok_delete_permissions: "obeys (keeps (db_ok X)) (delete_permissions P)"
  unfolding obeys_def keeps_def
proof (intro allI impI)
  fix w assume ok: "db_ok X w"
  let ?w = "snd (delete_permissions P w)"
  show "db_ok X ?w"
  proof (rule db_okI)
    show "keys_unique ?w"
      using ok by (simp add: delete_permissions_def Let_def db_ok_def keys_unique_def distinct_map_filter)
    show "refs_ok ?w"
      using ok by (auto simp: delete_permissions_def Let_def db_ok_def refs_ok_def intro: ids_kept)
    show "ids_drawn X ?w"
      using ok by (auto simp: delete_permissions_def Let_def db_ok_def ids_drawn_def world_ids_def ids_def)
  qed
qed

lemma db_ok_delete_grants: "obeys (keeps (db_ok X)) (delete_grants P)"
  by (simp add: obeys_def keeps_def delete_grants_def db_ok_delete_role_permission)

section \<open>What the migrations do\<close>

text \<open>Grants of new permissions are new.\<close>

lemma insert_select_new:
  assumes ok: "db_ok X w" and ps: "permissions w = old @ new"
    and refs: "\<And>m. m \<in> set (role_permissions w) \<Longrightarrow> rp_permission_id m \<in> ids perm_id old"
    and P: "\<And>r p. P r p \<Longrightarrow> p \<notin> set old"
  shows "insert_select P w =
    (Inr (), w\<lparr>role_permissions := role_permissions w @ select_grants P w\<rparr>)"
proof (rule insert_select_run [OF ok])
  have d: "distinct (map perm_id (old @ new))"
    using ok by (simp add: db_ok_def keys_unique_def flip: ps)
  have "rp_permission_id m \<notin> ids perm_id old" if m: "m \<in> set (select_grants P w)" for m
  proof -
    from m P obtain p where "p \<in> set new" "rp_permission_id m = perm_id p"
      by (fastforce simp: set_select_grants ps)
    with d show ?thesis by (auto simp: ids_def)
  qed
  with refs show "grant_key ` set (select_grants P w) \<inter> grant_key ` set (role_permissions w) = {}"
    by (fastforce simp: grant_key_def)
qed

definition unseeded :: "string set \<Rightarrow> (string \<times> string) set \<Rightarrow> world \<Rightarrow> bool" where
  "unseeded names pairs w =
     (names \<inter> role_name ` set (roles w) = {} \<and> pairs \<inter> permission_key ` set (permissions w) = {})"

definition admin_granted :: "env \<Rightarrow> string \<times> string \<times> string \<Rightarrow> world \<Rightarrow> world" where
  "admin_granted X d w =
     (let p = permission_row (gen_random_uuid X (draws w)) d;
          w1 = w\<lparr>permissions := permissions w @ [p], draws := Suc (draws w)\<rparr>
      in w1\<lparr>role_permissions := role_permissions w @
           select_grants (\<lambda>r p. (perm_resource p = fst d \<and> perm_action p = fst (snd d)) \<and>
             role_name r = ''Admin'') w1\<rparr>)"

lemma admin_permission_run:
  assumes "db_ok X w" and "collision_free X n" and "draws w < n" and "unseeded {} {(fst d, fst (snd d))} w"
    and "length (fst d) \<le> 100" "length (fst (snd d)) \<le> 100"
  shows "admin_permission_upgrade X d w = (Inr (), admin_granted X d w)"
proof -
  let ?p = "permission_row (gen_random_uuid X (draws w)) d"
  let ?w = "w\<lparr>permissions := permissions w @ [?p], draws := Suc (draws w)\<rparr>"
  have fresh: "gen_random_uuid X (draws w) \<notin> world_ids w"
    using assms(1-3) fresh_id [of X w n "draws w"] by (simp add: db_ok_def)
  with assms have run: "seed_permission X d w = (Inr (), ?w)"
    using permission_seeding.insert_one_run [of X w d] by (simp add: unseeded_def append_permissions_def)
  then have "db_ok X ?w"
    using obeysD [OF seed_permission_keeps run] assms(1) by (simp add: keeps_def)
  then have "insert_select (\<lambda>r p. (perm_resource p = fst d \<and> perm_action p = fst (snd d)) \<and> role_name r = ''Admin'') ?w =
      (Inr (), ?w\<lparr>role_permissions := role_permissions ?w @
        select_grants (\<lambda>r p. (perm_resource p = fst d \<and> perm_action p = fst (snd d)) \<and> role_name r = ''Admin'') ?w\<rparr>)"
    using assms(1,4)
    by (intro insert_select_new [where old = "permissions w" and new = "[?p]"])
      (auto simp: db_ok_def refs_ok_def unseeded_def permission_key_def image_iff)
  with run show ?thesis
    by (simp add: admin_permission_upgrade_def run_simps admin_granted_def Let_def)
qed

definition catalogue_seeded :: "env \<Rightarrow> world \<Rightarrow> world" where
  "catalogue_seeded X w =
     (let rs = new_rows (role_row (db_now X (draws w))) (gen_random_uuid X) (Suc (draws w)) ROLES;
          ps = new_rows permission_row (gen_random_uuid X) (draws w + 5) PERMISSIONS;
          w1 = w\<lparr>roles := roles w @ rs, permissions := permissions w @ ps, draws := draws w + 10\<rparr>
      in w1\<lparr>role_permissions := role_permissions w @
           select_grants (\<lambda>r p. (role_name r, perm_resource p, perm_action p) \<in> set ROLE_PERMISSION_MAP) w1\<rparr>)"

lemma seed_data [simp]:
  "length ROLES = 4" "length PERMISSIONS = 5"
  "distinct (map fst ROLES)" "distinct (map (\<lambda>d. (fst d, fst (snd d))) PERMISSIONS)"
  "list_all (\<lambda>d. length (fst d) \<le> 100) ROLES"
  "list_all (\<lambda>d. length (fst d) \<le> 100 \<and> length (fst (snd d)) \<le> 100) PERMISSIONS"
  by (simp_all add: ROLES_def PERMISSIONS_def)

lemma permission_pairs_keys: "permission_pairs = (\<lambda>d. (fst d, fst (snd d))) ` set PERMISSIONS"
  by (simp add: permission_pairs_def split_def)

lemma map_pairs: "(n, r, a) \<in> set ROLE_PERMISSION_MAP \<Longrightarrow> n \<in> role_names \<and> (r, a) \<in> permission_pairs"
  by (auto simp: ROLE_PERMISSION_MAP_def role_names_def ROLES_def permission_pairs_def PERMISSIONS_def)

lemma ca306_run:
  assumes ok: "db_ok X w" and free: "collision_free X n" "draws w + 10 \<le> n"
    and new: "unseeded role_names permission_pairs w"
  shows "ca306aad2376_upgrade X w = (Inr (), catalogue_seeded X w)"
proof -
  let ?now = "db_now X (draws w)" and ?w0 = "w\<lparr>draws := Suc (draws w)\<rparr>"
  let ?rs = "new_rows (role_row ?now) (gen_random_uuid X) (Suc (draws w)) ROLES"
  let ?ps = "new_rows permission_row (gen_random_uuid X) (draws w + 5) PERMISSIONS"
  let ?w1 = "w\<lparr>roles := roles w @ ?rs, draws := draws w + 5\<rparr>"
  let ?w2 = "w\<lparr>roles := roles w @ ?rs, permissions := permissions w @ ?ps, draws := draws w + 10\<rparr>"
  let ?P = "\<lambda>r p. (role_name r, perm_resource p, perm_action p) \<in> set ROLE_PERMISSION_MAP"
  have ok0: "db_ok X ?w0" using ok by (simp add: db_ok_draws)
  have five: "Suc (draws w + 4) = draws w + 5" by simp
  have roles: "each (seed_role X ?now) ROLES ?w0 = (Inr (), ?w1)"
    using role_seeding.each_run [OF ok0 free(1), of ROLES ?now] free(2) new
    by (simp add: unseeded_def role_names_def append_roles_def five)
  have ok1: "db_ok X ?w1"
    using obeysD [OF role_seeding.each_keeps roles] ok0 by (simp add: keeps_def)
  have perms: "each (seed_permission X) PERMISSIONS ?w1 = (Inr (), ?w2)"
    using permission_seeding.each_run [OF ok1 free(1), of PERMISSIONS] free(2) new
    by (simp add: unseeded_def permission_pairs_keys append_permissions_def)
  have ok2: "db_ok X ?w2"
    using obeysD [OF permission_seeding.each_keeps perms] ok1 by (simp add: keeps_def)
  have "insert_select ?P ?w2 =
      (Inr (), ?w2\<lparr>role_permissions := role_permissions ?w2 @ select_grants ?P ?w2\<rparr>)"
  proof (rule insert_select_new [OF ok2, where old = "permissions w" and new = ?ps])
    show "p \<notin> set (permissions w)" if "?P r p" for r p
      using map_pairs [OF that] new by (auto simp: unseeded_def permission_key_def image_iff)
  qed (use ok in \<open>simp_all add: db_ok_def refs_ok_def\<close>)
  with roles perms show ?thesis
    by (simp add: ca306aad2376_upgrade_def run_simps catalogue_seeded_def Let_def)
qed

lemma admin_permission_keeps: "obeys (keeps (db_ok X)) (admin_permission_upgrade X d)"
  unfolding admin_permission_upgrade_def
  by (intro keeping.rules seed_permission_keeps insert_select_keeps)

lemma ca306_keeps: "obeys (keeps (db_ok X)) (ca306aad2376_upgrade X)"
  unfolding ca306aad2376_upgrade_def
  by (intro keeping.rules draw_keeps_db_ok role_seeding.each_keeps permission_seeding.each_keeps insert_select_keeps)

lemmas migration_keeps = keeping.rules ca306_keeps admin_permission_keeps
  db_ok_delete_roles db_ok_delete_permissions db_ok_delete_grants

lemmas downgrade_defs = ca306aad2376_downgrade_def v97122fa13dcc_downgrade_def cbf5b83aa3f8_downgrade_def
  admin_permission_downgrade_def

section \<open>The way back\<close>

text \<open>A deletion that finds exactly the appended rows.\<close>

lemma filter_appended:
  assumes "\<And>x. x \<in> set old \<Longrightarrow> \<not> P x" and "\<And>x. x \<in> set new \<Longrightarrow> P x"
  shows "filter (\<lambda>x. \<not> P x) (old @ new) = old" "filter P (old @ new) = new"
  using assms by (simp_all add: filter_id_conv filter_empty_conv)

lemma admin_permission_back:
  assumes ok: "db_ok X w" and run: "admin_permission_upgrade X d w = (Inr (), admin_granted X d w)"
    and new: "unseeded {} {(fst d, fst (snd d))} w"
  shows "admin_permission_downgrade (fst d) (fst (snd d)) ((admin_granted X d w)\<lparr>draws := k\<rparr>) =
    (Inr (), w\<lparr>draws := k\<rparr>)"
proof -
  let ?p = "permission_row (gen_random_uuid X (draws w)) d" and ?g = "admin_granted X d w"
  let ?sel = "\<lambda>p. perm_resource p = fst d \<and> perm_action p = fst (snd d)"
  have g: "permissions ?g = permissions w @ [?p]"
    by (simp add: admin_granted_def Let_def)
  have "distinct (map perm_id (permissions w @ [?p]))"
    using obeysD [OF admin_permission_keeps run] ok unfolding g [symmetric]
    by (simp add: keeps_def db_ok_def keys_unique_def)
  then have i: "perm_id ?p \<notin> ids perm_id (permissions w)" by (simp add: ids_def)
  have old: "\<not> ?sel p" if "p \<in> set (permissions w)" for p
    using new that by (auto simp: unseeded_def permission_key_def image_iff)
  have rows: "filter (\<lambda>p. \<not> ?sel p) (permissions w @ [?p]) = permissions w"
    "filter ?sel (permissions w @ [?p]) = [?p]"
    using filter_appended [of "permissions w" ?sel "[?p]"] old by simp_all
  have kept: "rp_permission_id m \<noteq> perm_id ?p" if "m \<in> set (role_permissions w)" for m
    using ok i that by (auto simp: db_ok_def refs_ok_def)
  have grants: "filter (\<lambda>m. rp_permission_id m \<noteq> perm_id ?p) (role_permissions ?g) = role_permissions w"
    using filter_appended(1) [of "role_permissions w" "\<lambda>m. rp_permission_id m = perm_id ?p"] kept old
    by (auto simp: admin_granted_def Let_def set_select_grants filter_id_conv filter_empty_conv)
  show ?thesis
    using grants kept
    by (simp add: admin_permission_downgrade_def run_simps delete_grants_def delete_permissions_def g rows
        Let_def filter_id_conv del: filter_append permission_row_simps de_Morgan_conj)
      (simp add: admin_granted_def Let_def)
qed

lemma new_rows_in: "x \<in> set (new_rows row source k ds) \<Longrightarrow> \<exists>i. \<exists>d \<in> set ds. x = row i d"
  by (induction ds arbitrary: k) (auto, blast)

lemma map_new_rows: "(\<And>i d. key (row i d) = key_of d) \<Longrightarrow> map key (new_rows row source k ds) = map key_of ds"
  by (induction ds arbitrary: k) simp_all

lemma distinct_ids_append:
  "distinct (map k (old @ new)) \<Longrightarrow> i \<in> ids k old \<Longrightarrow> i \<notin> ids k new"
  by (auto simp: ids_def)

lemma ca306_back:
  assumes ok: "db_ok X w" and run: "ca306aad2376_upgrade X w = (Inr (), catalogue_seeded X w)"
    and new: "unseeded role_names permission_pairs w"
  shows "ca306aad2376_downgrade ((catalogue_seeded X w)\<lparr>draws := k\<rparr>) = (Inr (), w\<lparr>draws := k\<rparr>)"
proof -
  let ?g = "catalogue_seeded X w"
  let ?named = "\<lambda>r. role_name r \<in> role_names" and ?paired = "\<lambda>p. permission_key p \<in> permission_pairs"
  obtain rs ps ms where g: "?g = w\<lparr>roles := roles w @ rs, permissions := permissions w @ ps,
        role_permissions := role_permissions w @ ms, draws := draws w + 10\<rparr>"
    and rs: "\<And>r. r \<in> set rs \<Longrightarrow> ?named r" and ps: "\<And>p. p \<in> set ps \<Longrightarrow> ?paired p"
    and ms: "\<And>m. m \<in> set ms \<Longrightarrow> \<exists>r \<in> set (roles w @ rs). \<exists>p \<in> set (permissions w @ ps).
        ?named r \<and> ?paired p \<and> rp_role_id m = role_id r \<and> rp_permission_id m = perm_id p"
  proof
    let ?rs = "new_rows (role_row (db_now X (draws w))) (gen_random_uuid X) (Suc (draws w)) ROLES"
    let ?ps = "new_rows permission_row (gen_random_uuid X) (draws w + 5) PERMISSIONS"
    let ?ms = "select_grants (\<lambda>r p. (role_name r, perm_resource p, perm_action p) \<in> set ROLE_PERMISSION_MAP)
      (w\<lparr>roles := roles w @ ?rs, permissions := permissions w @ ?ps, draws := draws w + 10\<rparr>)"
    show "?g = w\<lparr>roles := roles w @ ?rs, permissions := permissions w @ ?ps,
        role_permissions := role_permissions w @ ?ms, draws := draws w + 10\<rparr>"
      by (simp add: catalogue_seeded_def Let_def)
    show "?named r" if "r \<in> set ?rs" for r
      using new_rows_in [OF that] by (auto simp: role_names_def intro: rev_image_eqI)
    show "?paired p" if "p \<in> set ?ps" for p
      using new_rows_in [OF that] by (auto simp: permission_pairs_keys permission_key_def intro: rev_image_eqI)
    show "\<exists>r \<in> set (roles w @ ?rs). \<exists>p \<in> set (permissions w @ ?ps).
        ?named r \<and> ?paired p \<and> rp_role_id m = role_id r \<and> rp_permission_id m = perm_id p" if "m \<in> set ?ms" for m
      using that by (fastforce simp: set_select_grants permission_key_def dest: map_pairs)
  qed
  have oldr: "\<not> ?named r" if "r \<in> set (roles w)" for r
    using new that by (auto simp: unseeded_def)
  have oldp: "\<not> ?paired p" if "p \<in> set (permissions w)" for p
    using new that by (auto simp: unseeded_def)
  have rows: "filter ?named (roles w @ rs) = rs" "filter (\<lambda>r. \<not> ?named r) (roles w @ rs) = roles w"
    "filter ?paired (permissions w @ ps) = ps" "filter (\<lambda>p. \<not> ?paired p) (permissions w @ ps) = permissions w"
    using filter_appended [of "roles w" ?named rs] filter_appended [of "permissions w" ?paired ps]
      oldr oldp rs ps by blast+
  have "db_ok X ?g" using obeysD [OF ca306_keeps run] ok by (simp add: keeps_def)
  then have d: "distinct (map role_id (roles w @ rs))" "distinct (map perm_id (permissions w @ ps))"
    by (simp_all add: g db_ok_def keys_unique_def)
  have kept: "rp_role_id m \<notin> ids role_id rs" "rp_permission_id m \<notin> ids perm_id ps"
    if "m \<in> set (role_permissions w)" for m
    using that ok distinct_ids_append [OF d(1)] distinct_ids_append [OF d(2)]
    by (simp_all add: db_ok_def refs_ok_def)
  have gone: "rp_role_id m \<in> ids role_id rs \<and> rp_permission_id m \<in> ids perm_id ps" if "m \<in> set ms" for m
    using ms [OF that] oldr oldp by (auto simp: ids_def)
  have assigned: "ur_role_id a \<notin> ids role_id rs" if "a \<in> set (user_roles w)" for a
    using that ok distinct_ids_append [OF d(1)] by (simp add: db_ok_def refs_ok_def)
  have grants: "filter (\<lambda>m. \<not> (rp_role_id m \<in> ids role_id rs \<and> rp_permission_id m \<in> ids perm_id ps))
      (role_permissions w @ ms) = role_permissions w"
    by (rule filter_appended(1)) (use kept gone in blast)+
  have filters: "filter (\<lambda>m. rp_role_id m \<notin> ids role_id rs \<and> rp_permission_id m \<notin> ids perm_id ps)
      (role_permissions w) = role_permissions w"
    "filter (\<lambda>a. ur_role_id a \<notin> ids role_id rs) (user_roles w) = user_roles w"
    using kept assigned by (simp_all add: filter_id_conv)
  show ?thesis
    by (simp add: ca306aad2376_downgrade_def run_simps delete_grants_def delete_roles_def delete_permissions_def
        g rows grants filters Let_def del: filter_append de_Morgan_conj)
qed

end
