(* ===== verification/Seed_Runs.thy ===== *)
theory Seed_Runs
  imports Seeds Auth_Runs Requests
begin

text \<open>
  The three data migrations as one step: what they leave in the tables of a database
  that has none of the seeded names yet, and that they leave nothing behind when one of
  them is taken.
\<close>

section \<open>All three migrations\<close>

text \<open>The specification of the finished catalogue: which seeded role has which permission.\<close>

definition SEEDED :: "(string \<times> string \<times> string) list" where
  "SEEDED = ROLE_PERMISSION_MAP @ [(''Admin'', ''organization'', ''manage''), (''Admin'', ''audit'', ''view'')]"

definition seeded_pairs :: "(string \<times> string) set" where
  "seeded_pairs = permission_pairs \<union> {(''organization'', ''manage''), (''audit'', ''view'')}"

definition seeded :: "env \<Rightarrow> world \<Rightarrow> world" where
  "seeded X w = admin_granted X audit_view (admin_granted X organization_manage (catalogue_seeded X w))"

lemma seed_pairs [simp]:
  "fst organization_manage = ''organization''" "fst (snd organization_manage) = ''manage''"
  "fst audit_view = ''audit''" "fst (snd audit_view) = ''view''"
  by (simp_all add: organization_manage_def audit_view_def)

lemma catalogue_tables:
  "map role_name (roles (catalogue_seeded X w)) = map role_name (roles w) @ map fst ROLES"
  "map permission_key (permissions (catalogue_seeded X w)) =
     map permission_key (permissions w) @ map (\<lambda>d. (fst d, fst (snd d))) PERMISSIONS"
  "draws (catalogue_seeded X w) = draws w + 10"
  "users (catalogue_seeded X w) = users w" "user_roles (catalogue_seeded X w) = user_roles w"
  "organizations (catalogue_seeded X w) = organizations w"
  by (simp_all add: catalogue_seeded_def Let_def map_new_rows permission_key_def)

lemma admin_granted_tables:
  "roles (admin_granted X d w) = roles w"
  "map permission_key (permissions (admin_granted X d w)) =
     map permission_key (permissions w) @ [(fst d, fst (snd d))]"
  "draws (admin_granted X d w) = Suc (draws w)"
  "users (admin_granted X d w) = users w" "user_roles (admin_granted X d w) = user_roles w"
  "organizations (admin_granted X d w) = organizations w"
  by (simp_all add: admin_granted_def Let_def permission_key_def)

lemmas seeded_tables = catalogue_tables admin_granted_tables

lemma keys_of_map: "map f xs = map f ys @ zs \<Longrightarrow> f ` set xs = f ` set ys \<union> set zs"
  by (metis list.set_map set_append)

lemma organization_pair_new:
  "unseeded role_names seeded_pairs w \<Longrightarrow> unseeded {} {(''organization'', ''manage'')} (catalogue_seeded X w)"
  using keys_of_map [OF catalogue_tables(2), of X w]
  by (auto simp: unseeded_def seeded_pairs_def PERMISSIONS_def)

lemma audit_pair_new:
  assumes "unseeded role_names seeded_pairs w"
  shows "unseeded {} {(''audit'', ''view'')} (admin_granted X organization_manage (catalogue_seeded X w))"
  using assms keys_of_map [OF catalogue_tables(2), of X w]
    keys_of_map [OF admin_granted_tables(2), of X organization_manage "catalogue_seeded X w"]
  by (auto simp: unseeded_def seeded_pairs_def PERMISSIONS_def)

lemma unseeded_catalogue: "unseeded role_names seeded_pairs w \<Longrightarrow> unseeded role_names permission_pairs w"
  by (auto simp: unseeded_def seeded_pairs_def)

lemma upgrade_steps:
  assumes ok: "db_ok X w" and free: "collision_free X n" "draws w + 12 \<le> n"
    and new: "unseeded role_names seeded_pairs w"
  shows "ca306aad2376_upgrade X w = (Inr (), catalogue_seeded X w)"
    and "v97122fa13dcc_upgrade X (catalogue_seeded X w) =
      (Inr (), admin_granted X organization_manage (catalogue_seeded X w))"
    and "cbf5b83aa3f8_upgrade X (admin_granted X organization_manage (catalogue_seeded X w)) = (Inr (), seeded X w)"
    and "db_ok X (catalogue_seeded X w)"
    and "db_ok X (admin_granted X organization_manage (catalogue_seeded X w))"
    and "db_ok X (seeded X w)"
proof -
  let ?w1 = "catalogue_seeded X w" and ?w2 = "admin_granted X organization_manage (catalogue_seeded X w)"
  show one: "ca306aad2376_upgrade X w = (Inr (), ?w1)"
    using free unseeded_catalogue [OF new] by (intro ca306_run [OF ok free(1)]) simp_all
  show ok1: "db_ok X ?w1"
    using obeysD [OF ca306_keeps one] ok by (simp add: keeps_def)
  show two: "v97122fa13dcc_upgrade X ?w1 = (Inr (), ?w2)"
    unfolding v97122fa13dcc_upgrade_def using free organization_pair_new [OF new]
    by (intro admin_permission_run [OF ok1 free(1)]) (simp_all add: seeded_tables)
  show ok2: "db_ok X ?w2"
    using obeysD [OF admin_permission_keeps two [unfolded v97122fa13dcc_upgrade_def]] ok1 by (simp add: keeps_def)
  show three: "cbf5b83aa3f8_upgrade X ?w2 = (Inr (), seeded X w)"
    unfolding cbf5b83aa3f8_upgrade_def seeded_def using free audit_pair_new [OF new]
    by (intro admin_permission_run [OF ok2 free(1)]) (simp_all add: seeded_tables)
  show "db_ok X (seeded X w)"
    using obeysD [OF admin_permission_keeps three [unfolded cbf5b83aa3f8_upgrade_def]] ok2 by (simp add: keeps_def)
qed

lemma upgrade_run:
  assumes "db_ok X w" and "collision_free X n" "draws w + 12 \<le> n" and "unseeded role_names seeded_pairs w"
  shows "upgrade_data X w = (Inr (), seeded X w)"
  using upgrade_steps [OF assms] by (simp add: upgrade_data_def transaction_def run_simps)

lemma downgrade_run:
  assumes ok: "db_ok X w" and free: "collision_free X n" "draws w + 12 \<le> n"
    and new: "unseeded role_names seeded_pairs w"
  shows "downgrade_data (seeded X w) = (Inr (), w\<lparr>draws := draws w + 12\<rparr>)"
proof -
  let ?w1 = "catalogue_seeded X w" and ?w2 = "admin_granted X organization_manage (catalogue_seeded X w)"
  note steps = upgrade_steps [OF ok free new]
  have d: "draws (seeded X w) = draws w + 12" by (simp add: seeded_def seeded_tables)
  have "cbf5b83aa3f8_downgrade ((seeded X w)\<lparr>draws := draws (seeded X w)\<rparr>) =
      (Inr (), ?w2\<lparr>draws := draws w + 12\<rparr>)"
    using admin_permission_back [OF steps(5) steps(3) [unfolded cbf5b83aa3f8_upgrade_def seeded_def]]
      audit_pair_new [OF new]
    by (simp add: cbf5b83aa3f8_downgrade_def seeded_def d [unfolded seeded_def])
  moreover have "v97122fa13dcc_downgrade (?w2\<lparr>draws := draws w + 12\<rparr>) = (Inr (), ?w1\<lparr>draws := draws w + 12\<rparr>)"
    using admin_permission_back [OF steps(4) steps(2) [unfolded v97122fa13dcc_upgrade_def]]
      organization_pair_new [OF new]
    by (simp add: v97122fa13dcc_downgrade_def)
  moreover have "ca306aad2376_downgrade (?w1\<lparr>draws := draws w + 12\<rparr>) = (Inr (), w\<lparr>draws := draws w + 12\<rparr>)"
    by (rule ca306_back [OF ok steps(1) unseeded_catalogue [OF new]])
  ultimately show ?thesis
    by (simp add: downgrade_data_def transaction_def run_simps)
qed

section \<open>A name that is taken\<close>

lemma and_then_failed: "fst (m w) = Inl e \<Longrightarrow> fst (and_then m f w) = Inl e"
  by (cases "m w") (simp add: run_simps)

lemma transaction_failed: "fst (m w) = Inl e \<Longrightarrow> \<exists>k. transaction m w = (Inl e, w\<lparr>draws := k\<rparr>)"
  by (cases "m w") (auto simp: transaction_def)

lemma ca306_taken:
  assumes ok: "db_ok X w" and free: "collision_free X n" "draws w + 10 \<le> n"
    and taken: "\<not> unseeded role_names permission_pairs w"
  shows "fst (ca306aad2376_upgrade X w) = Inl (Sql IntegrityError)"
proof -
  let ?now = "db_now X (draws w)" and ?w0 = "w\<lparr>draws := Suc (draws w)\<rparr>"
  have ok0: "db_ok X ?w0" using ok by (simp add: db_ok_draws)
  show ?thesis
  proof (cases "role_names \<inter> role_name ` set (roles w) = {}")
    case False
    then have "fst (each (seed_role X ?now) ROLES ?w0) = Inl (Sql IntegrityError)"
      using free(2) by (intro role_seeding.each_taken [OF ok0 free(1)]) (simp_all add: role_names_def)
    then show ?thesis by (simp add: ca306aad2376_upgrade_def and_then_Inr draw_run and_then_failed)
  next
    case True
    let ?w1 = "append_roles (new_rows (role_row ?now) (gen_random_uuid X) (Suc (draws w)) ROLES)
      (w\<lparr>draws := Suc (draws w) + 4\<rparr>)"
    have roles: "each (seed_role X ?now) ROLES ?w0 = (Inr (), ?w1)"
      using role_seeding.each_run [OF ok0 free(1), of ROLES ?now] free(2) True by (simp add: role_names_def)
    have "db_ok X ?w1" using obeysD [OF role_seeding.each_keeps roles] ok0 by (simp add: keeps_def)
    then have "fst (each (seed_permission X) PERMISSIONS ?w1) = Inl (Sql IntegrityError)"
      using free(2) True taken
      by (intro permission_seeding.each_taken [OF _ free(1)])
        (simp_all add: unseeded_def permission_pairs_keys append_roles_def)
    with roles show ?thesis
      by (simp add: ca306aad2376_upgrade_def and_then_Inr draw_run and_then_failed)
  qed
qed

lemma admin_permission_taken:
  assumes "\<not> unseeded {} {(fst d, fst (snd d))} w" and "length (fst d) \<le> 100" "length (fst (snd d)) \<le> 100"
  shows "fst (admin_permission_upgrade X d w) = Inl (Sql IntegrityError)"
  using permission_seeding.insert_one_taken [of d w X] assms
  by (simp add: admin_permission_upgrade_def unseeded_def and_then_failed)

lemma upgrade_taken:
  assumes ok: "db_ok X w" and free: "collision_free X n" "draws w + 12 \<le> n"
    and taken: "\<not> unseeded role_names seeded_pairs w"
  shows "fst (and_then (ca306aad2376_upgrade X) (\<lambda>_. and_then (v97122fa13dcc_upgrade X) (\<lambda>_. cbf5b83aa3f8_upgrade X)) w) =
    Inl (Sql IntegrityError)"
proof (cases "unseeded role_names permission_pairs w")
  case False
  then show ?thesis using free(2) by (intro and_then_failed ca306_taken [OF ok free(1)]) simp_all
next
  case True
  let ?w1 = "catalogue_seeded X w" and ?w2 = "admin_granted X organization_manage (catalogue_seeded X w)"
  have one: "ca306aad2376_upgrade X w = (Inr (), ?w1)"
    using free True by (intro ca306_run [OF ok free(1)]) simp_all
  have ok1: "db_ok X ?w1"
    using obeysD [OF ca306_keeps one] ok by (simp add: keeps_def)
  show ?thesis
  proof (cases "unseeded {} {(''organization'', ''manage'')} ?w1")
    case False
    then have "fst (v97122fa13dcc_upgrade X ?w1) = Inl (Sql IntegrityError)"
      unfolding v97122fa13dcc_upgrade_def by (intro admin_permission_taken) simp_all
    with one show ?thesis by (simp add: and_then_Inr and_then_failed)
  next
    case True
    then have two: "v97122fa13dcc_upgrade X ?w1 = (Inr (), ?w2)"
      unfolding v97122fa13dcc_upgrade_def using free
      by (intro admin_permission_run [OF ok1 free(1)]) (simp_all add: seeded_tables)
    have "\<not> unseeded {} {(''audit'', ''view'')} ?w2"
      using taken \<open>unseeded role_names permission_pairs w\<close> True keys_of_map [OF catalogue_tables(2), of X w]
        keys_of_map [OF admin_granted_tables(2), of X organization_manage ?w1]
      by (auto simp: unseeded_def seeded_pairs_def)
    then have "fst (cbf5b83aa3f8_upgrade X ?w2) = Inl (Sql IntegrityError)"
      unfolding cbf5b83aa3f8_upgrade_def by (intro admin_permission_taken) simp_all
    with one two show ?thesis by (simp add: and_then_Inr)
  qed
qed

section \<open>Who holds what\<close>

definition role_grants :: "world \<Rightarrow> string \<Rightarrow> string \<times> string \<Rightarrow> bool" where
  "role_grants w name pair =
     (\<exists>r \<in> set (roles w). \<exists>p \<in> set (permissions w). role_name r = name \<and> permission_key p = pair \<and>
        (role_id r, perm_id p) \<in> grant_key ` set (role_permissions w))"

text \<open>Granting by name and pair adds exactly the selected combinations.\<close>

lemma role_grants_selected:
  assumes ok: "db_ok X w" and ok1: "db_ok X w1"
    and rows: "set (roles w) \<subseteq> set (roles w1)" "set (permissions w) \<subseteq> set (permissions w1)"
    and grants: "role_permissions w1 = role_permissions w @ select_grants P w1"
    and P: "\<And>r p. P r p \<longleftrightarrow> (role_name r, permission_key p) \<in> S"
  shows "role_grants w1 name pair \<longleftrightarrow> role_grants w name pair \<or>
    (name, pair) \<in> S \<and> name \<in> role_name ` set (roles w1) \<and> pair \<in> permission_key ` set (permissions w1)"
proof
  have dr: "distinct (map role_id (roles w1))" and dp: "distinct (map perm_id (permissions w1))"
    using ok1 by (simp_all add: db_ok_def keys_unique_def)
  assume "role_grants w1 name pair"
  then obtain r p m where r: "r \<in> set (roles w1)" "role_name r = name"
    and p: "p \<in> set (permissions w1)" "permission_key p = pair"
    and m: "m \<in> set (role_permissions w1)" "grant_key m = (role_id r, perm_id p)"
    by (auto simp: role_grants_def)
  show "role_grants w name pair \<or>
    (name, pair) \<in> S \<and> name \<in> role_name ` set (roles w1) \<and> pair \<in> permission_key ` set (permissions w1)"
  proof (cases "m \<in> set (role_permissions w)")
    case True
    with ok m(2) obtain r0 p0 where "r0 \<in> set (roles w)" "role_id r0 = role_id r"
        "p0 \<in> set (permissions w)" "perm_id p0 = perm_id p"
      by (auto simp: db_ok_def refs_ok_def ids_def grant_key_def image_iff)
    with rows r(1) p(1) have "r \<in> set (roles w)" "p \<in> set (permissions w)"
      using distinct_map_eqD [OF dr, of r0 r] distinct_map_eqD [OF dp, of p0 p] by auto
    with r(2) p(2) True m(2) show ?thesis unfolding role_grants_def by force
  next
    case False
    with m obtain r0 p0 where "r0 \<in> set (roles w1)" "role_id r0 = role_id r"
        "p0 \<in> set (permissions w1)" "perm_id p0 = perm_id p" "P r0 p0"
      by (auto simp: grants set_select_grants grant_key_def)
    with r p show ?thesis
      using distinct_map_eqD [OF dr, of r0 r] distinct_map_eqD [OF dp, of p0 p] P by auto
  qed
next
  assume "role_grants w name pair \<or>
    (name, pair) \<in> S \<and> name \<in> role_name ` set (roles w1) \<and> pair \<in> permission_key ` set (permissions w1)"
  then show "role_grants w1 name pair"
  proof
    assume "role_grants w name pair"
    with rows show ?thesis unfolding role_grants_def grants set_append by blast
  next
    assume sel: "(name, pair) \<in> S \<and> name \<in> role_name ` set (roles w1) \<and>
      pair \<in> permission_key ` set (permissions w1)"
    then obtain r p where rp: "r \<in> set (roles w1)" "role_name r = name" "p \<in> set (permissions w1)"
        "permission_key p = pair" by blast
    with sel P have "\<lparr>rp_role_id = role_id r, rp_permission_id = perm_id p\<rparr> \<in> set (role_permissions w1)"
      by (auto simp: grants set_select_grants)
    then have "grant_key \<lparr>rp_role_id = role_id r, rp_permission_id = perm_id p\<rparr> \<in>
        grant_key ` set (role_permissions w1)" by (rule imageI)
    with rp show ?thesis unfolding role_grants_def by (auto simp: grant_key_def)
  qed
qed

lemma select_grants_cong:
  "roles v = roles w \<Longrightarrow> permissions v = permissions w \<Longrightarrow> select_grants P v = select_grants P w"
  by (simp add: select_grants_def)

lemma seeded_grants:
  assumes ok: "db_ok X w" and free: "collision_free X n" "draws w + 12 \<le> n"
    and new: "unseeded role_names seeded_pairs w"
  shows "role_grants (seeded X w) name (r, a) \<longleftrightarrow> role_grants w name (r, a) \<or> (name, r, a) \<in> set SEEDED"
proof -
  let ?w1 = "catalogue_seeded X w" and ?w2 = "admin_granted X organization_manage (catalogue_seeded X w)"
  note steps = upgrade_steps [OF ok free new]
  have names: "role_name ` set (roles ?w1) = role_name ` set (roles w) \<union> role_names"
    using keys_of_map [OF catalogue_tables(1)] by (simp add: role_names_def)
  have pairs: "permission_key ` set (permissions ?w1) = permission_key ` set (permissions w) \<union> permission_pairs"
    using keys_of_map [OF catalogue_tables(2)] by (simp add: permission_pairs_keys)
  have pairs2: "permission_key ` set (permissions (admin_granted X d v)) =
      permission_key ` set (permissions v) \<union> {(fst d, fst (snd d))}" for d v
    using keys_of_map [OF admin_granted_tables(2)] by simp
  have one: "role_grants ?w1 name (r, a) \<longleftrightarrow> role_grants w name (r, a) \<or> (name, r, a) \<in> set ROLE_PERMISSION_MAP"
  proof -
    have "role_grants ?w1 name (r, a) \<longleftrightarrow> role_grants w name (r, a) \<or> (name, r, a) \<in> set ROLE_PERMISSION_MAP \<and>
        name \<in> role_name ` set (roles ?w1) \<and> (r, a) \<in> permission_key ` set (permissions ?w1)"
      by (rule role_grants_selected [OF ok steps(4), where
            P = "\<lambda>r p. (role_name r, perm_resource p, perm_action p) \<in> set ROLE_PERMISSION_MAP"])
        (auto simp: catalogue_seeded_def Let_def permission_key_def intro!: select_grants_cong)
    with map_pairs [of name r a] show ?thesis by (auto simp: names pairs)
  qed
  have later: "role_grants (admin_granted X d v) name (r, a) \<longleftrightarrow>
      role_grants v name (r, a) \<or> (name, r, a) = (''Admin'', fst d, fst (snd d))"
    if "db_ok X v" "db_ok X (admin_granted X d v)" "''Admin'' \<in> role_name ` set (roles v)" for d v
  proof -
    have "role_grants (admin_granted X d v) name (r, a) \<longleftrightarrow> role_grants v name (r, a) \<or>
        (name, (r, a)) \<in> {(''Admin'', (fst d, fst (snd d)))} \<and>
        name \<in> role_name ` set (roles (admin_granted X d v)) \<and>
        (r, a) \<in> permission_key ` set (permissions (admin_granted X d v))"
      by (rule role_grants_selected [OF that(1,2), where P = "\<lambda>r p. (perm_resource p = fst d \<and>
            perm_action p = fst (snd d)) \<and> role_name r = ''Admin''"])
        (auto simp: admin_granted_def Let_def permission_key_def intro!: select_grants_cong)
    with that(3) show ?thesis by (auto simp: admin_granted_tables(1) pairs2)
  qed
  have admin: "''Admin'' \<in> role_name ` set (roles ?w1)"
    by (simp add: names role_names_def ROLES_def)
  then have two: "role_grants ?w2 name (r, a) \<longleftrightarrow>
      role_grants ?w1 name (r, a) \<or> (name, r, a) = (''Admin'', ''organization'', ''manage'')"
    using later [OF steps(4,5)] by simp
  have "role_grants (seeded X w) name (r, a) \<longleftrightarrow>
      role_grants ?w2 name (r, a) \<or> (name, r, a) = (''Admin'', ''audit'', ''view'')"
    using later [OF steps(5), of audit_view] steps(6) admin unfolding seeded_def
    by (simp add: admin_granted_tables(1))
  with one two show ?thesis by (auto simp: SEEDED_def)
qed

end
