(* ===== verification/Seed_Properties.thy ===== *)
theory Seed_Properties
  imports Seed_Runs System_Properties
begin

text \<open>
  The properties of the data migrations: what they seed, that they seed all or nothing,
  that the way back removes exactly that, and what the seeded roles open in the service.
\<close>

section \<open>The catalogue\<close>

text \<open>
  C26: the data migrations run through exactly when none of the seeded role names and
  permissions exists yet. Then they append the four roles and the seven permissions, and a
  role has a permission afterwards when it had it before or the seed data says so. Otherwise
  they fail with an IntegrityError and every table is as it was.
\<close>

theorem migrations_seed_catalogue:
  assumes "db_ok X w" and "collision_free X n" and "draws w + 12 \<le> n"
  shows "if unseeded role_names seeded_pairs w
    then \<exists>w'. upgrade_data X w = (Inr (), w') \<and> db_ok X w' \<and>
      map role_name (roles w') = map role_name (roles w) @ [''Admin'', ''Manager'', ''Developer'', ''Intern''] \<and>
      map permission_key (permissions w') = map permission_key (permissions w) @
        [(''document'', ''view''), (''document'', ''edit''), (''document'', ''delete''),
         (''role'', ''manage''), (''user'', ''manage''), (''organization'', ''manage''), (''audit'', ''view'')] \<and>
      (\<forall>name r a. role_grants w' name (r, a) \<longleftrightarrow> role_grants w name (r, a) \<or> (name, r, a) \<in> set SEEDED) \<and>
      users w' = users w \<and> user_roles w' = user_roles w
    else \<exists>k. upgrade_data X w = (Inl (Sql IntegrityError), w\<lparr>draws := k\<rparr>)"
proof (cases "unseeded role_names seeded_pairs w")
  case True
  have "upgrade_data X w = (Inr (), seeded X w)" "db_ok X (seeded X w)"
    using upgrade_run [OF assms True] upgrade_steps(6) [OF assms True] by simp_all
  with True seeded_grants [OF assms True] show ?thesis
    by (intro if_P [THEN iffD2] exI [of _ "seeded X w"])
      (simp_all add: seeded_def seeded_tables ROLES_def PERMISSIONS_def)
next
  case False
  then have "\<exists>k. upgrade_data X w = (Inl (Sql IntegrityError), w\<lparr>draws := k\<rparr>)"
    unfolding upgrade_data_def by (intro transaction_failed upgrade_taken [OF assms])
  with False show ?thesis by simp
qed

lemma sample_unseeded: "unseeded role_names seeded_pairs sample_world"
  by (simp add: unseeded_def sample_world_def empty_world_def)

theorem migrations_seed_catalogue_witness:
  "\<exists>w'. upgrade_data sample_env sample_world = (Inr (), w') \<and> length (permissions w') = 7 \<and>
     role_grants w' ''Manager'' (''user'', ''manage'') \<and> \<not> role_grants w' ''Intern'' (''document'', ''edit'')"
proof -
  have "\<not> role_grants sample_world ''Intern'' (''document'', ''edit'')"
    by (simp add: role_grants_def sample_world_def empty_world_def)
  moreover have "(''Manager'', ''user'', ''manage'') \<in> set SEEDED" "(''Intern'', ''document'', ''edit'') \<notin> set SEEDED"
    by (simp_all add: SEEDED_def ROLE_PERMISSION_MAP_def)
  ultimately show ?thesis
    using migrations_seed_catalogue [OF sample_world_ok(2) sample_collision_free] sample_unseeded
    by (auto dest!: arg_cong [where f = length] simp: sample_world_def empty_world_def)
qed

text \<open>
  the downgrade takes back exactly what the upgrade inserted: roles, permissions, grants
  and assignments are those of before, in their old order, whatever else the database holds.
\<close>

theorem downgrade_undoes_upgrade:
  assumes "db_ok X w" and "collision_free X n" and "draws w + 12 \<le> n"
    and "unseeded role_names seeded_pairs w"
  shows "and_then (upgrade_data X) (\<lambda>_. downgrade_data) w = (Inr (), w\<lparr>draws := draws w + 12\<rparr>)"
  by (simp add: and_then_run upgrade_run [OF assms] downgrade_run [OF assms])

theorem downgrade_undoes_upgrade_witness:
  "and_then (upgrade_data sample_env) (\<lambda>_. downgrade_data) sample_world = (Inr (), sample_world\<lparr>draws := 15\<rparr>)"
  using downgrade_undoes_upgrade [OF sample_world_ok(2) sample_collision_free _ sample_unseeded] by simp

section \<open>What the seeded roles open\<close>

text \<open>An account whose one assignment is a global one decides as its role is granted.\<close>

lemma may_by_role:
  assumes ok: "db_ok X v" and r: "r \<in> set (roles v)" and u: "u \<in> set (users v)" "usr_is_active u"
    and only: "\<And>b. b \<in> set (user_roles v) \<Longrightarrow> ur_user_id b = usr_id u \<Longrightarrow> ur_role_id b = role_id r"
    and a: "a \<in> set (user_roles v)" "ur_user_id a = usr_id u" "ur_organization_id a = None"
  shows "may v (usr_id u) resource action g \<longleftrightarrow> role_grants v (role_name r) (resource, action)"
proof -
  have "distinct (map role_name (roles v))" using ok by (simp add: db_ok_def keys_unique_def)
  note unique = distinct_map_eqD [OF this _ r]
  have "role_grants v (role_name r) (resource, action) \<longleftrightarrow>
      (\<exists>p \<in> set (permissions v). permission_key p = (resource, action) \<and>
        (role_id r, perm_id p) \<in> grant_key ` set (role_permissions v))"
    unfolding role_grants_def using r unique by metis
  also have "\<dots> \<longleftrightarrow> (\<exists>m \<in> set (role_permissions v). rp_role_id m = role_id r \<and>
      (\<exists>p \<in> set (permissions v). perm_id p = rp_permission_id m \<and> perm_resource p = resource \<and> perm_action p = action))"
    unfolding grant_key_def permission_key_def image_iff prod.inject by metis
  finally have named: "role_grants v (role_name r) (resource, action) \<longleftrightarrow> \<dots>" .
  have carried: "(\<exists>s \<in> set (user_roles v). ur_user_id s = usr_id u \<and>
      (ur_organization_id s = None \<or> g \<noteq> None \<and> ur_organization_id s = g) \<and> Q (ur_role_id s)) \<longleftrightarrow> Q (role_id r)" for Q
  proof
    assume "Q (role_id r)"
    with a only [OF a(1,2)] show "\<exists>s \<in> set (user_roles v). ur_user_id s = usr_id u \<and>
      (ur_organization_id s = None \<or> g \<noteq> None \<and> ur_organization_id s = g) \<and> Q (ur_role_id s)"
      by (intro bexI [of _ a]) simp_all
  qed (use only in auto)
  show ?thesis
    unfolding may_iff named
      carried [of "\<lambda>i. \<exists>m \<in> set (role_permissions v). rp_role_id m = i \<and>
        (\<exists>p \<in> set (permissions v). perm_id p = rp_permission_id m \<and> perm_resource p = resource \<and> perm_action p = action)"]
    using u by blast
qed

text \<open>
  C25: the catalogue's least privilege. In a freshly seeded database, an account whose one
  assignment is a global one to a seeded role (the documented first step, an INSERT by
  hand, made by \<open>a\<close>) is allowed exactly what the seed data grants that role, in every scope.
  Of the protected routes that is all of them for Admin, the three on other users' roles for
  Manager, and none for Developer and Intern.
\<close>

theorem seeded_roles_reach:
  assumes "db_ok X w" and "collision_free X n" and "draws w + 12 \<le> n"
    and "unseeded role_names seeded_pairs w" and "upgrade_data X w = (Inr (), w')"
    and "v = w'\<lparr>user_roles := user_roles w' @ [a], draws := k\<rparr>" and "db_ok X v"
    and "r \<in> set (roles w')" and "role_name r \<in> role_names" and "u \<in> set (users w)" and "usr_is_active u"
    and "ur_user_id a = usr_id u" and "ur_role_id a = role_id r" and "ur_organization_id a = None"
    and "usr_id u \<notin> ur_user_id ` set (user_roles w)"
  shows "authorize X (usr_id u) resource action g v =
      (Inr (decision ((role_name r, resource, action) \<in> set SEEDED) resource action g), v) \<and>
    (demands req = Some (resource, action) \<longrightarrow>
      ((role_name r, resource, action) \<in> set SEEDED \<longleftrightarrow>
        role_name r = ''Admin'' \<or> role_name r = ''Manager'' \<and> resource = ''user''))"
proof -
  have w': "w' = seeded X w" using upgrade_run [OF assms(1-4)] assms(5) by simp
  then have same: "users w' = users w" "user_roles w' = user_roles w" by (simp_all add: seeded_def seeded_tables)
  have "may v (usr_id u) resource action g \<longleftrightarrow> role_grants v (role_name r) (resource, action)"
    using assms(8,10-15) same by (intro may_by_role [OF assms(7), of r u a]) (auto simp: assms(6) image_iff)
  also have "\<dots> \<longleftrightarrow> role_grants w' (role_name r) (resource, action)" by (simp add: assms(6) role_grants_def)
  also have "\<dots> \<longleftrightarrow> (role_name r, resource, action) \<in> set SEEDED"
  proof -
    have "role_name r \<notin> role_name ` set (roles w)" using assms(4,9) by (auto simp: unseeded_def)
    then have "\<not> role_grants w (role_name r) (resource, action)"
      unfolding role_grants_def by (metis image_eqI)
    then show ?thesis by (simp add: w' seeded_grants [OF assms(1-4)])
  qed
  finally have may: "may v (usr_id u) resource action g \<longleftrightarrow> (role_name r, resource, action) \<in> set SEEDED" .
  have "(role_name r, resource, action) \<in> set SEEDED \<longleftrightarrow>
      role_name r = ''Admin'' \<or> role_name r = ''Manager'' \<and> resource = ''user''"
    if "demands req = Some (resource, action)"
    using that assms(9) by (cases req) (auto simp: SEEDED_def ROLE_PERMISSION_MAP_def role_names_def ROLES_def)
  then show ?thesis by (simp add: authorize_run [OF assms(7)] may)
qed

text \<open>The example: its one account made a Manager by hand after the migrations.\<close>

definition sample_manager :: world where
  "sample_manager = (seeded sample_env sample_world)\<lparr>
     user_roles := [\<lparr>ur_id = 15, ur_user_id = 1, ur_role_id = 5, ur_organization_id = None, ur_assigned_at = 0\<rparr>],
     draws := 16\<rparr>"

lemma sample_seeded_roles:
  "roles (seeded sample_env sample_world) =
     [role_row 3 4 (ROLES ! 0), role_row 3 5 (ROLES ! 1), role_row 3 6 (ROLES ! 2), role_row 3 7 (ROLES ! 3)]"
  by (simp add: seeded_def admin_granted_tables(1) catalogue_seeded_def Let_def ROLES_def sample_world_def
      empty_world_def)

lemma sample_seeded:
  "upgrade_data sample_env sample_world = (Inr (), seeded sample_env sample_world)"
  "db_ok sample_env (seeded sample_env sample_world)"
  using upgrade_run [OF sample_world_ok(2) sample_collision_free _ sample_unseeded]
    upgrade_steps(6) [OF sample_world_ok(2) sample_collision_free _ sample_unseeded] by simp_all

lemma sample_manager_simps [simp]:
  "users sample_manager = [sample_user]" "draws sample_manager = 16"
  "roles sample_manager = roles (seeded sample_env sample_world)"
  "organizations sample_manager = []" "user_roles sample_manager =
     [\<lparr>ur_id = 15, ur_user_id = 1, ur_role_id = 5, ur_organization_id = None, ur_assigned_at = 0\<rparr>]"
  by (simp_all add: sample_manager_def seeded_def seeded_tables) (simp add: sample_world_def empty_world_def)

lemma sample_manager_ok: "db_ok sample_env sample_manager"
proof -
  let ?a = "\<lparr>ur_id = 15, ur_user_id = 1, ur_role_id = 5, ur_organization_id = None, ur_assigned_at = 0\<rparr>"
  let ?s = "(seeded sample_env sample_world)\<lparr>draws := 16\<rparr>"
  have d: "draws (seeded sample_env sample_world) = 15" by (simp add: seeded_def seeded_tables)
  have t: "user_roles (seeded sample_env sample_world) = []" "users (seeded sample_env sample_world) = [sample_user]"
    by (simp_all add: seeded_def seeded_tables) (simp add: sample_world_def empty_world_def)
  have ok: "db_ok sample_env ?s" by (rule db_ok_draws [OF _ sample_seeded(2)]) (simp add: d)
  have c: "user_role_consistent ?s ?a"
    by (simp add: user_role_consistent_def uq_user_roles_user_role_global_def uq_user_roles_user_role_org_def
        t sample_seeded_roles)
  have "(15::uuid) \<in> gen_random_uuid sample_env ` {..<16}"
    by (rule image_eqI [of _ _ 15]) simp_all
  then have "db_ok sample_env (?s\<lparr>user_roles := user_roles ?s @ [?a]\<rparr>)"
    by (intro db_ok_insert_user_role [OF ok c]) simp
  then show ?thesis by (simp add: sample_manager_def t)
qed

theorem seeded_roles_reach_witness:
  "authorize sample_env 1 ''user'' ''manage'' None sample_manager =
     (Inr (decision True ''user'' ''manage'' None), sample_manager) \<and>
   authorize sample_env 1 ''role'' ''manage'' None sample_manager =
     (Inr (decision False ''role'' ''manage'' None), sample_manager)"
proof -
  let ?a = "\<lparr>ur_id = 15, ur_user_id = 1, ur_role_id = 5, ur_organization_id = None, ur_assigned_at = 0\<rparr>"
  have v: "sample_manager = (seeded sample_env sample_world)
      \<lparr>user_roles := user_roles (seeded sample_env sample_world) @ [?a], draws := 16\<rparr>"
    by (simp add: sample_manager_def seeded_def seeded_tables) (simp add: sample_world_def empty_world_def)
  have r: "role_row 3 5 (ROLES ! 1) \<in> set (roles (seeded sample_env sample_world))"
    by (simp add: sample_seeded_roles)
  have name: "role_name (role_row 3 5 (ROLES ! 1)) = ''Manager''" by (simp add: ROLES_def)
  have n: "''Manager'' \<in> role_names" by (simp add: role_names_def ROLES_def)
  note reach = seeded_roles_reach [OF sample_world_ok(2) sample_collision_free _ sample_unseeded
      sample_seeded(1) v sample_manager_ok r, of sample_user, unfolded name]
  have "(''Manager'', ''user'', ''manage'') \<in> set SEEDED" "(''Manager'', ''role'', ''manage'') \<notin> set SEEDED"
    by (simp_all add: SEEDED_def ROLE_PERMISSION_MAP_def)
  with reach [of "''user''" "''manage''" None] reach [of "''role''" "''manage''" None] n show ?thesis
    by (simp add: sample_world_def empty_world_def)
qed

text \<open>
  C24: whoever holds \<open>user:manage\<close> can make himself anything. His request to give
  himself a global role he does not have yet is answered with 204, and from then on the check
  allows him everything the role grants, in every scope. A seeded Manager becomes an Admin
  this way.
\<close>

theorem user_manage_reaches_every_role:
  assumes "db_ok X v" and "subjects_are_strings X" and "collision_free X n" and "draws v + 5 \<le> n"
    and "caller X auth v = Some u" and "may v (usr_id u) ''user'' ''manage'' None"
    and "r \<in> set (roles v)" and "role_organization_id r = None"
    and "(usr_id u, role_id r, None) \<notin> assignment_key ` set (user_roles v)"
  shows "\<exists>v'. dispatch X auth (AssignRole (usr_id u) (role_id r) None) v = (Inr (204, EmptyBody), v') \<and>
    (\<forall>resource action g. role_grants v (role_name r) (resource, action) \<longrightarrow>
      authorize X (usr_id u) resource action g v' = (Inr (decision True resource action g), v'))"
proof -
  let ?v = "read_header auth v"
  let ?a = "new_user_role (usr_id u) (role_id r) None (gen_random_uuid X (draws ?v)) (db_now X (draws ?v + 1))"
  note start = handler_start [OF assms(1,4,5)]
  have "find (\<lambda>s. role_id s = role_id r) (roles v) = Some r"
    using assms(1,7) by (intro find_key_unique) (simp_all add: db_ok_def keys_unique_def)
  then obtain v' where run: "assign_role X (usr_id u) (role_id r) None (usr_id u) ?v = (Inr (), v')"
    and v': "user_roles v' = user_roles v @ [?a]" "users v' = users v" "permissions v' = permissions v"
      "role_permissions v' = role_permissions v"
    using assms(8,9) start(4) by (simp add: assign_role_run [OF start(1) assms(3) start(2,4)] membership_refusal_def)
  have "dispatch X auth (AssignRole (usr_id u) (role_id r) None) v = (Inr (204, EmptyBody), v')"
    by (subst admitted [OF assms(1,2)], simp only: dispatch.simps route_defs)
      (simp add: assms(5,6) and_then_run excepting_run run pure_run)
  moreover have "authorize X (usr_id u) resource action g v' = (Inr (decision True resource action g), v')"
    if granted: "role_grants v (role_name r) (resource, action)" for resource action g
  proof -
    have ok: "db_ok X v'" using obeysD [OF authz_db_ok(2) run] start(1) by (simp add: keeps_def)
    from granted obtain s p m where "s \<in> set (roles v)" "role_name s = role_name r" and
        p: "p \<in> set (permissions v)" "permission_key p = (resource, action)" and
        m: "m \<in> set (role_permissions v)" "grant_key m = (role_id s, perm_id p)"
      by (auto simp: role_grants_def)
    then have "s = r"
      using assms(1,7) distinct_map_eqD [of role_name "roles v" s r] by (simp add: db_ok_def keys_unique_def)
    with m have m': "rp_role_id m = role_id r" "rp_permission_id m = perm_id p" by (simp_all add: grant_key_def)
    have "organization_scope_filter g ?a" by (cases g) (simp_all add: new_user_role_def)
    then have "grants v' (usr_id u) g p"
      unfolding grants_def v' using m(1) m'
      by (intro bexI [of _ ?a] conjI bexI [of _ m]) (simp_all add: new_user_role_def)
    then have "may v' (usr_id u) resource action g"
      using assms(6) p unfolding may_def v' by (auto simp: permission_key_def)
    then show ?thesis by (simp add: authorize_run [OF ok])
  qed
  ultimately show ?thesis by blast
qed

definition manager_header :: "string option" where
  "manager_header = Some (''Bearer '' @ uuid_str 1)"

lemma manager_bearer [simp]: "bearer manager_header = Some (uuid_str 1)"
  unfolding manager_header_def by (rule bearer_header [OF uuid_str_nonempty uuid_str_strip])

lemma sample_manager_caller: "caller sample_env manager_header sample_manager = Some sample_user"
  by (simp add: caller_def subject_def sample_decode_def uuid_round_trip uuid_str_nonempty)

lemma sample_manager_same:
  "role_grants sample_manager name pair = role_grants (seeded sample_env sample_world) name pair"
  by (simp add: sample_manager_def role_grants_def)

lemma sample_manager_grants:
  "role_grants sample_manager name (r, a) \<longleftrightarrow> (name, r, a) \<in> set SEEDED"
proof -
  have "\<not> role_grants sample_world name (r, a)" by (simp add: role_grants_def sample_world_def empty_world_def)
  then show ?thesis
    using seeded_grants [OF sample_world_ok(2) sample_collision_free _ sample_unseeded, of name r a]
    by (simp add: sample_manager_same)
qed

lemma sample_manager_may: "may sample_manager 1 ''user'' ''manage'' None"
proof -
  have "role_row 3 5 (ROLES ! 1) \<in> set (roles sample_manager)" by (simp add: sample_seeded_roles)
  from may_by_role [OF sample_manager_ok this, of sample_user] show ?thesis
    by (simp add: sample_manager_grants) (simp add: ROLES_def SEEDED_def ROLE_PERMISSION_MAP_def)
qed

theorem user_manage_reaches_every_role_witness:
  "\<exists>v'. dispatch sample_env manager_header (AssignRole 1 4 None) sample_manager = (Inr (204, EmptyBody), v') \<and>
     authorize sample_env 1 ''organization'' ''manage'' None v' =
       (Inr (decision True ''organization'' ''manage'' None), v')"
proof -
  let ?r = "role_row 3 4 (ROLES ! 0)"
  have r: "?r \<in> set (roles sample_manager)" by (simp add: sample_seeded_roles)
  have name: "role_name ?r = ''Admin''" by (simp add: ROLES_def)
  have "role_grants sample_manager ''Admin'' (''organization'', ''manage'')"
    by (simp add: sample_manager_grants SEEDED_def)
  moreover have "\<exists>v'. dispatch sample_env manager_header (AssignRole 1 4 None) sample_manager = (Inr (204, EmptyBody), v') \<and>
     (\<forall>resource action g. role_grants sample_manager ''Admin'' (resource, action) \<longrightarrow>
        authorize sample_env 1 resource action g v' = (Inr (decision True resource action g), v'))"
    using user_manage_reaches_every_role [OF sample_manager_ok sample_subjects sample_collision_free _
        sample_manager_caller _ r, unfolded name] sample_manager_may
    by (simp add: assignment_key_def)
  ultimately show ?thesis by blast
qed

end
