(* ===== verification/Schema.thy ===== *)
theory Schema
  imports Prelude
begin

text \<open>
  The database schema as a value: the tables with their columns, constraints and
  indexes, the Alembic operations the migrations use as steps on it, and the tables that
  the declarative models of \<open>app/domain/models\<close> describe.
\<close>

section \<open>Schemas\<close>

datatype sql_type = UUID | String nat | Text | Boolean | DateTime | JSONB

datatype server_default = gen_random_uuid_default | now_default

datatype ondelete = NO_ACTION | CASCADE | SET_NULL

record column =
  col_name :: string
  col_type :: sql_type
  col_server_default :: "server_default option"
  col_nullable :: bool

datatype table_constraint =
    PrimaryKeyConstraint "string list"
  | UniqueConstraint string "string list"
  | ForeignKeyConstraint string "string list" string "string list" ondelete

record table_index =
  ix_name :: string
  ix_columns :: "string list"
  ix_unique :: bool
  ix_where :: "string option"

record table =
  tab_columns :: "column list"
  tab_constraints :: "table_constraint list"
  tab_indexes :: "table_index list"

type_synonym schema = "(string \<times> table) list"

datatype ddl_error =
    DuplicateTable string
  | UndefinedTable string
  | DuplicateColumn string
  | UndefinedColumn string
  | DuplicateObject string
  | UndefinedObject string
  | DependentObjectsStillExist string

type_synonym ddl = "(schema, ddl_error, unit) prog"

fun constraint_columns :: "table_constraint \<Rightarrow> string list" where
  "constraint_columns (PrimaryKeyConstraint cols) = cols"
| "constraint_columns (UniqueConstraint _ cols) = cols"
| "constraint_columns (ForeignKeyConstraint _ cols _ _ _) = cols"

fun constraint_name :: "table_constraint \<Rightarrow> string option" where
  "constraint_name (PrimaryKeyConstraint _) = None"
| "constraint_name (UniqueConstraint name _) = Some name"
| "constraint_name (ForeignKeyConstraint name _ _ _ _) = Some name"

fun refers_to :: "table_constraint \<Rightarrow> string option" where
  "refers_to (ForeignKeyConstraint _ _ referent _ _) = Some referent"
| "refers_to _ = None"

text \<open>PostgreSQL's name for a foreign key that is given none.\<close>

definition foreign_key :: "string \<Rightarrow> string \<Rightarrow> string \<Rightarrow> ondelete \<Rightarrow> table_constraint" where
  "foreign_key source col referent ondelete =
     ForeignKeyConstraint (source @ ''_'' @ col @ ''_fkey'') [col] referent [''id''] ondelete"

section \<open>The operations of Alembic\<close>

text \<open>
  Each is one DDL statement: it checks what PostgreSQL checks and fails without a change,
  or it changes the schema. A new table goes to the end, as do new columns, constraints and
  indexes of a table.
\<close>

definition create_table :: "string \<Rightarrow> column list \<Rightarrow> table_constraint list \<Rightarrow> ddl" where
  "create_table name cols cons = (\<lambda>s.
     if name \<in> fst ` set s then (Inl (DuplicateTable name), s)
     else
       (case find (\<lambda>c. case refers_to c of None \<Rightarrow> False | Some r \<Rightarrow> r \<noteq> name \<and> r \<notin> fst ` set s) cons of
          Some c \<Rightarrow> (Inl (UndefinedTable (the (refers_to c))), s)
        | None \<Rightarrow> (Inr (), s @ [(name, \<lparr>tab_columns = cols, tab_constraints = cons, tab_indexes = []\<rparr>)])))"

definition referenced :: "string \<Rightarrow> schema \<Rightarrow> bool" where
  "referenced name s =
     (\<exists>(n, t) \<in> set s. n \<noteq> name \<and> (\<exists>c \<in> set (tab_constraints t). refers_to c = Some name))"

definition drop_table :: "string \<Rightarrow> ddl" where
  "drop_table name = (\<lambda>s.
     if name \<notin> fst ` set s then (Inl (UndefinedTable name), s)
     else if referenced name s then (Inl (DependentObjectsStillExist name), s)
     else (Inr (), filter (\<lambda>(n, _). n \<noteq> name) s))"

definition alter_table :: "string \<Rightarrow> (table \<Rightarrow> ddl_error + table) \<Rightarrow> ddl" where
  "alter_table name f = (\<lambda>s.
     case map_of s name of
       None \<Rightarrow> (Inl (UndefinedTable name), s)
     | Some t \<Rightarrow>
         (case f t of
            Inl e \<Rightarrow> (Inl e, s)
          | Inr t' \<Rightarrow> (Inr (), map (\<lambda>(n, u). if n = name then (n, t') else (n, u)) s)))"

definition has_columns :: "table \<Rightarrow> string list \<Rightarrow> bool" where
  "has_columns t cols = (set cols \<subseteq> col_name ` set (tab_columns t))"

text \<open>The names of indexes are unique in the whole schema.\<close>

definition index_names :: "schema \<Rightarrow> string set" where
  "index_names s = (\<Union>(n, t) \<in> set s. ix_name ` set (tab_indexes t))"

definition create_index :: "string \<Rightarrow> string \<Rightarrow> string list \<Rightarrow> bool \<Rightarrow> string option \<Rightarrow> ddl" where
  "create_index name source cols is_unique condition = (\<lambda>s.
     if name \<in> index_names s then (Inl (DuplicateObject name), s)
     else alter_table source (\<lambda>t.
       if \<not> has_columns t cols then Inl (UndefinedColumn source)
       else Inr (t\<lparr>tab_indexes := tab_indexes t @
         [\<lparr>ix_name = name, ix_columns = cols, ix_unique = is_unique, ix_where = condition\<rparr>]\<rparr>)) s)"

definition drop_index :: "string \<Rightarrow> ddl" where
  "drop_index name = (\<lambda>s.
     if name \<notin> index_names s then (Inl (UndefinedObject name), s)
     else (Inr (), map (\<lambda>(n, t). (n, t\<lparr>tab_indexes := filter (\<lambda>i. ix_name i \<noteq> name) (tab_indexes t)\<rparr>)) s))"

definition add_column :: "string \<Rightarrow> column \<Rightarrow> ddl" where
  "add_column source c = alter_table source (\<lambda>t.
     if has_columns t [col_name c] then Inl (DuplicateColumn (col_name c))
     else Inr (t\<lparr>tab_columns := tab_columns t @ [c]\<rparr>))"

text \<open>A dropped column takes the indexes and constraints over it along.\<close>

definition drop_column :: "string \<Rightarrow> string \<Rightarrow> ddl" where
  "drop_column source col = alter_table source (\<lambda>t.
     if \<not> has_columns t [col] then Inl (UndefinedColumn col)
     else Inr (t\<lparr>tab_columns := filter (\<lambda>c. col_name c \<noteq> col) (tab_columns t),
       tab_constraints := filter (\<lambda>c. col \<notin> set (constraint_columns c)) (tab_constraints t),
       tab_indexes := filter (\<lambda>i. col \<notin> set (ix_columns i)) (tab_indexes t)\<rparr>))"

definition add_constraint :: "string \<Rightarrow> table_constraint \<Rightarrow> ddl" where
  "add_constraint source c = alter_table source (\<lambda>t.
     if constraint_name c \<noteq> None \<and> constraint_name c \<in> constraint_name ` set (tab_constraints t)
     then Inl (DuplicateObject (the (constraint_name c)))
     else if \<not> has_columns t (constraint_columns c) then Inl (UndefinedColumn source)
     else Inr (t\<lparr>tab_constraints := tab_constraints t @ [c]\<rparr>))"

definition create_foreign_key ::
  "string \<Rightarrow> string \<Rightarrow> string \<Rightarrow> string list \<Rightarrow> string list \<Rightarrow> ondelete \<Rightarrow> ddl" where
  "create_foreign_key name source referent cols remote ondelete = (\<lambda>s.
     if referent \<notin> fst ` set s then (Inl (UndefinedTable referent), s)
     else add_constraint source (ForeignKeyConstraint name cols referent remote ondelete) s)"

definition create_unique_constraint :: "string \<Rightarrow> string \<Rightarrow> string list \<Rightarrow> ddl" where
  "create_unique_constraint name source cols = add_constraint source (UniqueConstraint name cols)"

definition drop_constraint :: "string \<Rightarrow> string \<Rightarrow> ddl" where
  "drop_constraint name source = alter_table source (\<lambda>t.
     if Some name \<notin> constraint_name ` set (tab_constraints t) then Inl (UndefinedObject name)
     else Inr (t\<lparr>tab_constraints := filter (\<lambda>c. constraint_name c \<noteq> Some name) (tab_constraints t)\<rparr>))"

fun in_order :: "ddl list \<Rightarrow> ddl" where
  "in_order [] = pure ()"
| "in_order (m # ms) = and_then m (\<lambda>_. in_order ms)"

definition Column :: "string \<Rightarrow> sql_type \<Rightarrow> server_default option \<Rightarrow> bool \<Rightarrow> column" where
  "Column name ty server_default nullable =
     \<lparr>col_name = name, col_type = ty, col_server_default = server_default, col_nullable = nullable\<rparr>"

abbreviation id_column :: column where
  "id_column \<equiv> Column ''id'' UUID (Some gen_random_uuid_default) False"

end
