(* ===== verification/Migrations.thy ===== *)
theory Migrations
  imports Schema
begin

text \<open>
  The four schema migrations of \<open>app/db/migrations/versions\<close>, and the tables the
  declarative models describe. (\<open>CREATE EXTENSION pgcrypto\<close> touches no table.)
\<close>

section \<open>\<open>2223bb675a2a\<close>: users and refresh tokens\<close>

definition v2223bb675a2a_upgrade :: ddl where
  "v2223bb675a2a_upgrade = in_order [
     create_table ''users''
       [id_column,
        Column ''email'' (String 255) None False,
        Column ''password_hash'' (String 255) None False,
        Column ''is_active'' Boolean None False,
        Column ''is_email_verified'' Boolean None False,
        Column ''created_at'' DateTime (Some now_default) False,
        Column ''updated_at'' DateTime (Some now_default) False,
        Column ''last_login_at'' DateTime None True]
       [PrimaryKeyConstraint [''id'']],
     create_index ''ix_users_email'' ''users'' [''email''] True None,
     create_table ''refresh_tokens''
       [id_column,
        Column ''user_id'' UUID None False,
        Column ''token_hash'' (String 64) None False,
        Column ''issued_at'' DateTime (Some now_default) False,
        Column ''expires_at'' DateTime None False,
        Column ''revoked_at'' DateTime None True,
        Column ''replaced_by'' UUID None True]
       [foreign_key ''refresh_tokens'' ''replaced_by'' ''refresh_tokens'' NO_ACTION,
        foreign_key ''refresh_tokens'' ''user_id'' ''users'' CASCADE,
        PrimaryKeyConstraint [''id'']],
     create_index ''ix_refresh_tokens_token_hash'' ''refresh_tokens'' [''token_hash''] False None,
     create_index ''ix_refresh_tokens_user_id'' ''refresh_tokens'' [''user_id''] False None]"

definition v2223bb675a2a_downgrade :: ddl where
  "v2223bb675a2a_downgrade = in_order [
     drop_index ''ix_refresh_tokens_user_id'',
     drop_index ''ix_refresh_tokens_token_hash'',
     drop_table ''refresh_tokens'',
     drop_index ''ix_users_email'',
     drop_table ''users'']"

section \<open>\<open>16b0325bd7db\<close>: roles and permissions\<close>

definition v16b0325bd7db_upgrade :: ddl where
  "v16b0325bd7db_upgrade = in_order [
     create_table ''permissions''
       [id_column,
        Column ''resource'' (String 100) None False,
        Column ''action'' (String 100) None False,
        Column ''description'' Text None True]
       [PrimaryKeyConstraint [''id''],
        UniqueConstraint ''uq_permissions_resource_action'' [''resource'', ''action'']],
     create_table ''roles''
       [id_column,
        Column ''name'' (String 100) None False,
        Column ''description'' Text None True,
        Column ''is_system_role'' Boolean None False,
        Column ''created_at'' DateTime (Some now_default) False]
       [PrimaryKeyConstraint [''id'']],
     create_index ''ix_roles_name'' ''roles'' [''name''] True None,
     create_table ''role_permissions''
       [Column ''role_id'' UUID None False,
        Column ''permission_id'' UUID None False]
       [foreign_key ''role_permissions'' ''permission_id'' ''permissions'' CASCADE,
        foreign_key ''role_permissions'' ''role_id'' ''roles'' CASCADE,
        PrimaryKeyConstraint [''role_id'', ''permission_id'']],
     create_table ''user_roles''
       [id_column,
        Column ''user_id'' UUID None False,
        Column ''role_id'' UUID None False,
        Column ''assigned_at'' DateTime (Some now_default) False]
       [foreign_key ''user_roles'' ''role_id'' ''roles'' CASCADE,
        foreign_key ''user_roles'' ''user_id'' ''users'' CASCADE,
        PrimaryKeyConstraint [''id''],
        UniqueConstraint ''uq_user_roles_user_role'' [''user_id'', ''role_id'']],
     create_index ''ix_user_roles_user_id'' ''user_roles'' [''user_id''] False None]"

definition v16b0325bd7db_downgrade :: ddl where
  "v16b0325bd7db_downgrade = in_order [
     drop_index ''ix_user_roles_user_id'',
     drop_table ''user_roles'',
     drop_table ''role_permissions'',
     drop_index ''ix_roles_name'',
     drop_table ''roles'',
     drop_table ''permissions'']"

section \<open>\<open>714a446f6f38\<close>: organizations\<close>

definition v714a446f6f38_upgrade :: ddl where
  "v714a446f6f38_upgrade = in_order [
     create_table ''organizations''
       [id_column,
        Column ''name'' (String 255) None False,
        Column ''created_at'' DateTime (Some now_default) False]
       [PrimaryKeyConstraint [''id'']],
     create_index ''ix_organizations_name'' ''organizations'' [''name''] True None,
     create_table ''organization_memberships''
       [id_column,
        Column ''user_id'' UUID None False,
        Column ''organization_id'' UUID None False,
        Column ''joined_at'' DateTime (Some now_default) False]
       [foreign_key ''organization_memberships'' ''organization_id'' ''organizations'' CASCADE,
        foreign_key ''organization_memberships'' ''user_id'' ''users'' CASCADE,
        PrimaryKeyConstraint [''id''],
        UniqueConstraint ''uq_org_memberships_user_org'' [''user_id'', ''organization_id'']],
     create_index ''ix_organization_memberships_organization_id'' ''organization_memberships''
       [''organization_id''] False None,
     create_index ''ix_organization_memberships_user_id'' ''organization_memberships'' [''user_id''] False None,
     add_column ''roles'' (Column ''organization_id'' UUID None True),
     create_foreign_key ''roles_organization_id_fkey'' ''roles'' ''organizations''
       [''organization_id''] [''id''] CASCADE,
     add_column ''user_roles'' (Column ''organization_id'' UUID None True),
     drop_constraint ''uq_user_roles_user_role'' ''user_roles'',
     create_index ''uq_user_roles_user_role_global'' ''user_roles'' [''user_id'', ''role_id''] True
       (Some ''organization_id IS NULL''),
     create_index ''uq_user_roles_user_role_org'' ''user_roles'' [''user_id'', ''role_id'', ''organization_id''] True
       (Some ''organization_id IS NOT NULL''),
     create_foreign_key ''user_roles_organization_id_fkey'' ''user_roles'' ''organizations''
       [''organization_id''] [''id''] CASCADE]"

definition v714a446f6f38_downgrade :: ddl where
  "v714a446f6f38_downgrade = in_order [
     drop_constraint ''user_roles_organization_id_fkey'' ''user_roles'',
     drop_index ''uq_user_roles_user_role_org'',
     drop_index ''uq_user_roles_user_role_global'',
     create_unique_constraint ''uq_user_roles_user_role'' ''user_roles'' [''user_id'', ''role_id''],
     drop_column ''user_roles'' ''organization_id'',
     drop_constraint ''roles_organization_id_fkey'' ''roles'',
     drop_column ''roles'' ''organization_id'',
     drop_index ''ix_organization_memberships_user_id'',
     drop_index ''ix_organization_memberships_organization_id'',
     drop_table ''organization_memberships'',
     drop_index ''ix_organizations_name'',
     drop_table ''organizations'']"

section \<open>\<open>06072dc71cee\<close>: the audit log\<close>

definition v06072dc71cee_upgrade :: ddl where
  "v06072dc71cee_upgrade = in_order [
     create_table ''audit_logs''
       [id_column,
        Column ''occurred_at'' DateTime (Some now_default) False,
        Column ''actor_user_id'' UUID None True,
        Column ''action'' (String 100) None False,
        Column ''target_type'' (String 100) None True,
        Column ''target_id'' UUID None True,
        Column ''organization_id'' UUID None True,
        Column ''event_metadata'' JSONB None True]
       [foreign_key ''audit_logs'' ''actor_user_id'' ''users'' SET_NULL,
        foreign_key ''audit_logs'' ''organization_id'' ''organizations'' SET_NULL,
        PrimaryKeyConstraint [''id'']],
     create_index ''ix_audit_logs_action'' ''audit_logs'' [''action''] False None,
     create_index ''ix_audit_logs_actor_user_id'' ''audit_logs'' [''actor_user_id''] False None,
     create_index ''ix_audit_logs_occurred_at'' ''audit_logs'' [''occurred_at''] False None,
     create_index ''ix_audit_logs_organization_id'' ''audit_logs'' [''organization_id''] False None]"

definition v06072dc71cee_downgrade :: ddl where
  "v06072dc71cee_downgrade = in_order [
     drop_index ''ix_audit_logs_organization_id'',
     drop_index ''ix_audit_logs_occurred_at'',
     drop_index ''ix_audit_logs_actor_user_id'',
     drop_index ''ix_audit_logs_action'',
     drop_table ''audit_logs'']"

section \<open>The chain of revisions\<close>

text \<open>Each migration file names its revision and the one it comes after.\<close>

datatype revision =
    R2223bb675a2a | R16b0325bd7db | Rca306aad2376 | R714a446f6f38 | R97122fa13dcc | R06072dc71cee | Rcbf5b83aa3f8

fun down_revision :: "revision \<Rightarrow> revision option" where
  "down_revision R2223bb675a2a = None"
| "down_revision R16b0325bd7db = Some R2223bb675a2a"
| "down_revision Rca306aad2376 = Some R16b0325bd7db"
| "down_revision R714a446f6f38 = Some Rca306aad2376"
| "down_revision R97122fa13dcc = Some R714a446f6f38"
| "down_revision R06072dc71cee = Some R97122fa13dcc"
| "down_revision Rcbf5b83aa3f8 = Some R06072dc71cee"

text \<open>
  What \<open>alembic upgrade\<close> runs to reach a revision: the revisions below it, the oldest
  first. The links are followed at most seven times, once for each file.
\<close>

fun depth :: "revision \<Rightarrow> nat" where
  "depth R2223bb675a2a = 0"
| "depth R16b0325bd7db = 1"
| "depth Rca306aad2376 = 2"
| "depth R714a446f6f38 = 3"
| "depth R97122fa13dcc = 4"
| "depth R06072dc71cee = 5"
| "depth Rcbf5b83aa3f8 = 6"

lemma depth_down_revision: "down_revision r = Some p \<Longrightarrow> depth r = Suc (depth p)"
  by (cases r) auto

function chain :: "revision \<Rightarrow> revision list" where
  "chain r = (case down_revision r of None \<Rightarrow> [r] | Some p \<Rightarrow> chain p @ [r])"
  by pat_completeness auto
termination
  by (relation "measure depth") (simp_all add: depth_down_revision)

declare chain.simps [simp del]

lemma chain_simps [simp]:
  "chain R2223bb675a2a = [R2223bb675a2a]"
  "chain R16b0325bd7db = [R2223bb675a2a, R16b0325bd7db]"
  "chain Rca306aad2376 = [R2223bb675a2a, R16b0325bd7db, Rca306aad2376]"
  "chain R714a446f6f38 = [R2223bb675a2a, R16b0325bd7db, Rca306aad2376, R714a446f6f38]"
  "chain R97122fa13dcc = [R2223bb675a2a, R16b0325bd7db, Rca306aad2376, R714a446f6f38, R97122fa13dcc]"
  "chain R06072dc71cee = [R2223bb675a2a, R16b0325bd7db, Rca306aad2376, R714a446f6f38, R97122fa13dcc, R06072dc71cee]"
  "chain Rcbf5b83aa3f8 =
    [R2223bb675a2a, R16b0325bd7db, Rca306aad2376, R714a446f6f38, R97122fa13dcc, R06072dc71cee, Rcbf5b83aa3f8]"
  by (simp_all add: chain.simps)

text \<open>Revisions are ordered by the chain, and the order is linear: there is one head.\<close>

instantiation revision :: linorder
begin

definition less_eq_revision :: "revision \<Rightarrow> revision \<Rightarrow> bool" where
  "less_eq_revision r s = (r \<in> set (chain s))"

definition less_revision :: "revision \<Rightarrow> revision \<Rightarrow> bool" where
  "less_revision r s = (r \<in> set (chain s) \<and> r \<noteq> s)"

lemma chain_depth: "r \<in> set (chain s) \<longleftrightarrow> depth r \<le> depth s"
  by (cases s; cases r) simp_all

lemma depth_inject: "depth r = depth s \<Longrightarrow> r = s"
  by (cases r; cases s) simp_all

instance
  by standard (auto simp: less_eq_revision_def less_revision_def chain_depth dest: depth_inject)

end

lemma newest_revision: "r \<le> Rcbf5b83aa3f8"
  unfolding less_eq_revision_def by (cases r) simp_all

text \<open>The schema step of a revision; the data migrations have none.\<close>

fun schema_upgrade :: "revision \<Rightarrow> ddl" where
  "schema_upgrade R2223bb675a2a = v2223bb675a2a_upgrade"
| "schema_upgrade R16b0325bd7db = v16b0325bd7db_upgrade"
| "schema_upgrade R714a446f6f38 = v714a446f6f38_upgrade"
| "schema_upgrade R06072dc71cee = v06072dc71cee_upgrade"
| "schema_upgrade _ = pure ()"

fun schema_downgrade :: "revision \<Rightarrow> ddl" where
  "schema_downgrade R2223bb675a2a = v2223bb675a2a_downgrade"
| "schema_downgrade R16b0325bd7db = v16b0325bd7db_downgrade"
| "schema_downgrade R714a446f6f38 = v714a446f6f38_downgrade"
| "schema_downgrade R06072dc71cee = v06072dc71cee_downgrade"
| "schema_downgrade _ = pure ()"

definition upgrade_to :: "revision \<Rightarrow> ddl" where
  "upgrade_to r = in_order (map schema_upgrade (chain r))"

end
