(* ===== verification/Models.thy ===== *)
theory Models
  imports Schema
begin

text \<open>
  The tables \<open>Base.metadata\<close> holds once every model of \<open>app/domain/models\<close> is
  imported: each model as its list of mapped columns, and the reading of such a list as a
  table that SQLAlchemy documents.
\<close>

section \<open>Mapped columns\<close>

record mapped_column =
  mc_name :: string
  mc_type :: sql_type
  mc_primary_key :: bool
  mc_foreign_key :: "(string \<times> ondelete) option"
  mc_nullable :: bool
  mc_unique :: bool
  mc_index :: bool
  mc_server_default :: "server_default option"

definition mapped :: "string \<Rightarrow> sql_type \<Rightarrow> mapped_column" where
  "mapped name ty = \<lparr>mc_name = name, mc_type = ty, mc_primary_key = False, mc_foreign_key = None,
     mc_nullable = False, mc_unique = False, mc_index = False, mc_server_default = None\<rparr>"

abbreviation mapped_id :: mapped_column where
  "mapped_id \<equiv> mapped ''id'' UUID \<lparr>mc_primary_key := True, mc_server_default := Some gen_random_uuid_default\<rparr>"

text \<open>
  What a declaration means: the primary key columns form the key and are not nullable,
  \<open>index=True\<close> is the index \<open>ix_<table>_<column>\<close>, unique when \<open>unique=True\<close> is given
  as well, and a \<open>ForeignKey\<close> is a constraint under PostgreSQL's own name.
\<close>

definition declared_column :: "mapped_column \<Rightarrow> column" where
  "declared_column c = Column (mc_name c) (mc_type c) (mc_server_default c) (mc_nullable c \<and> \<not> mc_primary_key c)"

definition declared_table ::
  "string \<Rightarrow> mapped_column list \<Rightarrow> table_constraint list \<Rightarrow> table_index list \<Rightarrow> string \<times> table" where
  "declared_table name cols constraints indexes = (name, \<lparr>
     tab_columns = map declared_column cols,
     tab_constraints =
       PrimaryKeyConstraint (map mc_name (filter mc_primary_key cols)) #
       concat (map (\<lambda>c. case mc_foreign_key c of
           None \<Rightarrow> [] | Some (referent, ondelete) \<Rightarrow> [foreign_key name (mc_name c) referent ondelete]) cols) @
       constraints,
     tab_indexes =
       map (\<lambda>c. \<lparr>ix_name = ''ix_'' @ name @ ''_'' @ mc_name c, ix_columns = [mc_name c],
         ix_unique = mc_unique c, ix_where = None\<rparr>) (filter mc_index cols) @
       indexes\<rparr>)"

section \<open>The models\<close>

definition User_table :: "string \<times> table" where
  "User_table = declared_table ''users''
     [mapped_id,
      mapped ''email'' (String 255) \<lparr>mc_unique := True, mc_index := True\<rparr>,
      mapped ''password_hash'' (String 255),
      mapped ''is_active'' Boolean,
      mapped ''is_email_verified'' Boolean,
      mapped ''created_at'' DateTime \<lparr>mc_server_default := Some now_default\<rparr>,
      mapped ''updated_at'' DateTime \<lparr>mc_server_default := Some now_default\<rparr>,
      mapped ''last_login_at'' DateTime \<lparr>mc_nullable := True\<rparr>] [] []"

definition RefreshToken_table :: "string \<times> table" where
  "RefreshToken_table = declared_table ''refresh_tokens''
     [mapped_id,
      mapped ''user_id'' UUID \<lparr>mc_foreign_key := Some (''users'', CASCADE), mc_index := True\<rparr>,
      mapped ''token_hash'' (String 64) \<lparr>mc_index := True\<rparr>,
      mapped ''issued_at'' DateTime \<lparr>mc_server_default := Some now_default\<rparr>,
      mapped ''expires_at'' DateTime,
      mapped ''revoked_at'' DateTime \<lparr>mc_nullable := True\<rparr>,
      mapped ''replaced_by'' UUID \<lparr>mc_foreign_key := Some (''refresh_tokens'', NO_ACTION), mc_nullable := True\<rparr>]
     [] []"

definition Role_table :: "string \<times> table" where
  "Role_table = declared_table ''roles''
     [mapped_id,
      mapped ''name'' (String 100) \<lparr>mc_unique := True, mc_index := True\<rparr>,
      mapped ''description'' Text \<lparr>mc_nullable := True\<rparr>,
      mapped ''is_system_role'' Boolean,
      mapped ''organization_id'' UUID \<lparr>mc_foreign_key := Some (''organizations'', CASCADE), mc_nullable := True\<rparr>,
      mapped ''created_at'' DateTime \<lparr>mc_server_default := Some now_default\<rparr>] [] []"

definition Permission_table :: "string \<times> table" where
  "Permission_table = declared_table ''permissions''
     [mapped_id,
      mapped ''resource'' (String 100),
      mapped ''action'' (String 100),
      mapped ''description'' Text \<lparr>mc_nullable := True\<rparr>]
     [UniqueConstraint ''uq_permissions_resource_action'' [''resource'', ''action'']] []"

definition role_permissions_table :: "string \<times> table" where
  "role_permissions_table = declared_table ''role_permissions''
     [mapped ''role_id'' UUID \<lparr>mc_primary_key := True, mc_foreign_key := Some (''roles'', CASCADE)\<rparr>,
      mapped ''permission_id'' UUID \<lparr>mc_primary_key := True, mc_foreign_key := Some (''permissions'', CASCADE)\<rparr>]
     [] []"

definition UserRole_table :: "string \<times> table" where
  "UserRole_table = declared_table ''user_roles''
     [mapped_id,
      mapped ''user_id'' UUID \<lparr>mc_foreign_key := Some (''users'', CASCADE), mc_index := True\<rparr>,
      mapped ''role_id'' UUID \<lparr>mc_foreign_key := Some (''roles'', CASCADE)\<rparr>,
      mapped ''organization_id'' UUID \<lparr>mc_foreign_key := Some (''organizations'', CASCADE), mc_nullable := True\<rparr>,
      mapped ''assigned_at'' DateTime \<lparr>mc_server_default := Some now_default\<rparr>]
     []
     [\<lparr>ix_name = ''uq_user_roles_user_role_global'', ix_columns = [''user_id'', ''role_id''],
       ix_unique = True, ix_where = Some ''organization_id IS NULL''\<rparr>,
      \<lparr>ix_name = ''uq_user_roles_user_role_org'', ix_columns = [''user_id'', ''role_id'', ''organization_id''],
       ix_unique = True, ix_where = Some ''organization_id IS NOT NULL''\<rparr>]"

definition Organization_table :: "string \<times> table" where
  "Organization_table = declared_table ''organizations''
     [mapped_id,
      mapped ''name'' (String 255) \<lparr>mc_unique := True, mc_index := True\<rparr>,
      mapped ''created_at'' DateTime \<lparr>mc_server_default := Some now_default\<rparr>] [] []"

definition OrganizationMembership_table :: "string \<times> table" where
  "OrganizationMembership_table = declared_table ''organization_memberships''
     [mapped_id,
      mapped ''user_id'' UUID \<lparr>mc_foreign_key := Some (''users'', CASCADE), mc_index := True\<rparr>,
      mapped ''organization_id'' UUID \<lparr>mc_foreign_key := Some (''organizations'', CASCADE), mc_index := True\<rparr>,
      mapped ''joined_at'' DateTime \<lparr>mc_server_default := Some now_default\<rparr>]
     [UniqueConstraint ''uq_org_memberships_user_org'' [''user_id'', ''organization_id'']] []"

definition AuditLog_table :: "string \<times> table" where
  "AuditLog_table = declared_table ''audit_logs''
     [mapped_id,
      mapped ''occurred_at'' DateTime \<lparr>mc_index := True, mc_server_default := Some now_default\<rparr>,
      mapped ''actor_user_id'' UUID
        \<lparr>mc_foreign_key := Some (''users'', SET_NULL), mc_nullable := True, mc_index := True\<rparr>,
      mapped ''action'' (String 100) \<lparr>mc_index := True\<rparr>,
      mapped ''target_type'' (String 100) \<lparr>mc_nullable := True\<rparr>,
      mapped ''target_id'' UUID \<lparr>mc_nullable := True\<rparr>,
      mapped ''organization_id'' UUID
        \<lparr>mc_foreign_key := Some (''organizations'', SET_NULL), mc_nullable := True, mc_index := True\<rparr>,
      mapped ''event_metadata'' JSONB \<lparr>mc_nullable := True\<rparr>] [] []"

definition metadata :: schema where
  "metadata = [User_table, RefreshToken_table, Role_table, Permission_table, role_permissions_table,
     UserRole_table, Organization_table, OrganizationMembership_table, AuditLog_table]"

end
