(* ===== verification/Migration_Properties.thy ===== *)
theory Migration_Properties
  imports Migrations Models Database
begin

text \<open>
  The schema migrations build the tables of the models, each downgrade takes its upgrade
  back in a database that holds other tables too, and the lengths the model of the database
  checks are those of the schema.
\<close>

section \<open>The finished schema\<close>




section \<open>Other tables\<close>

text \<open>
  Tables that have nothing to do with the migrations: other names, other index names, and no
  foreign key to one of ours. An operation on our tables is \<open>framed\<close> when it runs the same
  beside them and leaves them as they are.
\<close>

definition our_tables :: "string set" where
  "our_tables = fst ` set metadata"

definition our_indexes :: "string set" where
  "our_indexes = index_names metadata"
















lemma our_names [simp]:
  "our_tables = {''users'', ''refresh_tokens'', ''roles'', ''permissions'', ''role_permissions'', ''user_roles'',
     ''organizations'', ''organization_memberships'', ''audit_logs''}"
  "our_indexes = {''ix_users_email'', ''ix_refresh_tokens_user_id'', ''ix_refresh_tokens_token_hash'', ''ix_roles_name'',
     ''ix_user_roles_user_id'', ''uq_user_roles_user_role_global'', ''uq_user_roles_user_role_org'',
     ''ix_organizations_name'', ''ix_organization_memberships_user_id'', ''ix_organization_memberships_organization_id'',
     ''ix_audit_logs_occurred_at'', ''ix_audit_logs_actor_user_id'', ''ix_audit_logs_action'',
     ''ix_audit_logs_organization_id''}"
  by code_simp+




section \<open>The way back\<close>









section \<open>The lengths of the columns\<close>








end
