(* ===== verification/Schemas.thy ===== *)
theory Schemas
  imports Api
begin

text \<open>
  The HTTP contract of \<open>src/app/api/v1/schemas\<close>: the request and response models as data,
  what it means for a value to have a declared type, and the validation that turns a value
  into one of that type or rejects it.
\<close>

section \<open>Values and declared types\<close>

text \<open>Python values as they enter and leave the models; \<open>VOther\<close> stands for any other object.\<close>

datatype pyval =
    VNone
  | VBool bool
  | VInt int
  | VStr string
  | VUuid uuid
  | VTime datetime
  | VOther string
  | VList "pyval list"
  | VDict "(string \<times> pyval) list"

text \<open>
  The annotations of the models. A field has a name, a type and a default; without a default it
  is required.
\<close>

datatype field_type =
    TStr
  | TEmail
  | TText nat
  | TUuid
  | TTime
  | TBool
  | TInt
  | TAtLeast int
  | TBetween int int
  | TDict
  | TOptional field_type
  | TList field_type
  | TModel "(string \<times> field_type \<times> pyval option) list"

type_synonym schema = "(string \<times> field_type \<times> pyval option) list"

definition required :: "string \<Rightarrow> field_type \<Rightarrow> string \<times> field_type \<times> pyval option" where
  "required name t = (name, t, None)"

definition optional :: "string \<Rightarrow> field_type \<Rightarrow> string \<times> field_type \<times> pyval option" where
  "optional name t = (name, TOptional t, Some VNone)"

definition default :: "string \<Rightarrow> field_type \<Rightarrow> pyval \<Rightarrow> string \<times> field_type \<times> pyval option" where
  "default name t v = (name, t, Some v)"

lemmas field_defs = required_def optional_def default_def

fun is_a :: "field_type \<Rightarrow> pyval \<Rightarrow> bool" where
  "is_a TStr (VStr _) = True"
| "is_a TUuid (VUuid _) = True"
| "is_a TTime (VTime _) = True"
| "is_a TBool (VBool _) = True"
| "is_a TInt (VInt _) = True"
| "is_a TDict (VDict _) = True"
| "is_a _ _ = False"

lemma is_a_iff:
  "is_a TStr v = (\<exists>s. v = VStr s)" "is_a TUuid v = (\<exists>u. v = VUuid u)"
  "is_a TTime v = (\<exists>t. v = VTime t)" "is_a TBool v = (\<exists>b. v = VBool b)"
  "is_a TInt v = (\<exists>i. v = VInt i)" "is_a TDict v = (\<exists>d. v = VDict d)"
  by (cases v; simp)+

text \<open>A value has a declared type; a model holds exactly the declared fields, in their order.\<close>

fun has_type :: "field_type \<Rightarrow> pyval \<Rightarrow> bool"
  and has_fields :: "schema \<Rightarrow> (string \<times> pyval) list \<Rightarrow> bool" where
  "has_type (TOptional t) v = (v = VNone \<or> has_type t v)"
| "has_type (TList t) v = (case v of VList vs \<Rightarrow> list_all (has_type t) vs | _ \<Rightarrow> False)"
| "has_type (TModel fs) v = (case v of VDict d \<Rightarrow> has_fields fs d | _ \<Rightarrow> False)"
| "has_type TEmail v = is_a TStr v"
| "has_type (TText n) v = (case v of VStr s \<Rightarrow> n \<le> length s | _ \<Rightarrow> False)"
| "has_type (TAtLeast lo) v = (case v of VInt i \<Rightarrow> lo \<le> i | _ \<Rightarrow> False)"
| "has_type (TBetween lo hi) v = (case v of VInt i \<Rightarrow> lo \<le> i \<and> i \<le> hi | _ \<Rightarrow> False)"
| "has_type t v = is_a t v"
| "has_fields [] d = (d = [])"
| "has_fields ((name, t, v) # fs) d =
     (case d of [] \<Rightarrow> False | (n, x) # rest \<Rightarrow> n = name \<and> has_type t x \<and> has_fields fs rest)"

section \<open>Validation\<close>

text \<open>
  A value that already is of a plain type passes as it is. Others go through pydantic's
  conversions, which are not part of the repository: the argument \<open>C\<close> says what a value
  becomes, if anything. Fields are read by name, the last of two equal names counts, names that
  are not declared are ignored, and a field that is absent takes its default.
\<close>

type_synonym conversion = "field_type \<Rightarrow> pyval \<Rightarrow> pyval option"

definition convert :: "conversion \<Rightarrow> field_type \<Rightarrow> pyval \<Rightarrow> pyval option" where
  "convert C t v =
     (if is_a t v then Some v
      else case C t v of None \<Rightarrow> None | Some x \<Rightarrow> if is_a t x then Some x else None)"

definition email_value :: "env \<Rightarrow> pyval \<Rightarrow> pyval option" where
  "email_value X v = (case v of
     VStr s \<Rightarrow> if email_str X s = None then None else Some v
   | _ \<Rightarrow> None)"

definition text_value :: "nat \<Rightarrow> pyval \<Rightarrow> pyval option" where
  "text_value n v = (case v of VStr s \<Rightarrow> if n \<le> length s then Some v else None | _ \<Rightarrow> None)"

definition int_value :: "(int \<Rightarrow> bool) \<Rightarrow> pyval \<Rightarrow> pyval option" where
  "int_value P v = (case v of VInt i \<Rightarrow> if P i then Some v else None | _ \<Rightarrow> None)"

fun validate :: "conversion \<Rightarrow> env \<Rightarrow> field_type \<Rightarrow> pyval \<Rightarrow> pyval option"
  and validate_fields ::
    "conversion \<Rightarrow> env \<Rightarrow> schema \<Rightarrow> (string \<times> pyval) list \<Rightarrow> (string \<times> pyval) list option" where
  "validate C X (TOptional t) v = (if v = VNone then Some VNone else validate C X t v)"
| "validate C X (TList t) v =
     (case v of VList vs \<Rightarrow> map_option VList (those (map (validate C X t) vs)) | _ \<Rightarrow> None)"
| "validate C X (TModel fs) v =
     (case v of VDict d \<Rightarrow> map_option VDict (validate_fields C X fs d) | _ \<Rightarrow> None)"
| "validate C X TEmail v = Option.bind (convert C TStr v) (email_value X)"
| "validate C X (TText n) v = Option.bind (convert C TStr v) (text_value n)"
| "validate C X (TAtLeast lo) v = Option.bind (convert C TInt v) (int_value (\<lambda>i. lo \<le> i))"
| "validate C X (TBetween lo hi) v =
     Option.bind (convert C TInt v) (int_value (\<lambda>i. lo \<le> i \<and> i \<le> hi))"
| "validate C X t v = convert C t v"
| "validate_fields C X [] d = Some []"
| "validate_fields C X ((name, t, v) # fs) d =
     Option.bind (case map_of (rev d) name of None \<Rightarrow> v | Some x \<Rightarrow> validate C X t x) (\<lambda>x.
     Option.bind (validate_fields C X fs d) (\<lambda>rest. Some ((name, x) # rest)))"

text \<open>The defaults of a model have the types of their fields.\<close>

fun well_formed :: "field_type \<Rightarrow> bool"
  and well_formed_fields :: "schema \<Rightarrow> bool" where
  "well_formed (TOptional t) = well_formed t"
| "well_formed (TList t) = well_formed t"
| "well_formed (TModel fs) = well_formed_fields fs"
| "well_formed _ = True"
| "well_formed_fields [] = True"
| "well_formed_fields ((name, t, v) # fs) =
     (well_formed t \<and> (case v of None \<Rightarrow> True | Some x \<Rightarrow> has_type t x) \<and> well_formed_fields fs)"

lemma convert_is_a: "convert C t v = Some x \<Longrightarrow> is_a t x"
  by (auto simp: convert_def split: if_splits option.splits)

lemma convert_same [simp]:
  "convert C TStr (VStr s) = Some (VStr s)" "convert C TUuid (VUuid u) = Some (VUuid u)"
  "convert C TTime (VTime i) = Some (VTime i)" "convert C TBool (VBool b) = Some (VBool b)"
  "convert C TInt (VInt n) = Some (VInt n)" "convert C TDict (VDict d) = Some (VDict d)"
  by (simp_all add: convert_def)

lemma those_all:
  "those (map f xs) = Some ys \<Longrightarrow> (\<And>x y. x \<in> set xs \<Longrightarrow> f x = Some y \<Longrightarrow> P y) \<Longrightarrow> list_all P ys"
proof (induction xs arbitrary: ys)
  case (Cons x xs)
  from Cons.prems(1) obtain y zs where y: "f x = Some y" "those (map f xs) = Some zs" "ys = y # zs"
    by (auto split: option.splits)
  have "list_all P zs" by (rule Cons.IH [OF y(2)], rule Cons.prems(2)) simp_all
  moreover have "P y" by (rule Cons.prems(2) [OF _ y(1)]) simp
  ultimately show ?case by (simp add: y(3))
qed simp

lemma leaf_typed:
  "email_value X v = Some x \<Longrightarrow> has_type TEmail x"
  "text_value n v = Some x \<Longrightarrow> has_type (TText n) x"
  "int_value (\<lambda>i. lo \<le> i) v = Some x \<Longrightarrow> has_type (TAtLeast lo) x"
  "int_value (\<lambda>i. lo \<le> i \<and> i \<le> hi) v = Some x \<Longrightarrow> has_type (TBetween lo hi) x"
  by (cases v; auto simp: email_value_def text_value_def int_value_def split: if_splits)+

text \<open>What validation lets through has the declared type.\<close>

lemma validate_typed:
  "well_formed t \<Longrightarrow> validate C X t v = Some x \<Longrightarrow> has_type t x"
  "well_formed_fields fs \<Longrightarrow> validate_fields C X fs d = Some ys \<Longrightarrow> has_fields fs ys"
proof (induction C X t v and C X fs d arbitrary: x and ys rule: validate_validate_fields.induct)
  case (2 C X t v)
  then show ?case by (auto split: pyval.splits intro: those_all)
qed (auto simp: bind_eq_Some_conv simp del: has_type.simps(4-7) dest: leaf_typed convert_is_a
      split: if_splits pyval.splits option.splits)

lemma has_fields_names: "has_fields fs d \<Longrightarrow> map fst d = map fst fs"
  by (induction fs arbitrary: d) (auto split: list.splits)

section \<open>Request models\<close>

text \<open>\<open>src/app/api/v1/schemas/auth.py\<close>\<close>

definition RegisterRequest :: field_type where
  "RegisterRequest = TModel [required ''email'' TEmail, required ''password'' (TText 10)]"

definition LoginRequest :: field_type where
  "LoginRequest = TModel [required ''email'' TEmail, required ''password'' TStr]"

definition RefreshRequest :: field_type where
  "RefreshRequest = TModel [required ''refresh_token'' TStr]"

definition LogoutRequest :: field_type where
  "LogoutRequest = TModel [required ''refresh_token'' TStr]"

text \<open>\<open>src/app/api/v1/schemas/authorization.py\<close>\<close>

definition AuthorizeRequest :: field_type where
  "AuthorizeRequest = TModel
     [required ''resource'' TStr, required ''action'' TStr, optional ''organization_id'' TUuid]"

definition CreateRoleRequest :: field_type where
  "CreateRoleRequest = TModel
     [required ''name'' TStr, optional ''description'' TStr, optional ''organization_id'' TUuid]"

definition AssignPermissionRequest :: field_type where
  "AssignPermissionRequest = TModel [required ''permission_id'' TUuid]"

definition AssignRoleRequest :: field_type where
  "AssignRoleRequest = TModel [required ''role_id'' TUuid, optional ''organization_id'' TUuid]"

text \<open>\<open>src/app/api/v1/schemas/organization.py\<close>\<close>

definition CreateOrganizationRequest :: field_type where
  "CreateOrganizationRequest = TModel [required ''name'' TStr]"

definition AddMemberRequest :: field_type where
  "AddMemberRequest = TModel [required ''user_id'' TUuid]"

lemmas request_models = RegisterRequest_def LoginRequest_def RefreshRequest_def LogoutRequest_def
  AuthorizeRequest_def CreateRoleRequest_def AssignPermissionRequest_def AssignRoleRequest_def
  CreateOrganizationRequest_def AddMemberRequest_def

section \<open>Response models\<close>

definition RegisterResponse :: field_type where
  "RegisterResponse = TModel
     [required ''id'' TUuid, required ''email'' TStr, required ''created_at'' TTime]"

definition TokenResponse :: field_type where
  "TokenResponse = TModel
     [required ''access_token'' TStr, required ''refresh_token'' TStr,
      default ''token_type'' TStr (VStr ''bearer''), required ''expires_in'' TInt]"

definition AuthorizeResponse :: field_type where
  "AuthorizeResponse = TModel
     [required ''allowed'' TBool, required ''resource'' TStr, required ''action'' TStr,
      optional ''organization_id'' TUuid]"

definition RoleResponse :: field_type where
  "RoleResponse = TModel
     [required ''id'' TUuid, required ''name'' TStr, optional ''description'' TStr,
      required ''is_system_role'' TBool, optional ''organization_id'' TUuid]"

definition PermissionResponse :: field_type where
  "PermissionResponse = TModel
     [required ''id'' TUuid, required ''resource'' TStr, required ''action'' TStr,
      optional ''description'' TStr]"

definition OrganizationResponse :: field_type where
  "OrganizationResponse = TModel
     [required ''id'' TUuid, required ''name'' TStr, required ''created_at'' TTime]"

definition OrganizationMemberResponse :: field_type where
  "OrganizationMemberResponse = TModel
     [required ''user_id'' TUuid, required ''email'' TStr, required ''joined_at'' TTime]"

definition AuditLogEntryResponse :: field_type where
  "AuditLogEntryResponse = TModel
     [required ''id'' TUuid, required ''occurred_at'' TTime, optional ''actor_user_id'' TUuid,
      required ''action'' TStr, optional ''target_type'' TStr, optional ''target_id'' TUuid,
      optional ''organization_id'' TUuid, optional ''event_metadata'' TDict]"

definition AuditLogPageResponse :: field_type where
  "AuditLogPageResponse = TModel
     [required ''events'' (TList AuditLogEntryResponse), required ''total'' TInt,
      required ''limit'' TInt, required ''offset'' TInt]"

lemmas response_models = RegisterResponse_def TokenResponse_def AuthorizeResponse_def
  RoleResponse_def PermissionResponse_def OrganizationResponse_def OrganizationMemberResponse_def
  AuditLogEntryResponse_def AuditLogPageResponse_def

section \<open>What the services return, as dictionaries\<close>

text \<open>\<open>model_dump()\<close> of the return types of \<open>src/app/domain/schemas\<close>.\<close>

definition opt_value :: "('a \<Rightarrow> pyval) \<Rightarrow> 'a option \<Rightarrow> pyval" where
  "opt_value f x = (case x of None \<Rightarrow> VNone | Some y \<Rightarrow> f y)"

fun json_value :: "json \<Rightarrow> pyval" where
  "json_value (JStr s) = VStr s"
| "json_value (JBool b) = VBool b"
| "json_value (JInt i) = VInt i"
| "json_value JNull = VNone"

definition dict_value :: "dict \<Rightarrow> pyval" where
  "dict_value d = VDict (map (\<lambda>(k, v). (k, json_value v)) d)"

definition register_dump :: "register_response \<Rightarrow> pyval" where
  "register_dump r = VDict
     [(''id'', VUuid (reg_id r)), (''email'', VStr (reg_email r)),
      (''created_at'', VTime (reg_created_at r))]"

definition token_dump :: "token_response \<Rightarrow> pyval" where
  "token_dump r = VDict
     [(''access_token'', VStr (resp_access_token r)), (''refresh_token'', VStr (resp_refresh_token r)),
      (''token_type'', VStr (resp_token_type r)), (''expires_in'', VInt (resp_expires_in r))]"

definition decision_dump :: "authorization_decision \<Rightarrow> pyval" where
  "decision_dump r = VDict
     [(''allowed'', VBool (dec_allowed r)), (''resource'', VStr (dec_resource r)),
      (''action'', VStr (dec_action r)),
      (''organization_id'', opt_value VUuid (dec_organization_id r))]"

definition role_dump :: "role_response \<Rightarrow> pyval" where
  "role_dump r = VDict
     [(''id'', VUuid (rresp_id r)), (''name'', VStr (rresp_name r)),
      (''description'', opt_value VStr (rresp_description r)),
      (''is_system_role'', VBool (rresp_is_system_role r)),
      (''organization_id'', opt_value VUuid (rresp_organization_id r))]"

definition permission_dump :: "permission_response \<Rightarrow> pyval" where
  "permission_dump r = VDict
     [(''id'', VUuid (presp_id r)), (''resource'', VStr (presp_resource r)),
      (''action'', VStr (presp_action r)), (''description'', opt_value VStr (presp_description r))]"

definition organization_dump :: "organization_response \<Rightarrow> pyval" where
  "organization_dump r = VDict
     [(''id'', VUuid (oresp_id r)), (''name'', VStr (oresp_name r)),
      (''created_at'', VTime (oresp_created_at r))]"

definition member_dump :: "member_row \<Rightarrow> pyval" where
  "member_dump r = VDict
     [(''user_id'', VUuid (member_user_id r)), (''email'', VStr (member_email r)),
      (''joined_at'', VTime (member_joined_at r))]"

definition entry_dump :: "audit_log \<Rightarrow> pyval" where
  "entry_dump r = VDict
     [(''id'', VUuid (log_id r)), (''occurred_at'', VTime (log_occurred_at r)),
      (''actor_user_id'', opt_value VUuid (log_actor_user_id r)), (''action'', VStr (log_action r)),
      (''target_type'', opt_value VStr (log_target_type r)),
      (''target_id'', opt_value VUuid (log_target_id r)),
      (''organization_id'', opt_value VUuid (log_organization_id r)),
      (''event_metadata'', opt_value dict_value (log_event_metadata r))]"

definition page_dump :: "audit_log_page \<Rightarrow> pyval" where
  "page_dump r = VDict
     [(''events'', VList (map entry_dump (page_events r))), (''total'', VInt (page_total r)),
      (''limit'', VInt (page_limit r)), (''offset'', VInt (page_offset r))]"

text \<open>The value a handler passes on; a 204 and a value that is no model have none of these.\<close>

fun body_dump :: "body \<Rightarrow> pyval" where
  "body_dump EmptyBody = VNone"
| "body_dump HealthBody = VDict [(''status'', VStr ''ok'')]"
| "body_dump (RegisterBody r) = register_dump r"
| "body_dump (TokenBody r) = token_dump r"
| "body_dump (DecisionBody r) = decision_dump r"
| "body_dump (RoleBody r) = role_dump r"
| "body_dump (PermissionsBody rs) = VList (map permission_dump rs)"
| "body_dump (OrganizationBody r) = organization_dump r"
| "body_dump (OrganizationsBody rs) = VList (map organization_dump rs)"
| "body_dump (MembersBody rs) = VList (map member_dump rs)"
| "body_dump (AuditPageBody r) = page_dump r"

end
