(* ===== verification/Http.thy ===== *)
theory Http
  imports Schemas Requests
begin

text \<open>
  The routes as the routers declare them, and what becomes of an HTTP request: the router
  picks the route, the declared types are enforced on path, query and body, the handler runs
  (\<open>dispatch\<close>) and its value goes through the response model. A handler's arguments are two
  dictionaries, the path and query parameters and the fields of the body.
\<close>

section \<open>Declared routes\<close>

datatype segment = Lit string | Param string

datatype access = Anyone | Caller | Holder string string

type_synonym args = "(string \<times> pyval) list"

record endpoint =
  ep_verb :: string
  ep_path :: "segment list"
  ep_params :: schema
  ep_query :: schema
  ep_body :: "field_type option"
  ep_access :: access
  ep_status :: nat
  ep_response :: "field_type option"
  ep_call :: "args \<Rightarrow> args \<Rightarrow> request option"

text \<open>An attribute the handler reads; \<open>None\<close> when it is absent or of another type.\<close>

definition str_arg :: "args \<Rightarrow> string \<Rightarrow> string option" where
  "str_arg a name = (case map_of a name of Some (VStr s) \<Rightarrow> Some s | _ \<Rightarrow> None)"

definition uuid_arg :: "args \<Rightarrow> string \<Rightarrow> uuid option" where
  "uuid_arg a name = (case map_of a name of Some (VUuid u) \<Rightarrow> Some u | _ \<Rightarrow> None)"

definition int_arg :: "args \<Rightarrow> string \<Rightarrow> int option" where
  "int_arg a name = (case map_of a name of Some (VInt i) \<Rightarrow> Some i | _ \<Rightarrow> None)"

definition opt_str_arg :: "args \<Rightarrow> string \<Rightarrow> string option option" where
  "opt_str_arg a name =
     (case map_of a name of Some VNone \<Rightarrow> Some None | Some (VStr s) \<Rightarrow> Some (Some s) | _ \<Rightarrow> None)"

definition opt_uuid_arg :: "args \<Rightarrow> string \<Rightarrow> uuid option option" where
  "opt_uuid_arg a name =
     (case map_of a name of Some VNone \<Rightarrow> Some None | Some (VUuid u) \<Rightarrow> Some (Some u) | _ \<Rightarrow> None)"

lemmas arg_defs = str_arg_def uuid_arg_def int_arg_def opt_str_arg_def opt_uuid_arg_def

text \<open>Shapes shared by the routes: a plain route without parameters, made specific below.\<close>

definition route :: "string \<Rightarrow> segment list \<Rightarrow> access \<Rightarrow> (args \<Rightarrow> args \<Rightarrow> request option) \<Rightarrow> endpoint" where
  "route verb path access call =
     \<lparr>ep_verb = verb, ep_path = path, ep_params = [], ep_query = [], ep_body = None,
      ep_access = access, ep_status = 200, ep_response = None, ep_call = call\<rparr>"

subsection \<open>\<open>app/api/v1/auth.py\<close>\<close>

definition register_endpoint :: endpoint where
  "register_endpoint =
     (route ''POST'' [Lit ''v1'', Lit ''auth'', Lit ''register''] Anyone
       (\<lambda>p b. Option.bind (str_arg b ''email'') (\<lambda>email.
              Option.bind (str_arg b ''password'') (\<lambda>password. Some (Register email password)))))
     \<lparr>ep_body := Some RegisterRequest, ep_status := 201, ep_response := Some RegisterResponse\<rparr>"

definition login_endpoint :: endpoint where
  "login_endpoint =
     (route ''POST'' [Lit ''v1'', Lit ''auth'', Lit ''login''] Anyone
       (\<lambda>p b. Option.bind (str_arg b ''email'') (\<lambda>email.
              Option.bind (str_arg b ''password'') (\<lambda>password. Some (Login email password)))))
     \<lparr>ep_body := Some LoginRequest, ep_response := Some TokenResponse\<rparr>"

definition refresh_endpoint :: endpoint where
  "refresh_endpoint =
     (route ''POST'' [Lit ''v1'', Lit ''auth'', Lit ''refresh''] Anyone
       (\<lambda>p b. map_option Refresh (str_arg b ''refresh_token'')))
     \<lparr>ep_body := Some RefreshRequest, ep_response := Some TokenResponse\<rparr>"

definition logout_endpoint :: endpoint where
  "logout_endpoint =
     (route ''POST'' [Lit ''v1'', Lit ''auth'', Lit ''logout''] Anyone
       (\<lambda>p b. map_option Logout (str_arg b ''refresh_token'')))
     \<lparr>ep_body := Some LogoutRequest, ep_status := 204\<rparr>"

subsection \<open>\<open>app/api/v1/authorize.py\<close>\<close>

definition authorize_endpoint :: endpoint where
  "authorize_endpoint =
     (route ''POST'' [Lit ''v1'', Lit ''authorize''] Caller
       (\<lambda>p b. Option.bind (str_arg b ''resource'') (\<lambda>resource.
              Option.bind (str_arg b ''action'') (\<lambda>action.
              map_option (Authorize resource action) (opt_uuid_arg b ''organization_id'')))))
     \<lparr>ep_body := Some AuthorizeRequest, ep_response := Some AuthorizeResponse\<rparr>"

definition create_role_endpoint :: endpoint where
  "create_role_endpoint =
     (route ''POST'' [Lit ''v1'', Lit ''roles''] (Holder ''role'' ''manage'')
       (\<lambda>p b. Option.bind (str_arg b ''name'') (\<lambda>name.
              Option.bind (opt_str_arg b ''description'') (\<lambda>description.
              map_option (CreateRole name description) (opt_uuid_arg b ''organization_id'')))))
     \<lparr>ep_body := Some CreateRoleRequest, ep_status := 201, ep_response := Some RoleResponse\<rparr>"

definition assign_permission_endpoint :: endpoint where
  "assign_permission_endpoint =
     (route ''POST'' [Lit ''v1'', Lit ''roles'', Param ''role_id'', Lit ''permissions'']
       (Holder ''role'' ''manage'')
       (\<lambda>p b. Option.bind (uuid_arg p ''role_id'') (\<lambda>i.
              map_option (AssignPermission i) (uuid_arg b ''permission_id''))))
     \<lparr>ep_params := [required ''role_id'' TUuid], ep_body := Some AssignPermissionRequest,
      ep_status := 204\<rparr>"

definition remove_permission_endpoint :: endpoint where
  "remove_permission_endpoint =
     (route ''DELETE''
       [Lit ''v1'', Lit ''roles'', Param ''role_id'', Lit ''permissions'', Param ''permission_id'']
       (Holder ''role'' ''manage'')
       (\<lambda>p b. Option.bind (uuid_arg p ''role_id'') (\<lambda>i.
              map_option (RemovePermission i) (uuid_arg p ''permission_id''))))
     \<lparr>ep_params := [required ''role_id'' TUuid, required ''permission_id'' TUuid], ep_status := 204\<rparr>"

definition my_permissions_endpoint :: endpoint where
  "my_permissions_endpoint =
     (route ''GET'' [Lit ''v1'', Lit ''users'', Lit ''me'', Lit ''permissions''] Caller
       (\<lambda>p b. map_option MyPermissions (opt_uuid_arg p ''organization_id'')))
     \<lparr>ep_query := [optional ''organization_id'' TUuid],
      ep_response := Some (TList PermissionResponse)\<rparr>"

definition assign_role_endpoint :: endpoint where
  "assign_role_endpoint =
     (route ''POST'' [Lit ''v1'', Lit ''users'', Param ''user_id'', Lit ''roles'']
       (Holder ''user'' ''manage'')
       (\<lambda>p b. Option.bind (uuid_arg p ''user_id'') (\<lambda>u.
              Option.bind (uuid_arg b ''role_id'') (\<lambda>i.
              map_option (AssignRole u i) (opt_uuid_arg b ''organization_id'')))))
     \<lparr>ep_params := [required ''user_id'' TUuid], ep_body := Some AssignRoleRequest,
      ep_status := 204\<rparr>"

definition revoke_role_endpoint :: endpoint where
  "revoke_role_endpoint =
     (route ''DELETE'' [Lit ''v1'', Lit ''users'', Param ''user_id'', Lit ''roles'', Param ''role_id'']
       (Holder ''user'' ''manage'')
       (\<lambda>p b. Option.bind (uuid_arg p ''user_id'') (\<lambda>u.
              Option.bind (uuid_arg p ''role_id'') (\<lambda>i.
              map_option (RevokeRole u i) (opt_uuid_arg p ''organization_id'')))))
     \<lparr>ep_params := [required ''user_id'' TUuid, required ''role_id'' TUuid],
      ep_query := [optional ''organization_id'' TUuid], ep_status := 204\<rparr>"

definition user_permissions_endpoint :: endpoint where
  "user_permissions_endpoint =
     (route ''GET'' [Lit ''v1'', Lit ''users'', Param ''user_id'', Lit ''permissions'']
       (Holder ''user'' ''manage'')
       (\<lambda>p b. Option.bind (uuid_arg p ''user_id'') (\<lambda>u.
              map_option (UserPermissions u) (opt_uuid_arg p ''organization_id''))))
     \<lparr>ep_params := [required ''user_id'' TUuid], ep_query := [optional ''organization_id'' TUuid],
      ep_response := Some (TList PermissionResponse)\<rparr>"

subsection \<open>\<open>app/api/v1/organizations.py\<close> and \<open>app/api/v1/audit.py\<close>\<close>

definition create_organization_endpoint :: endpoint where
  "create_organization_endpoint =
     (route ''POST'' [Lit ''v1'', Lit ''organizations''] (Holder ''organization'' ''manage'')
       (\<lambda>p b. map_option CreateOrganization (str_arg b ''name'')))
     \<lparr>ep_body := Some CreateOrganizationRequest, ep_status := 201,
      ep_response := Some OrganizationResponse\<rparr>"

definition add_member_endpoint :: endpoint where
  "add_member_endpoint =
     (route ''POST''
       [Lit ''v1'', Lit ''organizations'', Param ''organization_id'', Lit ''members'']
       (Holder ''organization'' ''manage'')
       (\<lambda>p b. Option.bind (uuid_arg p ''organization_id'') (\<lambda>g.
              map_option (AddMember g) (uuid_arg b ''user_id''))))
     \<lparr>ep_params := [required ''organization_id'' TUuid], ep_body := Some AddMemberRequest,
      ep_status := 204\<rparr>"

definition remove_member_endpoint :: endpoint where
  "remove_member_endpoint =
     (route ''DELETE''
       [Lit ''v1'', Lit ''organizations'', Param ''organization_id'', Lit ''members'', Param ''user_id'']
       (Holder ''organization'' ''manage'')
       (\<lambda>p b. Option.bind (uuid_arg p ''organization_id'') (\<lambda>g.
              map_option (RemoveMember g) (uuid_arg p ''user_id''))))
     \<lparr>ep_params := [required ''organization_id'' TUuid, required ''user_id'' TUuid],
      ep_status := 204\<rparr>"

definition list_members_endpoint :: endpoint where
  "list_members_endpoint =
     (route ''GET''
       [Lit ''v1'', Lit ''organizations'', Param ''organization_id'', Lit ''members'']
       (Holder ''organization'' ''manage'')
       (\<lambda>p b. map_option ListMembers (uuid_arg p ''organization_id'')))
     \<lparr>ep_params := [required ''organization_id'' TUuid],
      ep_response := Some (TList OrganizationMemberResponse)\<rparr>"

definition my_organizations_endpoint :: endpoint where
  "my_organizations_endpoint =
     (route ''GET'' [Lit ''v1'', Lit ''users'', Lit ''me'', Lit ''organizations''] Caller
       (\<lambda>p b. Some MyOrganizations))
     \<lparr>ep_response := Some (TList OrganizationResponse)\<rparr>"

definition audit_logs_endpoint :: endpoint where
  "audit_logs_endpoint =
     (route ''GET'' [Lit ''v1'', Lit ''audit-logs''] (Holder ''audit'' ''view'')
       (\<lambda>p b. Option.bind (opt_uuid_arg p ''organization_id'') (\<lambda>g.
              Option.bind (opt_uuid_arg p ''actor_user_id'') (\<lambda>u.
              Option.bind (opt_str_arg p ''action'') (\<lambda>a.
              Option.bind (int_arg p ''limit'') (\<lambda>l.
              Option.bind (int_arg p ''offset'') (\<lambda>off.
              Some (ListAuditLogs g u a (Some l) (Some off)))))))))
     \<lparr>ep_query :=
        [optional ''organization_id'' TUuid, optional ''actor_user_id'' TUuid,
         optional ''action'' TStr, default ''limit'' (TBetween 1 200) (VInt 50),
         default ''offset'' (TAtLeast 0) (VInt 0)],
      ep_response := Some AuditLogPageResponse\<rparr>"

text \<open>\<open>app/main.py\<close>: the health check, and the routes in the order they are registered in.\<close>

definition health_endpoint :: endpoint where
  "health_endpoint =
     (route ''GET'' [Lit ''health''] Anyone (\<lambda>p b. Some Health)) \<lparr>ep_response := Some TDict\<rparr>"

definition auth_router :: "endpoint list" where
  "auth_router = [register_endpoint, login_endpoint, refresh_endpoint, logout_endpoint]"

definition authorize_router :: "endpoint list" where
  "authorize_router =
     [authorize_endpoint, create_role_endpoint, assign_permission_endpoint,
      remove_permission_endpoint, my_permissions_endpoint, assign_role_endpoint,
      revoke_role_endpoint, user_permissions_endpoint]"

definition organizations_router :: "endpoint list" where
  "organizations_router =
     [create_organization_endpoint, add_member_endpoint, remove_member_endpoint,
      list_members_endpoint, my_organizations_endpoint]"

definition audit_router :: "endpoint list" where
  "audit_router = [audit_logs_endpoint]"

definition app_routes :: "endpoint list" where
  "app_routes = auth_router @ authorize_router @ organizations_router @ audit_router @ [health_endpoint]"

section \<open>Serving an HTTP request\<close>

text \<open>
  A body is absent or not JSON (\<open>NoJson\<close>), bytes that cannot be decoded, text that is not
  valid JSON, or a JSON value.
\<close>

datatype payload = NoJson | Undecodable | Malformed | Json pyval

record http_request =
  rq_verb :: string
  rq_path :: "string list"
  rq_query :: "(string \<times> string) list"
  rq_authorization :: "string option"
  rq_payload :: payload

text \<open>
  \<open>Unrouted\<close>: no route of the program takes the request, which the framework answers by
  itself. \<open>Crashed\<close>: a handler reads an argument that is not there, or its value does not fit
  the response model.
\<close>

datatype http_answer = Unrouted | Answered nat "pyval option" | Crashed

fun match_path :: "segment list \<Rightarrow> string list \<Rightarrow> args option" where
  "match_path [] [] = Some []"
| "match_path (Lit s # ps) (x # xs) = (if x = s then match_path ps xs else None)"
| "match_path (Param n # ps) (x # xs) =
     (if x = '''' then None else map_option ((#) (n, VStr x)) (match_path ps xs))"
| "match_path _ _ = None"

text \<open>The first route, in registration order, with the verb and a path that matches.\<close>

fun select_route :: "endpoint list \<Rightarrow> string \<Rightarrow> string list \<Rightarrow> (endpoint \<times> args) option" where
  "select_route [] verb path = None"
| "select_route (e # es) verb path =
     (case (if ep_verb e = verb then match_path (ep_path e) path else None) of
        None \<Rightarrow> select_route es verb path
      | Some params \<Rightarrow> Some (e, params))"

definition read_body :: "conversion \<Rightarrow> env \<Rightarrow> endpoint \<Rightarrow> payload \<Rightarrow> args option" where
  "read_body C X e p = (case ep_body e of
     None \<Rightarrow> Some []
   | Some t \<Rightarrow>
       (case p of
          Json v \<Rightarrow> (case validate C X t v of Some (VDict b) \<Rightarrow> Some b | _ \<Rightarrow> None)
        | _ \<Rightarrow> None))"

definition read_arguments ::
  "conversion \<Rightarrow> env \<Rightarrow> endpoint \<Rightarrow> args \<Rightarrow> http_request \<Rightarrow> (args \<times> args) option" where
  "read_arguments C X e params rq =
     Option.bind (validate_fields C X (ep_params e) params) (\<lambda>ps.
     Option.bind (validate_fields C X (ep_query e) (map (\<lambda>(k, s). (k, VStr s)) (rq_query rq))) (\<lambda>qs.
     Option.bind (read_body C X e (rq_payload rq)) (\<lambda>b. Some (ps @ qs, b))))"

text \<open>The dependency that guards a route.\<close>

definition admit :: "env \<Rightarrow> access \<Rightarrow> string option \<Rightarrow> unit py" where
  "admit X a auth = (case a of
     Anyone \<Rightarrow> pure ()
   | Caller \<Rightarrow> and_then (get_current_user X auth) (\<lambda>_. pure ())
   | Holder r p \<Rightarrow> and_then (require_permission X r p auth) (\<lambda>_. pure ()))"

definition present :: "conversion \<Rightarrow> env \<Rightarrow> endpoint \<Rightarrow> response \<Rightarrow> http_answer" where
  "present C X e r = (case ep_response e of
     None \<Rightarrow> Answered (fst r) None
   | Some t \<Rightarrow>
       (case validate C X t (body_dump (snd r)) of
          None \<Rightarrow> Crashed
        | Some v \<Rightarrow> Answered (ep_status e) (Some v)))"

text \<open>
  A body that cannot be decoded or parsed is refused before anything else. The guard of the
  route comes before the rest of the validation: a request that is invalid is a 422 only for
  a caller whom the route admits.
\<close>

definition call_endpoint ::
  "conversion \<Rightarrow> env \<Rightarrow> endpoint \<Rightarrow> args \<Rightarrow> http_request \<Rightarrow> http_answer py" where
  "call_endpoint C X e params rq =
     (if ep_body e \<noteq> None \<and> rq_payload rq = Undecodable
      then raise (HTTPException 400 ''There was an error parsing the body'')
      else if ep_body e \<noteq> None \<and> rq_payload rq = Malformed then raise unprocessable
      else case read_arguments C X e params rq of
        None \<Rightarrow> and_then (admit X (ep_access e) (rq_authorization rq)) (\<lambda>_. raise unprocessable)
      | Some (ps, b) \<Rightarrow>
          (case ep_call e ps b of
             None \<Rightarrow> pure Crashed
           | Some req \<Rightarrow>
               and_then (dispatch X (rq_authorization rq) req) (\<lambda>r. pure (present C X e r))))"

definition http_app :: "conversion \<Rightarrow> env \<Rightarrow> http_request \<Rightarrow> http_answer py" where
  "http_app C X rq =
     (case select_route app_routes (rq_verb rq) (rq_path rq) of
        None \<Rightarrow> pure Unrouted
      | Some (e, params) \<Rightarrow> call_endpoint C X e params rq)"

end
