(* ===== verification/Http_Runs.thy ===== *)
theory Http_Runs
  imports Http
begin

text \<open>
  What the declared types guarantee on both sides of a handler: validated arguments hold what
  the handler reads, and the values the handlers return fit their response models. Then the
  outcomes of an HTTP request.
\<close>

section \<open>The declared types\<close>

lemmas endpoint_defs = register_endpoint_def login_endpoint_def refresh_endpoint_def
  logout_endpoint_def authorize_endpoint_def create_role_endpoint_def assign_permission_endpoint_def
  remove_permission_endpoint_def my_permissions_endpoint_def assign_role_endpoint_def
  revoke_role_endpoint_def user_permissions_endpoint_def create_organization_endpoint_def
  add_member_endpoint_def remove_member_endpoint_def list_members_endpoint_def
  my_organizations_endpoint_def audit_logs_endpoint_def health_endpoint_def route_def

lemmas router_defs = app_routes_def auth_router_def authorize_router_def organizations_router_def
  audit_router_def

text \<open>The route of a request.\<close>

fun endpoint_of :: "request \<Rightarrow> endpoint" where
  "endpoint_of (Register _ _) = register_endpoint"
| "endpoint_of (Login _ _) = login_endpoint"
| "endpoint_of (Refresh _) = refresh_endpoint"
| "endpoint_of (Logout _) = logout_endpoint"
| "endpoint_of (Authorize _ _ _) = authorize_endpoint"
| "endpoint_of (CreateRole _ _ _) = create_role_endpoint"
| "endpoint_of (AssignPermission _ _) = assign_permission_endpoint"
| "endpoint_of (RemovePermission _ _) = remove_permission_endpoint"
| "endpoint_of (MyPermissions _) = my_permissions_endpoint"
| "endpoint_of (AssignRole _ _ _) = assign_role_endpoint"
| "endpoint_of (RevokeRole _ _ _) = revoke_role_endpoint"
| "endpoint_of (UserPermissions _ _) = user_permissions_endpoint"
| "endpoint_of (CreateOrganization _) = create_organization_endpoint"
| "endpoint_of (AddMember _ _) = add_member_endpoint"
| "endpoint_of (RemoveMember _ _) = remove_member_endpoint"
| "endpoint_of (ListMembers _) = list_members_endpoint"
| "endpoint_of MyOrganizations = my_organizations_endpoint"
| "endpoint_of (ListAuditLogs _ _ _ _ _) = audit_logs_endpoint"
| "endpoint_of Health = health_endpoint"

lemma endpoint_of_route: "endpoint_of req \<in> set app_routes"
  by (cases req) (simp_all add: router_defs)

lemma well_formed_routes:
  assumes "e \<in> set app_routes"
  shows "well_formed_fields (ep_params e)" and "well_formed_fields (ep_query e)"
    and "ep_body e = Some t \<Longrightarrow> well_formed t" and "ep_response e = Some t \<Longrightarrow> well_formed t"
  using assms
  by (auto simp: router_defs endpoint_defs field_defs request_models response_models)

text \<open>A request body is a model, so what validation returns is the dictionary of its fields.\<close>

lemma body_models: "e \<in> set app_routes \<Longrightarrow> ep_body e = Some t \<Longrightarrow> \<exists>fs. t = TModel fs"
  by (auto simp: router_defs endpoint_defs request_models)

lemma read_arguments_typed:
  assumes e: "e \<in> set app_routes" and r: "read_arguments C X e params rq = Some (ps, b)"
  obtains us qs where "ps = us @ qs" "has_fields (ep_params e) us" "has_fields (ep_query e) qs"
    "case ep_body e of None \<Rightarrow> b = [] | Some t \<Rightarrow> has_type t (VDict b)"
proof -
  from r obtain us qs where v: "validate_fields C X (ep_params e) params = Some us"
      "validate_fields C X (ep_query e) (map (\<lambda>(k, s). (k, VStr s)) (rq_query rq)) = Some qs"
      "read_body C X e (rq_payload rq) = Some b" "ps = us @ qs"
    by (auto simp: read_arguments_def bind_eq_Some_conv)
  have "case ep_body e of None \<Rightarrow> b = [] | Some t \<Rightarrow> has_type t (VDict b)"
    using v(3) well_formed_routes(3) [OF e]
    by (auto simp: read_body_def split: option.splits payload.splits pyval.splits
        dest: validate_typed(1))
  moreover note validate_typed(2) [OF well_formed_routes(1) [OF e] v(1)]
    validate_typed(2) [OF well_formed_routes(2) [OF e] v(2)]
  ultimately show ?thesis using that v(4) by blast
qed

lemma has_fields_simps [simp]:
  "has_fields ((name, t, v) # fs) d = (\<exists>x rest. d = (name, x) # rest \<and> has_type t x \<and> has_fields fs rest)"
  by (auto split: list.splits)


lemma typed_value [simp]:
  "has_type TEmail x = (\<exists>s. x = VStr s)" "has_type (TText n) x = (\<exists>s. x = VStr s \<and> n \<le> length s)"
  "has_type TStr x = (\<exists>s. x = VStr s)" "has_type TUuid x = (\<exists>u. x = VUuid u)"
  "has_type TTime x = (\<exists>u. x = VTime u)" "has_type TBool x = (\<exists>u. x = VBool u)"
  "has_type TInt x = (\<exists>u. x = VInt u)" "has_type TDict x = (\<exists>u. x = VDict u)"
  "has_type (TBetween lo hi) x = (\<exists>i. x = VInt i \<and> lo \<le> i \<and> i \<le> hi)"
  "has_type (TAtLeast lo) x = (\<exists>i. x = VInt i \<and> lo \<le> i)"
  "has_type (TModel fs) x = (\<exists>d. x = VDict d \<and> has_fields fs d)"
  by (cases x; simp)+

declare has_fields.simps(2) [simp del] has_type.simps(3-13) [simp del]

text \<open>Validated arguments always make a request of the route.\<close>

lemma call_total:
  assumes e: "e \<in> set app_routes" and "has_fields (ep_params e) us" and "has_fields (ep_query e) qs"
    and "case ep_body e of None \<Rightarrow> b = [] | Some t \<Rightarrow> has_type t (VDict b)"
  shows "\<exists>req. ep_call e (us @ qs) b = Some req \<and> endpoint_of req = e"
  using assms
  by (auto simp: router_defs endpoint_defs field_defs request_models arg_defs)

section \<open>The values of the handlers\<close>

text \<open>A response model takes the value a handler hands it as it is, field by field.\<close>

definition accepts :: "field_type \<Rightarrow> pyval \<Rightarrow> bool" where
  "accepts t v = (\<forall>C X. validate C X t v = Some v)"

lemma those_same: "(\<And>x. x \<in> set xs \<Longrightarrow> f x = Some x) \<Longrightarrow> those (map f xs) = Some xs"
  by (induction xs) simp_all

lemma accepts_list: "(\<And>v. v \<in> set vs \<Longrightarrow> accepts t v) \<Longrightarrow> accepts (TList t) (VList vs)"
  by (simp add: accepts_def those_same)

lemma opt_value_accepted [simp]:
  "opt_value VUuid x \<noteq> VNone \<Longrightarrow> convert C TUuid (opt_value VUuid x) = Some (opt_value VUuid x)"
  "opt_value VStr y \<noteq> VNone \<Longrightarrow> convert C TStr (opt_value VStr y) = Some (opt_value VStr y)"
  "opt_value dict_value z \<noteq> VNone \<Longrightarrow>
     convert C TDict (opt_value dict_value z) = Some (opt_value dict_value z)"
  by (simp_all add: opt_value_def dict_value_def split: option.splits)

lemma dumps_accepted:
  "accepts RegisterResponse (register_dump a)" "accepts TokenResponse (token_dump b)"
  "accepts AuthorizeResponse (decision_dump c)" "accepts RoleResponse (role_dump d)"
  "accepts PermissionResponse (permission_dump e)" "accepts OrganizationResponse (organization_dump f)"
  "accepts OrganizationMemberResponse (member_dump g)" "accepts AuditLogEntryResponse (entry_dump h)"
  by (simp_all add: accepts_def response_models field_defs register_dump_def token_dump_def
      decision_dump_def role_dump_def permission_dump_def organization_dump_def member_dump_def
      entry_dump_def)

lemma page_dump_accepted: "accepts AuditLogPageResponse (page_dump p)"
proof -
  have "accepts (TList AuditLogEntryResponse) (VList (map entry_dump (page_events p)))"
    by (rule accepts_list) (auto intro: dumps_accepted)
  then show ?thesis
    by (simp add: accepts_def AuditLogPageResponse_def page_dump_def field_defs)
qed

definition fits :: "endpoint \<Rightarrow> body \<Rightarrow> bool" where
  "fits e b = (case ep_response e of None \<Rightarrow> b = EmptyBody | Some t \<Rightarrow> accepts t (body_dump b))"

lemma bodies_fit:
  "fits register_endpoint (RegisterBody a)" "fits login_endpoint (TokenBody b)"
  "fits refresh_endpoint (TokenBody b)" "fits logout_endpoint EmptyBody"
  "fits authorize_endpoint (DecisionBody c)" "fits create_role_endpoint (RoleBody d)"
  "fits assign_permission_endpoint EmptyBody" "fits remove_permission_endpoint EmptyBody"
  "fits my_permissions_endpoint (PermissionsBody ps)" "fits assign_role_endpoint EmptyBody"
  "fits revoke_role_endpoint EmptyBody" "fits user_permissions_endpoint (PermissionsBody ps)"
  "fits create_organization_endpoint (OrganizationBody f)" "fits add_member_endpoint EmptyBody"
  "fits remove_member_endpoint EmptyBody" "fits list_members_endpoint (MembersBody ms)"
  "fits my_organizations_endpoint (OrganizationsBody gs)"
  "fits audit_logs_endpoint (AuditPageBody p)" "fits health_endpoint HealthBody"
  by (auto simp: fits_def endpoint_defs dumps_accepted page_dump_accepted
      intro!: accepts_list) (simp add: accepts_def)

lemma and_then_returns:
  assumes "and_then m f s = (Inr y, s')"
  obtains x s1 where "m s = (Inr x, s1)" "f x s1 = (Inr y, s')"
  using assms by (auto simp: run_simps split: prod.splits sum.splits)

text \<open>Every value a request returns has the status and the body its route declares.\<close>

lemma dispatch_fits:
  assumes "dispatch X auth req w = (Inr (st, b), w')"
  shows "st = ep_status (endpoint_of req) \<and> fits (endpoint_of req) b"
  using assms
  by (cases req)
    (auto simp: route_defs pure_run raise_run health_check_def Let_def bodies_fit
      elim!: and_then_returns split: option.splits if_splits,
     auto simp: endpoint_defs)

section \<open>The outcomes of an HTTP request\<close>

lemma select_route_sound:
  "select_route es verb path = Some (e, params) \<Longrightarrow>
   e \<in> set es \<and> ep_verb e = verb \<and> match_path (ep_path e) path = Some params"
  by (induction es) (auto split: option.splits if_splits)

lemma present_fits:
  assumes "fits e b"
  shows "present C X e (ep_status e, b) =
    Answered (ep_status e) (if ep_response e = None then None else Some (body_dump b))"
  using assms by (auto simp: present_def fits_def accepts_def split: option.splits)

text \<open>What a request that is not served is refused with, before or after the guard.\<close>

definition unreadable :: "endpoint \<Rightarrow> payload \<Rightarrow> exn option" where
  "unreadable e p =
     (if ep_body e = None then None
      else case p of
        Undecodable \<Rightarrow> Some (HTTPException 400 ''There was an error parsing the body'')
      | Malformed \<Rightarrow> Some unprocessable
      | _ \<Rightarrow> None)"

lemma call_endpoint_run:
  assumes e: "e \<in> set app_routes"
  shows "call_endpoint C X e params rq w =
    (case unreadable e (rq_payload rq) of
       Some x \<Rightarrow> (Inl x, w)
     | None \<Rightarrow>
         (case read_arguments C X e params rq of
            None \<Rightarrow> and_then (admit X (ep_access e) (rq_authorization rq)) (\<lambda>_. raise unprocessable) w
          | Some (ps, b) \<Rightarrow>
              (case dispatch X (rq_authorization rq) (the (ep_call e ps b)) w of
                 (Inl x, w') \<Rightarrow> (Inl x, w')
               | (Inr (st, body), w') \<Rightarrow>
                   (Inr (Answered st (if ep_response e = None then None else Some (body_dump body))), w'))))"
proof (cases "unreadable e (rq_payload rq)")
  case (Some x)
  then show ?thesis
    by (auto simp: unreadable_def call_endpoint_def raise_run split: if_splits payload.splits)
next
  case readable: None
  show ?thesis
  proof (cases "read_arguments C X e params rq")
    case None
    with readable show ?thesis
      by (auto simp: unreadable_def call_endpoint_def split: if_splits payload.splits)
  next
    case (Some a)
    then obtain ps b where a: "read_arguments C X e params rq = Some (ps, b)" by (cases a) auto
    obtain us qs where t: "ps = us @ qs" "has_fields (ep_params e) us" "has_fields (ep_query e) qs"
        "case ep_body e of None \<Rightarrow> b = [] | Some t \<Rightarrow> has_type t (VDict b)"
      by (rule read_arguments_typed [OF e a])
    obtain req where req: "ep_call e ps b = Some req" "endpoint_of req = e"
      using call_total [OF e t(2-4)] t(1) by blast
    have "present C X e (st, body) =
        Answered st (if ep_response e = None then None else Some (body_dump body))"
      if "dispatch X (rq_authorization rq) req w = (Inr (st, body), w')" for st body w'
      using dispatch_fits [OF that] present_fits [of e body C X] req(2) by simp
    with readable a req(1) show ?thesis
      by (auto simp: unreadable_def call_endpoint_def run_simps split: if_splits payload.splits
          prod.splits sum.splits)
  qed
qed

end
