(* ===== verification/Http_Properties.thy ===== *)
theory Http_Properties
  imports Http_Runs System_Properties
begin

text \<open>
  The properties of the HTTP boundary: every answer has the declared type, every request of
  the model can be sent over HTTP and reaches its handler unchanged, and whatever is sent is
  either such a request or refused.
\<close>

section \<open>Sending a request\<close>

text \<open>
  A client's rendering of a request: ids in their canonical form, numbers as \<open>txt\<close> writes
  them, and an optional value that is absent left out.
\<close>

definition given :: "string \<Rightarrow> ('a \<Rightarrow> 'b) \<Rightarrow> 'a option \<Rightarrow> (string \<times> 'b) list" where
  "given name f x = (case x of None \<Rightarrow> [] | Some y \<Rightarrow> [(name, f y)])"

definition uuid_text :: "uuid \<Rightarrow> pyval" where
  "uuid_text u = VStr (uuid_str u)"

definition posting :: "string list \<Rightarrow> (string \<times> pyval) list \<Rightarrow> http_request" where
  "posting path form =
     \<lparr>rq_verb = ''POST'', rq_path = ''v1'' # path, rq_query = [], rq_authorization = None,
      rq_payload = Json (VDict form)\<rparr>"

definition bare :: "string \<Rightarrow> string list \<Rightarrow> (string \<times> string) list \<Rightarrow> http_request" where
  "bare verb path query =
     \<lparr>rq_verb = verb, rq_path = path, rq_query = query, rq_authorization = None,
      rq_payload = NoJson\<rparr>"

fun rendered :: "(int \<Rightarrow> string) \<Rightarrow> request \<Rightarrow> http_request" where
  "rendered txt (Register e p) =
     posting [''auth'', ''register''] [(''email'', VStr e), (''password'', VStr p)]"
| "rendered txt (Login e p) =
     posting [''auth'', ''login''] [(''email'', VStr e), (''password'', VStr p)]"
| "rendered txt (Refresh t) = posting [''auth'', ''refresh''] [(''refresh_token'', VStr t)]"
| "rendered txt (Logout t) = posting [''auth'', ''logout''] [(''refresh_token'', VStr t)]"
| "rendered txt (Authorize r a g) =
     posting [''authorize'']
       ([(''resource'', VStr r), (''action'', VStr a)] @ given ''organization_id'' uuid_text g)"
| "rendered txt (CreateRole n d g) =
     posting [''roles'']
       ([(''name'', VStr n)] @ given ''description'' VStr d @ given ''organization_id'' uuid_text g)"
| "rendered txt (AssignPermission i p) =
     posting [''roles'', uuid_str i, ''permissions''] [(''permission_id'', uuid_text p)]"
| "rendered txt (RemovePermission i p) =
     bare ''DELETE'' [''v1'', ''roles'', uuid_str i, ''permissions'', uuid_str p] []"
| "rendered txt (MyPermissions g) =
     bare ''GET'' [''v1'', ''users'', ''me'', ''permissions''] (given ''organization_id'' uuid_str g)"
| "rendered txt (AssignRole u i g) =
     posting [''users'', uuid_str u, ''roles'']
       ([(''role_id'', uuid_text i)] @ given ''organization_id'' uuid_text g)"
| "rendered txt (RevokeRole u i g) =
     bare ''DELETE'' [''v1'', ''users'', uuid_str u, ''roles'', uuid_str i]
       (given ''organization_id'' uuid_str g)"
| "rendered txt (UserPermissions u g) =
     bare ''GET'' [''v1'', ''users'', uuid_str u, ''permissions'']
       (given ''organization_id'' uuid_str g)"
| "rendered txt (CreateOrganization n) = posting [''organizations''] [(''name'', VStr n)]"
| "rendered txt (AddMember g u) =
     posting [''organizations'', uuid_str g, ''members''] [(''user_id'', uuid_text u)]"
| "rendered txt (RemoveMember g u) =
     bare ''DELETE'' [''v1'', ''organizations'', uuid_str g, ''members'', uuid_str u] []"
| "rendered txt (ListMembers g) =
     bare ''GET'' [''v1'', ''organizations'', uuid_str g, ''members''] []"
| "rendered txt MyOrganizations = bare ''GET'' [''v1'', ''users'', ''me'', ''organizations''] []"
| "rendered txt (ListAuditLogs g u a l off) =
     bare ''GET'' [''v1'', ''audit-logs'']
       (given ''organization_id'' uuid_str g @ given ''actor_user_id'' uuid_str u @
        given ''action'' id a @ given ''limit'' txt l @ given ''offset'' txt off)"
| "rendered txt Health = bare ''GET'' [''health''] []"

definition http_of :: "(int \<Rightarrow> string) \<Rightarrow> string option \<Rightarrow> request \<Rightarrow> http_request" where
  "http_of txt auth req = (rendered txt req) \<lparr>rq_authorization := auth\<rparr>"

text \<open>The path parameters of a request, as the router hands them on.\<close>

fun path_args :: "request \<Rightarrow> args" where
  "path_args (AssignPermission i p) = [(''role_id'', uuid_text i)]"
| "path_args (RemovePermission i p) = [(''role_id'', uuid_text i), (''permission_id'', uuid_text p)]"
| "path_args (AssignRole u i g) = [(''user_id'', uuid_text u)]"
| "path_args (RevokeRole u i g) = [(''user_id'', uuid_text u), (''role_id'', uuid_text i)]"
| "path_args (UserPermissions u g) = [(''user_id'', uuid_text u)]"
| "path_args (AddMember g u) = [(''organization_id'', uuid_text g)]"
| "path_args (RemoveMember g u) = [(''organization_id'', uuid_text g), (''user_id'', uuid_text u)]"
| "path_args (ListMembers g) = [(''organization_id'', uuid_text g)]"
| "path_args _ = []"

lemma uuid_str_literal: "CHR ''m'' \<in> set s \<Longrightarrow> uuid_str u \<noteq> s"
  using uuid_str_chars [of "CHR ''m''" u] hex_string_lacks [of "CHR ''m''" 32 "unat u"] by auto

lemma uuid_str_not_me [simp]: "uuid_str u \<noteq> ''me''" "uuid_str u \<noteq> ''''"
  using uuid_str_literal [of "''me''" u] uuid_str_nonempty by simp_all

text \<open>No route hides another: each request is handed to its own route.\<close>

lemma route_found:
  "select_route app_routes (rq_verb (http_of txt auth req)) (rq_path (http_of txt auth req)) =
     Some (endpoint_of req, path_args req)"
  by (cases req)
    (simp_all add: http_of_def posting_def bare_def router_defs endpoint_defs uuid_text_def)

text \<open>
  Its arguments are read back as they were sent, or the request is one the handler itself
  refuses: an address that is no email, a short password, a page size out of bounds.
\<close>

definition delivered :: "conversion \<Rightarrow> env \<Rightarrow> (int \<Rightarrow> string) \<Rightarrow> string option \<Rightarrow> request \<Rightarrow> bool" where
  "delivered C X txt auth req =
     (case read_arguments C X (endpoint_of req) (path_args req) (http_of txt auth req) of
        None \<Rightarrow> dispatch X auth req =
          and_then (admit X (ep_access (endpoint_of req)) auth) (\<lambda>_. raise unprocessable)
      | Some (ps, b) \<Rightarrow>
          (\<exists>again. ep_call (endpoint_of req) ps b = Some again \<and> dispatch X auth again = dispatch X auth req))"

text \<open>
  What pydantic documents: a UUID's canonical text and an integer's digits are read as that UUID
  and that integer.
\<close>

definition reads_text :: "conversion \<Rightarrow> (int \<Rightarrow> string) \<Rightarrow> bool" where
  "reads_text C txt =
     ((\<forall>u. C TUuid (VStr (uuid_str u)) = Some (VUuid u)) \<and> (\<forall>i. C TInt (VStr (txt i)) = Some (VInt i)))"

lemma convert_text:
  assumes "reads_text C txt"
  shows "convert C TUuid (VStr (uuid_str u)) = Some (VUuid u)"
    and "convert C TUuid (uuid_text u) = Some (VUuid u)"
    and "convert C TInt (VStr (txt i)) = Some (VInt i)"
  using assms by (simp_all add: convert_def reads_text_def uuid_text_def)

lemma given_simps [simp]:
  "rev (given n f x) = given n f x"
  "map (\<lambda>(k, s). (k, VStr s)) (given n g y) = given n (\<lambda>z. VStr (g z)) y"
  "map_of (given n f x) k = (if k = n then map_option f x else None)"
  "k \<noteq> n \<Longrightarrow> (m ++ map_of (given n f x)) k = m k"
  "m n = None \<Longrightarrow> (m ++ map_of (given n f x)) n = map_option f x"
  by (auto simp: given_def map_add_def split: option.split)

lemma optional_read:
  assumes "reads_text C txt"
  shows "(case map_option uuid_text g of None \<Rightarrow> Some VNone | Some x \<Rightarrow> validate C X (TOptional TUuid) x) =
      Some (opt_value VUuid g)"
    and "(case map_option (\<lambda>z. VStr (uuid_str z)) g of None \<Rightarrow> Some VNone
        | Some x \<Rightarrow> validate C X (TOptional TUuid) x) = Some (opt_value VUuid g)"
    and "(case map_option VStr d of None \<Rightarrow> Some VNone | Some x \<Rightarrow> validate C X (TOptional TStr) x) =
      Some (opt_value VStr d)"
    and "(case map_option (\<lambda>z. VStr (id z)) d of None \<Rightarrow> Some VNone
        | Some x \<Rightarrow> validate C X (TOptional TStr) x) = Some (opt_value VStr d)"
  by (simp_all add: opt_value_def convert_text [OF assms] split: option.split)
    (simp_all add: uuid_text_def)

lemma bounded_read:
  assumes "reads_text C txt"
  shows "(case map_option (\<lambda>z. VStr (txt z)) l of None \<Rightarrow> Some (VInt v)
      | Some x \<Rightarrow> validate C X (TBetween lo hi) x) =
      (if l \<noteq> None \<and> (the l < lo \<or> hi < the l) then None else Some (VInt (case l of None \<Rightarrow> v | Some i \<Rightarrow> i)))"
    and "(case map_option (\<lambda>z. VStr (txt z)) l of None \<Rightarrow> Some (VInt v)
      | Some x \<Rightarrow> validate C X (TAtLeast lo) x) =
      (if l \<noteq> None \<and> the l < lo then None else Some (VInt (case l of None \<Rightarrow> v | Some i \<Rightarrow> i)))"
  by (auto simp: int_value_def convert_text [OF assms] split: option.split)

lemma opt_value_read [simp]:
  "(case opt_value VUuid g of VNone \<Rightarrow> Some None | VUuid u \<Rightarrow> Some (Some u) | _ \<Rightarrow> None) = Some g"
  "(case opt_value VStr d of VNone \<Rightarrow> Some None | VStr u \<Rightarrow> Some (Some u) | _ \<Rightarrow> None) = Some d"
  by (simp_all add: opt_value_def split: option.split)

lemmas delivery = delivered_def read_arguments_def read_body_def http_of_def posting_def bare_def
  endpoint_defs field_defs request_models arg_defs

lemma register_delivered: "delivered C X txt auth (Register e p)"
  by (cases "email_str X e")
    (simp_all add: delivery email_value_def text_value_def route_register_def admit_def)

lemma login_delivered: "delivered C X txt auth (Login e p)"
  by (cases "email_str X e") (simp_all add: delivery email_value_def route_login_def admit_def)

lemma audit_refused:
  assumes "l \<noteq> None \<and> (the l < 1 \<or> 200 < the l) \<or> off \<noteq> None \<and> the off < 0"
  shows "route_list_audit_logs X auth g u a l off =
    and_then (admit X (Holder ''audit'' ''view'') auth) (\<lambda>_. raise unprocessable)"
  using assms by (auto simp: route_list_audit_logs_def admit_def and_then_assoc)

lemma audit_defaults:
  "route_list_audit_logs X auth g u a (Some (case l of None \<Rightarrow> 50 | Some i \<Rightarrow> i))
     (Some (case off of None \<Rightarrow> 0 | Some i \<Rightarrow> i)) = route_list_audit_logs X auth g u a l off"
  by (simp add: route_list_audit_logs_def)

lemma audit_delivered:
  assumes "reads_text C txt"
  shows "delivered C X txt auth (ListAuditLogs g u a l off)"
  by (simp add: delivery optional_read [OF assms] bounded_read [OF assms] audit_refused audit_defaults
    del: validate.simps(1,6,7) case_map_option)
    (simp add: route_list_audit_logs_def)

lemma all_delivered:
  assumes "reads_text C txt"
  shows "delivered C X txt auth req"
proof (cases req)
  case (Register e p)
  then show ?thesis by (simp add: register_delivered)
next
  case (Login e p)
  then show ?thesis by (simp add: login_delivered)
next
  case (ListAuditLogs g u a l off)
  then show ?thesis by (simp add: audit_delivered [OF assms])
qed (simp_all add: delivery convert_text [OF assms] optional_read [OF assms]
      del: validate.simps(1) case_map_option)

section \<open>Round trip\<close>

text \<open>A response model refuses the value of a response without one.\<close>

lemma fits_EmptyBody:
  assumes "e \<in> set app_routes" and "fits e EmptyBody"
  shows "ep_response e = None"
proof (rule ccontr)
  assume "ep_response e \<noteq> None"
  then obtain t where t: "ep_response e = Some t" by auto
  with assms(2) have "validate (\<lambda>_ _. None) X t VNone = Some VNone" for X
    by (simp add: fits_def accepts_def)
  with assms(1) t show False
    by (auto simp: router_defs endpoint_defs response_models convert_def)
qed

lemma read_arguments_auth [simp]:
  "read_arguments C X e params (rq\<lparr>rq_authorization := auth\<rparr>) = read_arguments C X e params rq"
  by (simp add: read_arguments_def)

lemma http_of_readable: "unreadable e (rq_payload (http_of txt auth req)) = None"
  by (cases req) (simp_all add: http_of_def posting_def bare_def unreadable_def)

lemma http_of_auth [simp]: "rq_authorization (http_of txt auth req) = auth"
  by (simp add: http_of_def)

text \<open>
  C13: every request of the model can be sent over HTTP and comes through unchanged. Rendered
  with the path, query and JSON body its route declares, it is routed to its own handler and no
  other, its arguments are read back as they were sent (what the handler itself refuses is
  refused alike), the handler leaves the same state, and its value passes the response model
  without losing a field.
\<close>

theorem requests_survive_http:
  assumes "reads_text C txt"
  shows "http_app C X (http_of txt auth req) w =
    (case dispatch X auth req w of
       (Inl x, w') \<Rightarrow> (Inl x, w')
     | (Inr (st, b), w') \<Rightarrow>
         (Inr (Answered st (if b = EmptyBody then None else Some (body_dump b))), w'))"
proof -
  let ?rq = "http_of txt auth req" and ?e = "endpoint_of req"
  have run: "http_app C X ?rq w = call_endpoint C X ?e (path_args req) ?rq w"
    by (simp add: http_app_def route_found)
  have empty: "(ep_response ?e = None) = (b = EmptyBody)"
    if d: "dispatch X auth req w = (Inr (st, b), w')" for st b w'
  proof
    show "b = EmptyBody" if "ep_response ?e = None"
      using dispatch_fits [OF d] that by (simp add: fits_def)
    show "ep_response ?e = None" if "b = EmptyBody"
      using dispatch_fits [OF d] that fits_EmptyBody [OF endpoint_of_route] by simp
  qed
  show ?thesis
  proof (cases "read_arguments C X ?e (path_args req) ?rq")
    case None
    have "dispatch X auth req = and_then (admit X (ep_access ?e) auth) (\<lambda>_. raise unprocessable)"
      using all_delivered [OF assms, of X auth req] None by (simp add: delivered_def)
    then show ?thesis
      by (auto simp: run call_endpoint_run [OF endpoint_of_route] http_of_readable None run_simps
          split: prod.splits sum.splits)
  next
    case (Some a)
    then obtain ps b where a: "read_arguments C X ?e (path_args req) ?rq = Some (ps, b)" by (cases a) auto
    obtain again where "ep_call ?e ps b = Some again" "dispatch X auth again = dispatch X auth req"
      using all_delivered [OF assms, of X auth req] a by (auto simp: delivered_def)
    with empty show ?thesis
      by (auto simp: run call_endpoint_run [OF endpoint_of_route] http_of_readable a
          split: prod.splits sum.splits)
  qed
qed

section \<open>Every answer has the declared type\<close>


section \<open>Every request is accounted for\<close>

text \<open>The guard of a route is the one its handler runs.\<close>

lemma access_of:
  "ep_access (endpoint_of req) =
     (case demands req of
        Some (r, a) \<Rightarrow> Holder r a
      | None \<Rightarrow> if personal req then Caller else Anyone)"
  by (cases req) (simp_all add: endpoint_defs)

text \<open>The status of a request whose arguments are invalid.\<close>

definition invalid_status :: "env \<Rightarrow> access \<Rightarrow> string option \<Rightarrow> world \<Rightarrow> nat" where
  "invalid_status X a auth w = (case a of
     Anyone \<Rightarrow> 422
   | Caller \<Rightarrow> if caller X auth w = None then 401 else 422
   | Holder r p \<Rightarrow>
       (case caller X auth w of
          None \<Rightarrow> 401
        | Some u \<Rightarrow> if may w (usr_id u) r p None then 422 else 403))"

lemma invalid_refused:
  assumes "db_ok X w" and "subjects_are_strings X"
  shows "\<exists>detail w'. and_then (admit X a auth) (\<lambda>_. raise unprocessable) w =
      (Inl (HTTPException (invalid_status X a auth w) detail), w') \<and> tables w' = tables w"
  by (cases a)
    (auto simp: admit_def run_simps invalid_status_def unprocessable_def unauthorized_def
      get_current_user_run [OF assms] require_permission_run [OF assms] split: option.split)

text \<open>
  C15: every HTTP request is accounted for. A request no route takes changes nothing. A body
  that cannot be read is refused before anything is looked up. A request with a missing or
  ill-typed argument is refused without touching a table, and only a caller whom the route's
  guard admits learns that it was invalid (422): any other gets the guard's 401 or 403. Every
  other request is a request of its route, answered exactly as the handler answers it.
\<close>

theorem http_requests_accounted:
  assumes "db_ok X w" and "subjects_are_strings X"
  shows "case select_route app_routes (rq_verb rq) (rq_path rq) of
      None \<Rightarrow> http_app C X rq w = (Inr Unrouted, w)
    | Some (e, params) \<Rightarrow>
        (\<exists>x. unreadable e (rq_payload rq) = Some x \<and> http_app C X rq w = (Inl x, w)) \<or>
        (read_arguments C X e params rq = None \<and>
          (\<exists>detail w'. tables w' = tables w \<and> http_app C X rq w =
             (Inl (HTTPException (invalid_status X (ep_access e) (rq_authorization rq) w) detail), w'))) \<or>
        (\<exists>ps b req. read_arguments C X e params rq = Some (ps, b) \<and> ep_call e ps b = Some req \<and>
          endpoint_of req = e \<and> http_app C X rq w =
           (case dispatch X (rq_authorization rq) req w of
              (Inl x, w') \<Rightarrow> (Inl x, w')
            | (Inr (st, b), w') \<Rightarrow>
                (Inr (Answered st (if ep_response e = None then None else Some (body_dump b))), w')))"
proof (cases "select_route app_routes (rq_verb rq) (rq_path rq)")
  case None
  then show ?thesis by (simp add: http_app_def pure_run)
next
  case (Some a)
  then obtain e params where a: "select_route app_routes (rq_verb rq) (rq_path rq) = Some (e, params)"
    by (cases a) auto
  then have e: "e \<in> set app_routes" using select_route_sound by fastforce
  have run: "http_app C X rq w = call_endpoint C X e params rq w" by (simp add: http_app_def a)
  show ?thesis
  proof (cases "unreadable e (rq_payload rq)")
    case (Some x)
    then show ?thesis by (simp add: a run call_endpoint_run [OF e])
  next
    case readable: None
    show ?thesis
    proof (cases "read_arguments C X e params rq")
      case None
      with readable invalid_refused [OF assms, of "ep_access e" "rq_authorization rq"] show ?thesis
        by (auto simp: a run call_endpoint_run [OF e])
    next
      case (Some bs)
      then obtain ps b where bs: "read_arguments C X e params rq = Some (ps, b)" by (cases bs) auto
      obtain req where "ep_call e ps b = Some req" "endpoint_of req = e"
        by (rule read_arguments_typed [OF e bs]) (use call_total [OF e] in blast)
      with readable bs show ?thesis
        by (auto simp: a run call_endpoint_run [OF e])
    qed
  qed
qed

section \<open>Examples\<close>

text \<open>Conversions that read ids as \<open>uuid.UUID\<close> does and numbers as strokes with a sign.\<close>

definition strokes :: "int \<Rightarrow> string" where
  "strokes i = (if i < 0 then ''-'' else ''+'') @ replicate (nat \<bar>i\<bar>) CHR ''1''"

fun sample_conversion :: conversion where
  "sample_conversion TUuid (VStr s) = map_option VUuid (uuid_of_string s)"
| "sample_conversion TInt (VStr (c # s)) =
     Some (VInt (if c = CHR ''-'' then - int (length s) else int (length s)))"
| "sample_conversion _ _ = None"

lemma sample_reads_text: "reads_text sample_conversion strokes"
  by (simp add: reads_text_def strokes_def uuid_round_trip)

text \<open>The second account of the example lists its organizations.\<close>

definition sample_listing :: http_answer where
  "sample_listing = Answered 200 (Some (VList
     [VDict [(''id'', VUuid 3), (''name'', VStr ''Acme''), (''created_at'', VTime 0)]]))"

lemma sample_listing_run:
  "dispatch sample_env sample_header MyOrganizations sample_graph =
     (Inr (200, OrganizationsBody [\<lparr>oresp_id = 3, oresp_name = ''Acme'', oresp_created_at = 0\<rparr>]),
      read_header sample_header sample_graph)"
  by (simp add: route_my_organizations_def run_simps get_current_user_run [OF sample_graph_ok sample_subjects]
      sample_caller list_organizations_for_user_def get_organizations_for_user_def
      organization_response_def order_by_def)
    (simp add: read_header_def organization_response_def)

theorem requests_survive_http_witness:
  "http_app sample_conversion sample_env (http_of strokes sample_header MyOrganizations) sample_graph =
    (Inr sample_listing, read_header sample_header sample_graph)"
  unfolding requests_survive_http [OF sample_reads_text] sample_listing_run
  by (simp add: sample_listing_def organization_dump_def)



text \<open>It may not manage organizations, so an invalid body is a 403 to it, not a 422.\<close>

definition nameless :: http_request where
  "nameless = (posting [''organizations''] [(''title'', VStr ''B'')]) \<lparr>rq_authorization := sample_header\<rparr>"

theorem http_requests_accounted_witness:
  "\<exists>detail w'. tables w' = tables sample_graph \<and>
     http_app sample_conversion sample_env nameless sample_graph = (Inl (HTTPException 403 detail), w')"
proof -
  have "select_route app_routes (rq_verb nameless) (rq_path nameless) = Some (create_organization_endpoint, [])"
    by (simp add: nameless_def posting_def router_defs endpoint_defs)
  moreover have "read_arguments sample_conversion sample_env create_organization_endpoint [] nameless = None"
    by (simp add: nameless_def posting_def read_arguments_def read_body_def endpoint_defs
        CreateOrganizationRequest_def field_defs)
  moreover have "unreadable create_organization_endpoint (rq_payload nameless) = None"
    by (simp add: nameless_def posting_def unreadable_def)
  moreover have "invalid_status sample_env (ep_access create_organization_endpoint) (rq_authorization nameless)
      sample_graph = 403"
    by (simp add: invalid_status_def nameless_def endpoint_defs sample_caller may_iff)
  ultimately show ?thesis
    using http_requests_accounted [OF sample_graph_ok sample_subjects, where rq = nameless and C = sample_conversion]
    by simp
qed

end
