(* ===== verification/Unit_Of_Work.thy ===== *)
theory Unit_Of_Work
  imports Integrity
begin

text \<open>
  \<open>src/app/db/session.py\<close>: each request has one database session, begins a transaction with its
  first statement, makes it durable with \<open>commit\<close>, drops it with \<open>rollback\<close>, and closes the
  session when the request ends, whichever way. The session is SQLAlchemy's: it is a parameter,
  with the documented behaviour the code relies on as a hypothesis. The judgement \<open>tracks\<close>
  relates code over a session to the programs of the sequential model.
\<close>

section \<open>Sessions\<close>

text \<open>
  What can be done with a session and what can be asked of it: the rows its statements see, the
  tables as closing it would leave them, and whether it refuses everything but \<open>rollback\<close>. Clocks
  and random sources are outside the database; what they have given is not rolled back.
\<close>

record 'c sessions =
  open_session :: "world \<Rightarrow> 'c"
  sees :: "'c \<Rightarrow> world"
  durable :: "'c \<Rightarrow> world"
  refuses :: "'c \<Rightarrow> bool"
  accepted :: "'c \<Rightarrow> world \<Rightarrow> 'c"
  rejected :: "'c \<Rightarrow> nat \<Rightarrow> 'c"
  drawn :: "'c \<Rightarrow> nat \<Rightarrow> 'c"
  committed :: "'c \<Rightarrow> 'c"
  rolled_back :: "'c \<Rightarrow> 'c"

text \<open>
  The documented behaviour. An accepted statement is seen by the statements after it and is not
  durable; a rejected one leaves a session that only \<open>rollback\<close> makes usable again; \<open>commit\<close>
  makes durable what is seen; \<open>rollback\<close> goes back to what is durable.
\<close>

definition transactional :: "'c sessions \<Rightarrow> bool" where
  "transactional S =
     ((\<forall>w. sees S (open_session S w) = w \<and> durable S (open_session S w) = w \<and> \<not> refuses S (open_session S w)) \<and>
      (\<forall>c v. \<not> refuses S c \<longrightarrow>
         sees S (accepted S c v) = v \<and> durable S (accepted S c v) = (durable S c)\<lparr>draws := draws v\<rparr> \<and>
         \<not> refuses S (accepted S c v)) \<and>
      (\<forall>c n. \<not> refuses S c \<longrightarrow>
         refuses S (rejected S c n) \<and> durable S (rejected S c n) = (durable S c)\<lparr>draws := n\<rparr>) \<and>
      (\<forall>c n. sees S (drawn S c n) = (sees S c)\<lparr>draws := n\<rparr> \<and> durable S (drawn S c n) = (durable S c)\<lparr>draws := n\<rparr> \<and>
         refuses S (drawn S c n) = refuses S c) \<and>
      (\<forall>c. \<not> refuses S c \<longrightarrow>
         sees S (committed S c) = sees S c \<and> durable S (committed S c) = sees S c \<and> \<not> refuses S (committed S c)) \<and>
      (\<forall>c. sees S (rolled_back S c) = durable S c \<and> durable S (rolled_back S c) = durable S c \<and>
         \<not> refuses S (rolled_back S c)))"

text \<open>Code over a session.\<close>

type_synonym ('c, 'a) db = "('c, exn, 'a) prog"

text \<open>The errors that come from the database, as opposed to what is raised on reading a result.\<close>

definition rejects :: "exn \<Rightarrow> bool" where
  "rejects e = (e = Sql IntegrityError \<or> e = Sql DataError)"

text \<open>A statement, or a method that is one statement and plain Python after it.\<close>

definition execute :: "'c sessions \<Rightarrow> 'a py \<Rightarrow> ('c, 'a) db" where
  "execute S m = (\<lambda>c.
     if refuses S c then (Inl (Sql InvalidRequestError), c)
     else case m (sees S c) of
       (Inl e, v) \<Rightarrow> (Inl e, if rejects e then rejected S c (draws v) else accepted S c v)
     | (Inr x, v) \<Rightarrow> (Inr x, accepted S c v))"

definition commit :: "'c sessions \<Rightarrow> ('c, unit) db" where
  "commit S = (\<lambda>c.
     if refuses S c then (Inl (Sql InvalidRequestError), c) else (Inr (), committed S c))"

definition rollback :: "'c sessions \<Rightarrow> ('c, unit) db" where
  "rollback S = (\<lambda>c. (Inr (), rolled_back S c))"

text \<open>Computation outside the database: clocks, random sources, hashing, signing.\<close>

definition in_process :: "'c sessions \<Rightarrow> 'a py \<Rightarrow> ('c, 'a) db" where
  "in_process S m = (\<lambda>c. case m (sees S c) of (r, v) \<Rightarrow> (r, drawn S c (draws v)))"

text \<open>\<open>get_db\<close>: a session for the time of a request, closed at its end, also after an exception.\<close>

definition get_db :: "'c sessions \<Rightarrow> ('c, 'a) db \<Rightarrow> 'a py" where
  "get_db S m = (\<lambda>w. case m (open_session S w) of (r, c) \<Rightarrow> (r, durable S c))"

section \<open>Writes\<close>

text \<open>\<open>session.add(row)\<close>, \<open>commit()\<close>, \<open>refresh(row)\<close>; the commit flushes the statement first.\<close>

definition flush_commit :: "'c sessions \<Rightarrow> 'r py \<Rightarrow> ('c, 'r) db" where
  "flush_commit S statement = and_then (execute S statement) (\<lambda>r. and_then (commit S) (\<lambda>_. pure r))"

definition write_back ::
  "'c sessions \<Rightarrow> 'r py \<Rightarrow> ('r \<Rightarrow> world \<Rightarrow> 'r list) \<Rightarrow> ('c, 'r) db" where
  "write_back S statement query =
     and_then (flush_commit S statement) (\<lambda>r. execute S (session_refresh (query r)))"

text \<open>The same inside \<open>try\<close>, with \<open>except IntegrityError: rollback(); raise ...\<close>.\<close>

definition commit_reporting :: "'c sessions \<Rightarrow> repository_error \<Rightarrow> 'r py \<Rightarrow> ('c, 'r) db" where
  "commit_reporting S err statement =
     try_except (flush_commit S statement)
       (\<lambda>e. if e = Sql IntegrityError
            then Some (and_then (rollback S) (\<lambda>_. raise (Repository err))) else None)"

definition write_reporting ::
  "'c sessions \<Rightarrow> repository_error \<Rightarrow> 'r py \<Rightarrow> ('r \<Rightarrow> world \<Rightarrow> 'r list) \<Rightarrow> ('c, 'r) db" where
  "write_reporting S err statement query =
     and_then (commit_reporting S err statement) (\<lambda>r. execute S (session_refresh (query r)))"

section \<open>A session written out\<close>

text \<open>What is stored, what the open transaction sees, if one is open, and whether it is lost.\<close>

record conn =
  stored :: world
  work :: "world option"
  broken :: bool

definition plain_sessions :: "conn sessions" where
  "plain_sessions =
     \<lparr>open_session = (\<lambda>w. \<lparr>stored = w, work = None, broken = False\<rparr>),
      sees = (\<lambda>c. case work c of None \<Rightarrow> stored c | Some v \<Rightarrow> v),
      durable = stored,
      refuses = broken,
      accepted = (\<lambda>c v. c\<lparr>stored := (stored c)\<lparr>draws := draws v\<rparr>, work := Some v\<rparr>),
      rejected = (\<lambda>c n. c\<lparr>stored := (stored c)\<lparr>draws := n\<rparr>, broken := True\<rparr>),
      drawn = (\<lambda>c n. c\<lparr>stored := (stored c)\<lparr>draws := n\<rparr>, work := map_option (\<lambda>v. v\<lparr>draws := n\<rparr>) (work c)\<rparr>),
      committed = (\<lambda>c. c\<lparr>stored := (case work c of None \<Rightarrow> stored c | Some v \<Rightarrow> v), work := None\<rparr>),
      rolled_back = (\<lambda>c. c\<lparr>work := None, broken := False\<rparr>)\<rparr>"

lemma plain_sessions_transactional: "transactional plain_sessions"
  by (simp add: transactional_def plain_sessions_def split: option.split)

section \<open>Following the sequential model\<close>

text \<open>
  A session is settled when nothing would be lost by closing it; after which endings the code
  goes on, in a handler or with the next call.
\<close>

definition settled :: "'c sessions \<Rightarrow> 'c \<Rightarrow> bool" where
  "settled S c = (\<not> refuses S c \<and> durable S c = sees S c)"

definition database_error :: "exn \<Rightarrow> bool" where
  "database_error e = (case e of Sql _ \<Rightarrow> True | _ \<Rightarrow> False)"

definition continues :: "exn + 'a \<Rightarrow> bool" where
  "continues r = (case r of Inl e \<Rightarrow> \<not> database_error e | Inr _ \<Rightarrow> True)"

lemma continues_simps [simp]: "continues (Inl e) = (\<not> database_error e)" "continues (Inr x)"
  by (simp_all add: continues_def)

lemma database_error_simps [simp]: "database_error (Sql s)" "\<not> database_error (Repository f)"
  "\<not> database_error (Domain d)" "\<not> database_error (HTTPException n t)"
  by (simp_all add: database_error_def)

lemma rejects_error: "rejects e \<Longrightarrow> database_error e"
  by (auto simp: rejects_def)

text \<open>
  \<open>tracks S sm m w\<close>: from a settled session that sees \<open>w\<close>, the code over the session ends as the
  program \<open>m\<close> does, what is durable then are the tables of \<open>m\<close>, and unless a database error is
  on its way to the client the session is settled again.
\<close>

definition tracks :: "'c sessions \<Rightarrow> ('c, 'a) db \<Rightarrow> 'a py \<Rightarrow> world \<Rightarrow> bool" where
  "tracks S sm m w = (transactional S \<longrightarrow> (\<forall>c. settled S c \<longrightarrow> sees S c = w \<longrightarrow>
     fst (sm c) = fst (m w) \<and> durable S (snd (sm c)) = snd (m w) \<and>
     (continues (fst (m w)) \<longrightarrow> settled S (snd (sm c)))))"

lemma laws:
  assumes "transactional S"
  shows "sees S (open_session S w) = w" "durable S (open_session S w) = w" "\<not> refuses S (open_session S w)"
    "\<not> refuses S c \<Longrightarrow> sees S (accepted S c v) = v"
    "\<not> refuses S c \<Longrightarrow> durable S (accepted S c v) = (durable S c)\<lparr>draws := draws v\<rparr>"
    "\<not> refuses S c \<Longrightarrow> \<not> refuses S (accepted S c v)"
    "\<not> refuses S c \<Longrightarrow> durable S (rejected S c n) = (durable S c)\<lparr>draws := n\<rparr>"
    "sees S (drawn S c n) = (sees S c)\<lparr>draws := n\<rparr>" "durable S (drawn S c n) = (durable S c)\<lparr>draws := n\<rparr>"
    "refuses S (drawn S c n) = refuses S c"
    "\<not> refuses S c \<Longrightarrow> sees S (committed S c) = sees S c"
    "\<not> refuses S c \<Longrightarrow> durable S (committed S c) = sees S c" "\<not> refuses S c \<Longrightarrow> \<not> refuses S (committed S c)"
    "sees S (rolled_back S c) = durable S c" "durable S (rolled_back S c) = durable S c"
    "\<not> refuses S (rolled_back S c)"
  using assms by (simp_all add: transactional_def)

lemma tracksI:
  assumes "\<And>c r c'. transactional S \<Longrightarrow> \<not> refuses S c \<Longrightarrow> sees S c = w \<Longrightarrow> durable S c = w \<Longrightarrow> sm c = (r, c') \<Longrightarrow>
    r = fst (m w) \<and> durable S c' = snd (m w) \<and> (continues r \<longrightarrow> settled S c')"
  shows "tracks S sm m w"
  unfolding tracks_def
proof (intro allI impI)
  fix c assume "transactional S" "settled S c" "sees S c = w"
  then have "transactional S" "\<not> refuses S c" "sees S c = w" "durable S c = w" by (simp_all add: settled_def)
  from assms [OF this prod.collapse [symmetric]]
  show "fst (sm c) = fst (m w) \<and> durable S (snd (sm c)) = snd (m w) \<and>
      (continues (fst (m w)) \<longrightarrow> settled S (snd (sm c)))" by metis
qed

lemma tracksD:
  assumes "tracks S sm m w" and "transactional S" and "settled S c" and "sees S c = w" and "m w = (r, w')"
  obtains c' where "sm c = (r, c')" "durable S c' = w'" "continues r \<Longrightarrow> settled S c'"
    "continues r \<Longrightarrow> sees S c' = w'"
proof -
  obtain r' c' where sm: "sm c = (r', c')" by fastforce
  with assms have "r' = r" "durable S c' = w'" "continues r \<longrightarrow> settled S c'"
    unfolding tracks_def by (metis fst_conv snd_conv)+
  with sm that show ?thesis by (metis settled_def)
qed

text \<open>A whole session.\<close>

lemma get_db_tracks:
  assumes "transactional S" and "tracks S sm m w"
  shows "get_db S sm w = m w"
proof -
  obtain r w' where m: "m w = (r, w')" by fastforce
  have "settled S (open_session S w)" "sees S (open_session S w) = w"
    by (simp_all add: settled_def laws [OF assms(1)])
  from tracksD [OF assms(2,1) this m] obtain c' where
    "sm (open_session S w) = (r, c')" "durable S c' = w'" by blast
  with m show ?thesis by (simp add: get_db_def)
qed

section \<open>Rules\<close>

lemma tracks_pure: "tracks S (pure x) (pure x) w"
  by (simp add: tracks_def pure_run settled_def)

lemma tracks_raise: "tracks S (raise e) (raise e) w"
  by (simp add: tracks_def raise_run settled_def)

lemma tracks_then:
  assumes "tracks S sm m w" and "\<And>x w'. m w = (Inr x, w') \<Longrightarrow> tracks S (sf x) (f x) w'"
  shows "tracks S (and_then sm sf) (and_then m f) w"
proof (rule tracksI)
  fix c r c' assume S: "transactional S" and "\<not> refuses S c" "durable S c = w" and w: "sees S c = w"
    and run: "and_then sm sf c = (r, c')"
  then have c: "settled S c" by (simp add: settled_def)
  obtain q w1 where m: "m w = (q, w1)" by fastforce
  from tracksD [OF assms(1) S c w m] obtain c1 where sm: "sm c = (q, c1)" "durable S c1 = w1"
    "continues q \<Longrightarrow> settled S c1" "continues q \<Longrightarrow> sees S c1 = w1" by blast
  show "r = fst (and_then m f w) \<and> durable S c' = snd (and_then m f w) \<and> (continues r \<longrightarrow> settled S c')"
  proof (cases q)
    case (Inl e)
    with run m sm show ?thesis by (auto simp: run_simps)
  next
    case (Inr x)
    obtain q2 w2 where f: "f x w1 = (q2, w2)" by fastforce
    have "settled S c1" "sees S c1 = w1" using sm Inr by simp_all
    from tracksD [OF assms(2) S this f] m Inr obtain c2 where
      "sf x c1 = (q2, c2)" "durable S c2 = w2" "continues q2 \<Longrightarrow> settled S c2" by metis
    with Inr run m sm(1) f show ?thesis by (auto simp: run_simps)
  qed
qed

text \<open>An exception handler that catches no database error.\<close>

lemma tracks_except:
  assumes "tracks S sm m w"
    and "\<And>e w'. m w = (Inl e, w') \<Longrightarrow>
      (h e = None \<and> sh e = None) \<or>
      (\<not> database_error e \<and> (\<exists>k sk. h e = Some k \<and> sh e = Some sk \<and> tracks S sk k w'))"
  shows "tracks S (try_except sm sh) (try_except m h) w"
proof (rule tracksI)
  fix c r c' assume S: "transactional S" and "\<not> refuses S c" "durable S c = w" and w: "sees S c = w"
    and run: "try_except sm sh c = (r, c')"
  then have c: "settled S c" by (simp add: settled_def)
  obtain q w1 where m: "m w = (q, w1)" by fastforce
  from tracksD [OF assms(1) S c w m] obtain c1 where sm: "sm c = (q, c1)" "durable S c1 = w1"
    "continues q \<Longrightarrow> settled S c1" "continues q \<Longrightarrow> sees S c1 = w1" by blast
  show "r = fst (try_except m h w) \<and> durable S c' = snd (try_except m h w) \<and> (continues r \<longrightarrow> settled S c')"
  proof (cases q)
    case (Inl e)
    from assms(2) [of e w1] m Inl consider "h e = None" "sh e = None"
      | k sk where "continues q" "h e = Some k" "sh e = Some sk" "tracks S sk k w1" by auto
    then show ?thesis
    proof cases
      case 1
      with Inl run m sm show ?thesis by (auto simp: run_simps)
    next
      case 2
      obtain q2 w2 where k: "k w1 = (q2, w2)" by fastforce
      from tracksD [OF 2(4) S sm(3) [OF 2(1)] sm(4) [OF 2(1)] k] obtain c2 where
        "sk c1 = (q2, c2)" "durable S c2 = w2" "continues q2 \<Longrightarrow> settled S c2" by blast
      with 2 Inl run m sm(1) k show ?thesis by (auto simp: run_simps)
    qed
  qed (use run m sm in \<open>auto simp: run_simps\<close>)
qed

lemma tracks_if: "(b \<Longrightarrow> tracks S sm m w) \<Longrightarrow> (\<not> b \<Longrightarrow> tracks S sk k w) \<Longrightarrow>
    tracks S (if b then sm else sk) (if b then m else k) w"
  by simp

lemma tracks_option: "tracks S sm m w \<Longrightarrow> (\<And>x. v = Some x \<Longrightarrow> tracks S (sf x) (f x) w) \<Longrightarrow>
    tracks S (case v of None \<Rightarrow> sm | Some x \<Rightarrow> sf x) (case v of None \<Rightarrow> m | Some x \<Rightarrow> f x) w"
  by (cases v) simp_all

section \<open>The steps of a session\<close>

lemma quiet_draws: "quiet w v \<Longrightarrow> w\<lparr>draws := draws v\<rparr> = v"
  by (auto simp: quiet_iff)

text \<open>A query, and a computation outside the database.\<close>

lemma tracks_read:
  assumes "obeys quiet m"
  shows "tracks S (execute S m) m w"
proof (rule tracksI)
  fix c r c' assume S: "transactional S" and c: "\<not> refuses S c" "sees S c = w" "durable S c = w"
    and run: "execute S m c = (r, c')"
  obtain q v where m: "m w = (q, v)" by fastforce
  have v: "w\<lparr>draws := draws v\<rparr> = v" by (rule quiet_draws) (rule obeysD [OF assms m])
  from c m run show "r = fst (m w) \<and> durable S c' = snd (m w) \<and> (continues r \<longrightarrow> settled S c')"
    by (cases q) (auto simp: execute_def settled_def v [folded c(2)] laws [OF S] dest: rejects_error split: if_splits)
qed

lemma tracks_in_process:
  assumes "obeys quiet m"
  shows "tracks S (in_process S m) m w"
proof (rule tracksI)
  fix c r c' assume S: "transactional S" and c: "\<not> refuses S c" "sees S c = w" "durable S c = w"
    and run: "in_process S m c = (r, c')"
  obtain q v where m: "m w = (q, v)" by fastforce
  have v: "w\<lparr>draws := draws v\<rparr> = v" by (rule quiet_draws) (rule obeysD [OF assms m])
  from c m run show "r = fst (m w) \<and> durable S c' = snd (m w) \<and> (continues r \<longrightarrow> settled S c')"
    by (auto simp: in_process_def settled_def v [folded c(2)] laws [OF S])
qed

text \<open>
  A statement that is rejected leaves the tables alone, and every statement raises nothing but
  database errors; so written and committed at once it does what it says.
\<close>

definition statement :: "'a py \<Rightarrow> bool" where
  "statement m = (\<forall>w e w'. m w = (Inl e, w') \<longrightarrow> rejects e \<and> quiet w w')"

lemma flush_commit_run:
  assumes "statement m" and S: "transactional S" and c: "\<not> refuses S c" "sees S c = w" "durable S c = w"
    and m: "m w = (r, v)" and run: "flush_commit S m c = (r', c')"
  shows "r' = r" and "durable S c' = v" and "\<And>x. r = Inr x \<Longrightarrow> settled S c'" and "\<And>e. r = Inl e \<Longrightarrow> rejects e"
proof -
  have e: "rejects e \<and> w\<lparr>draws := draws v\<rparr> = v" if "r = Inl e" for e
    using assms(1) m that by (auto simp: statement_def dest: quiet_draws)
  then show "rejects e" if "r = Inl e" for e using that by blast
  show "r' = r" "durable S c' = v" using c m run e
    by (cases r; auto simp: flush_commit_def execute_def commit_def run_simps laws [OF S])+
  show "settled S c'" if "r = Inr x" for x
    using that c m run by (auto simp: flush_commit_def execute_def commit_def run_simps settled_def laws [OF S])
qed

lemma tracks_flush_commit:
  assumes "statement m"
  shows "tracks S (flush_commit S m) m w"
proof (rule tracksI)
  fix c r c' assume S: "transactional S" and c: "\<not> refuses S c" "sees S c = w" "durable S c = w"
    and run: "flush_commit S m c = (r, c')"
  obtain q v where m: "m w = (q, v)" by fastforce
  from flush_commit_run [OF assms S c m run]
  show "r = fst (m w) \<and> durable S c' = snd (m w) \<and> (continues r \<longrightarrow> settled S c')"
    by (cases q) (auto simp: m dest: rejects_error)
qed

text \<open>With its \<open>except\<close> clause: after the rollback the session is as good as new.\<close>

lemma tracks_commit_reporting:
  assumes "statement m"
  shows "tracks S (commit_reporting S err m)
    (try_except m (\<lambda>e. if e = Sql IntegrityError then Some (raise (Repository err)) else None)) w"
    (is "tracks S _ ?m w")
proof (rule tracksI)
  fix c r c' assume S: "transactional S" and c: "\<not> refuses S c" "sees S c = w" "durable S c = w"
    and run: "commit_reporting S err m c = (r, c')"
  obtain q v where m: "m w = (q, v)" by fastforce
  obtain q1 c1 where f: "flush_commit S m c = (q1, c1)" by fastforce
  from flush_commit_run [OF assms S c m f] run f m
  show "r = fst (?m w) \<and> durable S c' = snd (?m w) \<and> (continues r \<longrightarrow> settled S c')"
    by (cases q) (auto simp: commit_reporting_def run_simps rollback_def settled_def laws [OF S]
        dest: rejects_error split: if_splits)
qed

text \<open>Reading the written row back, when the query finds it under its key.\<close>

lemma tracks_read_back:
  assumes "query w = [r]" and "sm = pure r"
  shows "tracks S (execute S (session_refresh query)) sm w"
proof -
  have "tracks S (execute S (session_refresh query)) (session_refresh query) w"
    by (rule tracks_read) (auto simp: obeys_def session_refresh_def quiet_def split: list.split)
  moreover have "session_refresh query w = pure r w" using assms(1) by (simp add: session_refresh_def pure_def)
  ultimately show ?thesis by (simp add: tracks_def assms(2))
qed

lemma tracks_write_back:
  assumes "statement m" and "\<And>w r w'. m w = (Inr r, w') \<Longrightarrow> query r w' = [r]"
  shows "tracks S (write_back S m query) m w"
proof -
  have "tracks S (write_back S m query) (and_then m pure) w"
    unfolding write_back_def
    by (rule tracks_then [OF tracks_flush_commit [OF assms(1)]], rule tracks_read_back [OF assms(2)])
      (assumption, rule refl)
  then show ?thesis by simp
qed

lemma tracks_write_reporting:
  assumes "statement m" and "\<And>w r w'. m w = (Inr r, w') \<Longrightarrow> query r w' = [r]"
  shows "tracks S (write_reporting S err m query)
    (try_except m (\<lambda>e. if e = Sql IntegrityError then Some (raise (Repository err)) else None)) w"
    (is "tracks S _ ?t w")
proof -
  have "tracks S (write_reporting S err m query) (and_then ?t pure) w"
    unfolding write_reporting_def
  proof (rule tracks_then [OF tracks_commit_reporting [OF assms(1)]], rule tracks_read_back [OF _ refl])
    fix r w' assume "?t w = (Inr r, w')"
    then have "m w = (Inr r, w')" by (auto simp: run_simps split: prod.splits sum.splits if_splits)
    then show "query r w' = [r]" by (rule assms(2))
  qed
  then show ?thesis by simp
qed

lemma statement_insert_row: "statement (insert_row fits consistent store r)"
  by (auto simp: statement_def insert_row_def rejects_def quiet_def split: if_splits)

lemma statement_insert_new: "statement (insert_new X mk fits consistent store)"
  unfolding statement_def insert_new_run
  by (auto simp: insert_row_def rejects_def quiet_def tables_def split: if_splits)

end
