(* ===== verification/Sessions.thy ===== *)
theory Sessions
  imports Unit_Of_Work Turns
begin

text \<open>
  Every request over a session of its own: the repositories with their flushes, commits and
  rollbacks where the code has them, and the services, dependencies and routes over them.
  A method of one statement and its commit is written as that statement of the sequential model;
  the clocks and random values it is built from are read first.
\<close>

section \<open>Repositories\<close>

definition s_create_user :: "'c sessions \<Rightarrow> env \<Rightarrow> string \<Rightarrow> string \<Rightarrow> ('c, user) db" where
  "s_create_user S X email password_hash =
     write_reporting S (DuplicateEmailError (''Email already registered: '' @ py_lower email))
       (insert_new X (new_user (py_lower email) password_hash) user_fits user_consistent store_user)
       (\<lambda>u. user_rows (usr_id u))"

definition s_update_last_login :: "'c sessions \<Rightarrow> env \<Rightarrow> user \<Rightarrow> ('c, user) db" where
  "s_update_last_login S X u = write_back S (update_last_login X u) (\<lambda>u. user_rows (usr_id u))"

definition s_role_create :: "'c sessions \<Rightarrow> env \<Rightarrow> string \<Rightarrow> string option \<Rightarrow> uuid option \<Rightarrow> ('c, role) db" where
  "s_role_create S X name description organization_id =
     write_reporting S (DuplicateRoleNameError (''Role name already exists: '' @ name))
       (insert_new X (new_role name description organization_id) role_fits role_consistent store_role)
       (\<lambda>r. role_rows (role_id r))"

text \<open>Rows of the table \<open>role_permissions\<close> are written without an object of their own.\<close>

definition s_add_permission :: "'c sessions \<Rightarrow> uuid \<Rightarrow> uuid \<Rightarrow> ('c, unit) db" where
  "s_add_permission S i p =
     and_then (commit_reporting S
       (DuplicateRolePermissionError
          (''Role '' @ uuid_str i @ '' already has permission '' @ uuid_str p))
       (insert_row (\<lambda>_. True) role_permission_consistent store_role_permission
          \<lparr>rp_role_id = i, rp_permission_id = p\<rparr>)) (\<lambda>_. pure ())"

definition s_remove_permission :: "'c sessions \<Rightarrow> uuid \<Rightarrow> uuid \<Rightarrow> ('c, bool) db" where
  "s_remove_permission S i p = flush_commit S (remove_permission i p)"

definition s_user_role_assign :: "'c sessions \<Rightarrow> env \<Rightarrow> uuid \<Rightarrow> uuid \<Rightarrow> uuid option \<Rightarrow> ('c, user_role) db" where
  "s_user_role_assign S X user_id r organization_id =
     write_reporting S (DuplicateRoleAssignmentError (assignment_message user_id r organization_id))
       (insert_new X (new_user_role user_id r organization_id) (\<lambda>_. True) user_role_consistent store_user_role)
       (\<lambda>a. assignment_rows (ur_id a))"

definition s_user_role_revoke :: "'c sessions \<Rightarrow> uuid \<Rightarrow> uuid \<Rightarrow> uuid option \<Rightarrow> ('c, bool) db" where
  "s_user_role_revoke S user_id r organization_id =
     and_then (execute S (scalar_one_or_none (\<lambda>w.
       filter (assignment_row user_id r organization_id) (user_roles w)))) (\<lambda>found.
     case found of
       None \<Rightarrow> pure False
     | Some a \<Rightarrow> and_then (flush_commit S (delete_user_role a)) (\<lambda>_. pure True))"

definition s_organization_create :: "'c sessions \<Rightarrow> env \<Rightarrow> string \<Rightarrow> ('c, organization) db" where
  "s_organization_create S X name =
     write_reporting S (DuplicateOrganizationNameError (''Organization name already exists: '' @ name))
       (insert_new X (new_organization name) organization_fits organization_consistent store_organization)
       (\<lambda>g. organization_rows (org_id g))"

definition s_membership_add :: "'c sessions \<Rightarrow> env \<Rightarrow> uuid \<Rightarrow> uuid \<Rightarrow> ('c, organization_membership) db" where
  "s_membership_add S X user_id organization_id =
     write_reporting S (DuplicateMembershipError
         (''User '' @ uuid_str user_id @ '' is already a member of organization '' @
          uuid_str organization_id))
       (insert_new X (new_membership user_id organization_id) (\<lambda>_. True) membership_consistent store_membership)
       (\<lambda>m. membership_rows (mem_id m))"

definition s_membership_remove :: "'c sessions \<Rightarrow> uuid \<Rightarrow> uuid \<Rightarrow> ('c, bool) db" where
  "s_membership_remove S user_id organization_id =
     and_then (execute S (scalar_one_or_none (\<lambda>w.
       filter (membership_row user_id organization_id) (organization_memberships w)))) (\<lambda>membership.
     case membership of
       None \<Rightarrow> pure False
     | Some m \<Rightarrow> and_then (flush_commit S (delete_membership m)) (\<lambda>_. pure True))"

definition s_audit_record ::
  "'c sessions \<Rightarrow> env \<Rightarrow> string \<Rightarrow> uuid option \<Rightarrow> string option \<Rightarrow> uuid option \<Rightarrow> uuid option \<Rightarrow> dict option \<Rightarrow>
   ('c, audit_log) db" where
  "s_audit_record S X action actor target_type target_id org metadata =
     write_back S (audit_record X action actor target_type target_id org metadata) (\<lambda>l. log_rows (log_id l))"

section \<open>Refresh tokens\<close>

definition token_rows :: "uuid \<Rightarrow> world \<Rightarrow> refresh_token list" where
  "token_rows i w = filter (\<lambda>r. rt_id r = i) (refresh_tokens w)"

definition s_refresh_token_create :: "'c sessions \<Rightarrow> env \<Rightarrow> uuid \<Rightarrow> string \<Rightarrow> datetime \<Rightarrow> ('c, refresh_token) db" where
  "s_refresh_token_create S X user_id token_hash expires_at =
     write_back S (refresh_token_create X user_id token_hash expires_at) (\<lambda>t. token_rows (rt_id t))"

definition s_revoke :: "'c sessions \<Rightarrow> env \<Rightarrow> refresh_token \<Rightarrow> ('c, refresh_token) db" where
  "s_revoke S X token =
     and_then (in_process S (utc_now X)) (\<lambda>now.
     and_then (flush_commit S (update_tokens (\<lambda>r. rt_id r = rt_id token) (set_revoked now))) (\<lambda>_.
     execute S (token_refresh token)))"

text \<open>The three statements of a rotation are one transaction; a lost race leaves it open.\<close>

definition s_create_rotation_pair ::
  "'c sessions \<Rightarrow> env \<Rightarrow> refresh_token \<Rightarrow> string \<Rightarrow> datetime \<Rightarrow> ('c, refresh_token option) db" where
  "s_create_rotation_pair S X old_token new_token_hash new_expires_at =
     and_then (in_process S (utc_now X)) (\<lambda>now.
     and_then (execute S (update_tokens (unrevoked_row (rt_id old_token)) (set_revoked now))) (\<lambda>rowcount.
     if rowcount = 0 then pure None
     else
       and_then (execute S (refresh_token_create X (rt_user_id old_token) new_token_hash new_expires_at))
         (\<lambda>new_token.
       and_then (execute S (update_tokens (\<lambda>r. rt_id r = rt_id old_token) (set_replaced (rt_id new_token))))
         (\<lambda>_.
       and_then (commit S) (\<lambda>_.
       and_then (execute S (token_refresh new_token)) (\<lambda>n.
       and_then (execute S (token_refresh old_token)) (\<lambda>_. pure (Some n))))))))"

text \<open>The family walk commits only the revocation it made.\<close>

fun s_family_walk :: "'c sessions \<Rightarrow> nat \<Rightarrow> env \<Rightarrow> uuid \<Rightarrow> ('c, refresh_token option) db" where
  "s_family_walk S 0 X next_id = pure None"
| "s_family_walk S (Suc k) X next_id =
     and_then (execute S (token_get_by_id next_id)) (\<lambda>found.
     case found of
       None \<Rightarrow> pure None
     | Some candidate \<Rightarrow>
         (case rt_replaced_by candidate of
            Some i \<Rightarrow> s_family_walk S k X i
          | None \<Rightarrow>
              and_then (in_process S (utc_now X)) (\<lambda>now.
              and_then (execute S (update_tokens (unrevoked_row (rt_id candidate)) (set_revoked now))) (\<lambda>rowcount.
              if rowcount = 0 then
                and_then (execute S (token_get_by_id (rt_id candidate))) (\<lambda>refreshed.
                case refreshed of
                  None \<Rightarrow> pure None
                | Some r \<Rightarrow>
                    (case rt_replaced_by r of None \<Rightarrow> pure None | Some i \<Rightarrow> s_family_walk S k X i))
              else
                and_then (commit S) (\<lambda>_.
                and_then (execute S (token_refresh candidate)) (\<lambda>r. pure (Some r)))))))"

definition s_revoke_descendants :: "'c sessions \<Rightarrow> env \<Rightarrow> refresh_token \<Rightarrow> ('c, refresh_token option) db" where
  "s_revoke_descendants S X token =
     (case rt_replaced_by token of
        None \<Rightarrow> pure None
      | Some next_id \<Rightarrow> s_family_walk S MAX_FAMILY_WALK_STEPS X next_id)"

section \<open>The authentication service\<close>

definition s_auth_register :: "'c sessions \<Rightarrow> env \<Rightarrow> string \<Rightarrow> string \<Rightarrow> ('c, register_response) db" where
  "s_auth_register S X email password =
     and_then (in_process S (hash_password X password)) (\<lambda>password_hash.
     and_then
       (try_except (s_create_user S X email password_hash)
         (\<lambda>e. case e of
            Repository (DuplicateEmailError _) \<Rightarrow> Some (
              and_then (s_audit_record S X USER_REGISTRATION_FAILED None (Some ''user'') None None
                 (Some [(''attempted_email'', JStr email), (''reason'', JStr ''duplicate_email'')]))
              (\<lambda>_. raise (Domain (EmailAlreadyExistsError
                 ''Unable to register with the provided details.''))))
          | _ \<Rightarrow> None)) (\<lambda>u.
     and_then (s_audit_record S X USER_REGISTERED (Some (usr_id u)) (Some ''user'') (Some (usr_id u))
        None None) (\<lambda>_.
     pure \<lparr>reg_id = usr_id u, reg_email = usr_email u, reg_created_at = usr_created_at u\<rparr>)))"

definition s_issue_token_pair :: "'c sessions \<Rightarrow> env \<Rightarrow> user \<Rightarrow> ('c, token_response) db" where
  "s_issue_token_pair S X u =
     and_then (in_process S (create_access_token X (uuid_str (usr_id u)))) (\<lambda>access_token.
     and_then (in_process S (generate_refresh_token X)) (\<lambda>raw_refresh_token.
     let token_hash = hash_refresh_token X raw_refresh_token in
     and_then (in_process S (refresh_token_expiry X)) (\<lambda>expires_at.
     and_then (s_refresh_token_create S X (usr_id u) token_hash expires_at) (\<lambda>_.
     pure \<lparr>resp_access_token = access_token, resp_refresh_token = raw_refresh_token,
           resp_token_type = ''bearer'', resp_expires_in = access_token_ttl_seconds X\<rparr>))))"

definition s_auth_login :: "'c sessions \<Rightarrow> env \<Rightarrow> string \<Rightarrow> string \<Rightarrow> ('c, token_response) db" where
  "s_auth_login S X email password =
     and_then (execute S (user_get_by_email email)) (\<lambda>found.
     case found of
       None \<Rightarrow>
         and_then (s_audit_record S X USER_LOGIN_FAILED None (Some ''user'') None None
            (Some [(''attempted_email'', JStr email), (''reason'', JStr ''unknown_email'')]))
         (\<lambda>_. raise (Domain (InvalidCredentialsError ''Invalid email or password.'')))
     | Some u \<Rightarrow>
         if \<not> usr_is_active u then
           and_then (s_audit_record S X USER_LOGIN_FAILED (Some (usr_id u)) (Some ''user'')
              (Some (usr_id u)) None (Some [(''reason'', JStr ''inactive_account'')]))
           (\<lambda>_. raise (Domain (InactiveUserError ''Account is inactive.'')))
         else if \<not> verify_password X password (usr_password_hash u) then
           and_then (s_audit_record S X USER_LOGIN_FAILED (Some (usr_id u)) (Some ''user'')
              (Some (usr_id u)) None (Some [(''reason'', JStr ''wrong_password'')]))
           (\<lambda>_. raise (Domain (InvalidCredentialsError ''Invalid email or password.'')))
         else
           and_then (s_update_last_login S X u) (\<lambda>_.
           and_then (s_audit_record S X USER_LOGIN_SUCCEEDED (Some (usr_id u)) (Some ''user'')
              (Some (usr_id u)) None None) (\<lambda>_.
           s_issue_token_pair S X u)))"

definition s_record_rejection :: "'c sessions \<Rightarrow> env \<Rightarrow> refresh_token \<Rightarrow> string \<Rightarrow> ('c, audit_log) db" where
  "s_record_rejection S X token reason =
     s_audit_record S X REFRESH_TOKEN_REJECTED (Some (rt_user_id token)) (Some ''user'')
       (Some (rt_user_id token)) None (Some [(''reason'', JStr reason)])"

definition s_handle_revoked_token :: "'c sessions \<Rightarrow> env \<Rightarrow> refresh_token \<Rightarrow> ('c, unit) db" where
  "s_handle_revoked_token S X token =
     (case rt_replaced_by token of
        None \<Rightarrow> and_then (s_record_rejection S X token ''revoked_token'') (\<lambda>_. pure ())
      | Some _ \<Rightarrow>
          and_then (s_revoke_descendants S X token) (\<lambda>revoked_leaf.
          and_then (s_audit_record S X REFRESH_TOKEN_REUSE_DETECTED (Some (rt_user_id token)) (Some ''user'')
             (Some (rt_user_id token)) None
             (Some [(''presented_token_id'', JStr (uuid_str (rt_id token))),
                    (''family_already_revoked'', JBool (revoked_leaf = None))])) (\<lambda>_.
          case revoked_leaf of
            None \<Rightarrow> pure ()
          | Some leaf \<Rightarrow>
              and_then (s_audit_record S X REFRESH_TOKEN_FAMILY_REVOKED (Some (rt_user_id token))
                 (Some ''refresh_token'') (Some (rt_id leaf)) None
                 (Some [(''presented_token_id'', JStr (uuid_str (rt_id token)))])) (\<lambda>_.
              pure ()))))"

definition s_rotate_token :: "'c sessions \<Rightarrow> env \<Rightarrow> refresh_token \<Rightarrow> user \<Rightarrow> ('c, token_response) db" where
  "s_rotate_token S X token u =
     and_then (in_process S (generate_refresh_token X)) (\<lambda>new_raw_refresh_token.
     and_then (in_process S (refresh_token_expiry X)) (\<lambda>new_expires_at.
     and_then (s_create_rotation_pair S X token (hash_refresh_token X new_raw_refresh_token) new_expires_at)
       (\<lambda>new_token.
     case new_token of
       None \<Rightarrow>
         and_then (s_record_rejection S X token ''concurrent_rotation_lost'') (\<lambda>_.
         raise invalid_refresh_token)
     | Some _ \<Rightarrow>
         and_then (s_audit_record S X REFRESH_TOKEN_ROTATED (Some (usr_id u)) (Some ''user'')
            (Some (usr_id u)) None None) (\<lambda>_.
         and_then (in_process S (create_access_token X (uuid_str (usr_id u)))) (\<lambda>access_token.
         pure \<lparr>resp_access_token = access_token, resp_refresh_token = new_raw_refresh_token,
               resp_token_type = ''bearer'', resp_expires_in = access_token_ttl_seconds X\<rparr>)))))"

definition s_auth_refresh :: "'c sessions \<Rightarrow> env \<Rightarrow> string \<Rightarrow> ('c, token_response) db" where
  "s_auth_refresh S X presented =
     and_then (execute S (token_get_by_hash (hash_refresh_token X presented))) (\<lambda>found.
     case found of
       None \<Rightarrow>
         and_then (s_audit_record S X REFRESH_TOKEN_REJECTED None None None None
            (Some [(''reason'', JStr ''unknown_token'')])) (\<lambda>_.
         raise invalid_refresh_token)
     | Some token \<Rightarrow>
         if rt_revoked_at token \<noteq> None then
           and_then (s_handle_revoked_token S X token) (\<lambda>_. raise invalid_refresh_token)
         else
           and_then (in_process S (utc_now X)) (\<lambda>now.
           if rt_expires_at token \<le> now then
             and_then (s_record_rejection S X token ''expired_token'') (\<lambda>_. raise invalid_refresh_token)
           else
             and_then (execute S (user_get_by_id (rt_user_id token))) (\<lambda>owner.
             case owner of
               None \<Rightarrow>
                 and_then (s_record_rejection S X token ''inactive_or_deleted_owner'') (\<lambda>_.
                 raise invalid_refresh_token)
             | Some u \<Rightarrow>
                 if \<not> usr_is_active u then
                   and_then (s_record_rejection S X token ''inactive_or_deleted_owner'') (\<lambda>_.
                   raise invalid_refresh_token)
                 else s_rotate_token S X token u)))"

definition s_auth_logout :: "'c sessions \<Rightarrow> env \<Rightarrow> string \<Rightarrow> ('c, unit) db" where
  "s_auth_logout S X presented =
     and_then (execute S (token_get_by_hash (hash_refresh_token X presented))) (\<lambda>found.
     case found of
       None \<Rightarrow> pure ()
     | Some token \<Rightarrow>
         if rt_revoked_at token \<noteq> None then pure ()
         else
           and_then (s_revoke S X token) (\<lambda>_.
           and_then (s_audit_record S X USER_LOGOUT (Some (rt_user_id token)) (Some ''user'')
              (Some (rt_user_id token)) None None) (\<lambda>_.
           pure ())))"

section \<open>The authorization service\<close>

definition s_authorize ::
  "'c sessions \<Rightarrow> env \<Rightarrow> uuid \<Rightarrow> string \<Rightarrow> string \<Rightarrow> uuid option \<Rightarrow> ('c, authorization_decision) db" where
  "s_authorize S X user_id resource action organization_id =
     and_then (execute S (user_get_by_id user_id)) (\<lambda>found.
     if (case found of None \<Rightarrow> True | Some u \<Rightarrow> \<not> usr_is_active u)
     then pure (decision False resource action organization_id)
     else
       and_then (execute S (get_permissions_for_user X user_id organization_id)) (\<lambda>ps.
       let allowed = (\<exists>p \<in> set ps. perm_resource p = resource \<and> perm_action p = action) in
       pure (decision allowed resource action organization_id)))"

definition s_create_role ::
  "'c sessions \<Rightarrow> env \<Rightarrow> string \<Rightarrow> string option \<Rightarrow> uuid option \<Rightarrow> uuid \<Rightarrow> ('c, role_response) db" where
  "s_create_role S X name description organization_id actor =
     and_then
       (case organization_id of
          None \<Rightarrow> pure ()
        | Some i \<Rightarrow> and_then (execute S (require_organization i)) (\<lambda>_. pure ())) (\<lambda>_.
     and_then
       (try_except (s_role_create S X name description organization_id)
         (\<lambda>e. case e of
            Repository (DuplicateRoleNameError _) \<Rightarrow>
              Some (raise (Domain (RoleNameAlreadyExistsError (''Role name already exists: '' @ name))))
          | _ \<Rightarrow> None)) (\<lambda>r.
     and_then (s_audit_record S X ROLE_CREATED (Some actor) (Some ''role'') (Some (role_id r))
        (role_organization_id r) (Some [(''name'', JStr (role_name r))])) (\<lambda>_.
     pure (role_response r))))"

definition s_check_membership :: "'c sessions \<Rightarrow> uuid \<Rightarrow> uuid option \<Rightarrow> ('c, unit) db" where
  "s_check_membership S user_id organization_id =
     (case organization_id of
        None \<Rightarrow> pure ()
      | Some g \<Rightarrow>
          and_then (execute S (require_organization g)) (\<lambda>_.
          and_then (execute S (is_member user_id g)) (\<lambda>member.
          if \<not> member
          then raise (Domain (UserNotOrganizationMemberError
                 (''User '' @ uuid_str user_id @ '' is not a member of organization '' @ uuid_str g)))
          else pure ())))"

definition s_assign_role :: "'c sessions \<Rightarrow> env \<Rightarrow> uuid \<Rightarrow> uuid \<Rightarrow> uuid option \<Rightarrow> uuid \<Rightarrow> ('c, unit) db" where
  "s_assign_role S X user_id i organization_id actor =
     and_then (execute S (require_role i)) (\<lambda>r.
     if role_organization_id r \<noteq> None \<and> role_organization_id r \<noteq> organization_id
     then raise (Domain (RoleOrganizationMismatchError (mismatch_message i r organization_id)))
     else
       and_then (s_check_membership S user_id organization_id) (\<lambda>_.
       and_then
         (try_except (and_then (s_user_role_assign S X user_id i organization_id) (\<lambda>_. pure ()))
           (\<lambda>e. case e of
              Repository (DuplicateRoleAssignmentError _) \<Rightarrow>
                Some (raise (Domain (RoleAlreadyAssignedError
                  (assignment_message user_id i organization_id))))
            | _ \<Rightarrow> None)) (\<lambda>_.
       and_then (s_audit_record S X ROLE_ASSIGNED (Some actor) (Some ''user'') (Some user_id)
          organization_id (Some [(''role_id'', JStr (uuid_str i))])) (\<lambda>_.
       pure ()))))"

definition s_revoke_role :: "'c sessions \<Rightarrow> env \<Rightarrow> uuid \<Rightarrow> uuid \<Rightarrow> uuid option \<Rightarrow> uuid \<Rightarrow> ('c, bool) db" where
  "s_revoke_role S X user_id i organization_id actor =
     and_then (s_user_role_revoke S user_id i organization_id) (\<lambda>revoked.
     and_then
       (if revoked
        then and_then (s_audit_record S X ROLE_REVOKED (Some actor) (Some ''user'') (Some user_id)
               organization_id (Some [(''role_id'', JStr (uuid_str i))])) (\<lambda>_. pure ())
        else pure ()) (\<lambda>_.
     pure revoked))"

definition s_assign_permission_to_role :: "'c sessions \<Rightarrow> env \<Rightarrow> uuid \<Rightarrow> uuid \<Rightarrow> uuid \<Rightarrow> ('c, unit) db" where
  "s_assign_permission_to_role S X i p actor =
     and_then (execute S (require_role i)) (\<lambda>r.
     and_then (execute S (permission_get_by_id p)) (\<lambda>found.
     case found of
       None \<Rightarrow> raise (Domain (PermissionNotFoundError (''Permission not found: '' @ uuid_str p)))
     | Some _ \<Rightarrow>
         and_then
           (try_except (s_add_permission S i p)
             (\<lambda>e. case e of
                Repository (DuplicateRolePermissionError _) \<Rightarrow>
                  Some (raise (Domain (PermissionAlreadyAssignedError
                    (''Role '' @ uuid_str i @ '' already has permission '' @ uuid_str p))))
              | _ \<Rightarrow> None)) (\<lambda>_.
         and_then (s_audit_record S X PERMISSION_ASSIGNED_TO_ROLE (Some actor) (Some ''role'') (Some i)
            (role_organization_id r) (Some [(''permission_id'', JStr (uuid_str p))])) (\<lambda>_.
         pure ()))))"

definition s_remove_permission_from_role :: "'c sessions \<Rightarrow> env \<Rightarrow> uuid \<Rightarrow> uuid \<Rightarrow> uuid \<Rightarrow> ('c, bool) db" where
  "s_remove_permission_from_role S X i p actor =
     and_then (execute S (require_role i)) (\<lambda>r.
     and_then (s_remove_permission S i p) (\<lambda>removed.
     and_then
       (if removed
        then and_then (s_audit_record S X PERMISSION_REMOVED_FROM_ROLE (Some actor) (Some ''role'') (Some i)
               (role_organization_id r) (Some [(''permission_id'', JStr (uuid_str p))])) (\<lambda>_. pure ())
        else pure ()) (\<lambda>_.
     pure removed)))"

section \<open>The organization and audit log services\<close>

definition s_create_organization :: "'c sessions \<Rightarrow> env \<Rightarrow> string \<Rightarrow> uuid \<Rightarrow> ('c, organization_response) db" where
  "s_create_organization S X name actor =
     and_then
       (try_except (s_organization_create S X name)
         (\<lambda>e. case e of
            Repository (DuplicateOrganizationNameError _) \<Rightarrow>
              Some (raise (Domain (OrganizationNameAlreadyExistsError
                (''Organization name already exists: '' @ name))))
          | _ \<Rightarrow> None)) (\<lambda>g.
     and_then (s_audit_record S X ORGANIZATION_CREATED (Some actor) (Some ''organization'')
        (Some (org_id g)) (Some (org_id g)) (Some [(''name'', JStr (org_name g))])) (\<lambda>_.
     pure (organization_response g)))"

definition s_add_member :: "'c sessions \<Rightarrow> env \<Rightarrow> uuid \<Rightarrow> uuid \<Rightarrow> uuid \<Rightarrow> ('c, unit) db" where
  "s_add_member S X user_id organization_id actor =
     and_then (execute S (user_get_by_id user_id)) (\<lambda>found.
     case found of
       None \<Rightarrow> raise (Domain (UserNotFoundError (''User not found: '' @ uuid_str user_id)))
     | Some _ \<Rightarrow>
         and_then (execute S (organization_exists organization_id)) (\<lambda>_.
         and_then
           (try_except (and_then (s_membership_add S X user_id organization_id) (\<lambda>_. pure ()))
             (\<lambda>e. case e of
                Repository (DuplicateMembershipError _) \<Rightarrow>
                  Some (raise (Domain (OrganizationMembershipAlreadyExistsError
                    (''User '' @ uuid_str user_id @ '' is already a member of organization '' @
                     uuid_str organization_id))))
              | _ \<Rightarrow> None)) (\<lambda>_.
         and_then (s_audit_record S X ORGANIZATION_MEMBER_ADDED (Some actor) (Some ''user'') (Some user_id)
            (Some organization_id) None) (\<lambda>_.
         pure ()))))"

definition s_remove_member :: "'c sessions \<Rightarrow> env \<Rightarrow> uuid \<Rightarrow> uuid \<Rightarrow> uuid \<Rightarrow> ('c, bool) db" where
  "s_remove_member S X user_id organization_id actor =
     and_then (s_membership_remove S user_id organization_id) (\<lambda>removed.
     and_then
       (if removed
        then and_then (s_audit_record S X ORGANIZATION_MEMBER_REMOVED (Some actor) (Some ''user'')
               (Some user_id) (Some organization_id) None) (\<lambda>_. pure ())
        else pure ()) (\<lambda>_.
     pure removed))"

definition s_list_members :: "'c sessions \<Rightarrow> uuid \<Rightarrow> ('c, member_row list) db" where
  "s_list_members S organization_id =
     and_then (execute S (organization_exists organization_id)) (\<lambda>_.
     execute S (get_members_for_organization organization_id))"

definition s_list_events ::
  "'c sessions \<Rightarrow> uuid option \<Rightarrow> uuid option \<Rightarrow> string option \<Rightarrow> int \<Rightarrow> int \<Rightarrow> ('c, audit_log_page) db" where
  "s_list_events S organization_id actor_user_id action limit offset =
     and_then (execute S (audit_list_events organization_id actor_user_id action limit offset)) (\<lambda>events.
     and_then (execute S (audit_count_events organization_id actor_user_id action)) (\<lambda>total.
     pure \<lparr>page_events = events, page_total = total, page_limit = limit, page_offset = offset\<rparr>))"

section \<open>Dependencies and routes\<close>

definition s_get_current_user :: "'c sessions \<Rightarrow> env \<Rightarrow> string option \<Rightarrow> ('c, user) db" where
  "s_get_current_user S X authorization =
     (case authorization of
        None \<Rightarrow> raise unauthorized
      | Some header \<Rightarrow>
          if \<not> py_startswith header ''Bearer '' then raise unauthorized
          else
            let token = py_strip (py_removeprefix header ''Bearer '') in
            if token = '''' then raise unauthorized
            else
              and_then (in_process S
                (try_except (decode_access_token X token)
                  (\<lambda>e. case e of TokenValidationError _ \<Rightarrow> Some (raise unauthorized) | _ \<Rightarrow> None)))
                (\<lambda>payload.
              and_then (in_process S
                (try_except (subject_id payload)
                  (\<lambda>e. case e of
                     Python KeyError \<Rightarrow> Some (raise unauthorized)
                   | Python ValueError \<Rightarrow> Some (raise unauthorized)
                   | Python TypeError \<Rightarrow> Some (raise unauthorized)
                   | _ \<Rightarrow> None))) (\<lambda>user_id.
              and_then (execute S (user_get_by_id user_id)) (\<lambda>found.
              case found of None \<Rightarrow> raise unauthorized | Some u \<Rightarrow> pure u))))"

definition s_require_permission :: "'c sessions \<Rightarrow> env \<Rightarrow> string \<Rightarrow> string \<Rightarrow> string option \<Rightarrow> ('c, user) db" where
  "s_require_permission S X resource action authorization =
     and_then (s_get_current_user S X authorization) (\<lambda>u.
     and_then (s_authorize S X (usr_id u) resource action None) (\<lambda>d.
     if \<not> dec_allowed d then raise (HTTPException 403 PERMISSION_DENIED_DETAIL)
     else pure u))"

definition s_excepting ::
  "'c sessions \<Rightarrow> (domain_error \<Rightarrow> (nat \<times> string) option) \<Rightarrow> ('c, 'a) db \<Rightarrow> ('c, 'a) db" where
  "s_excepting S clauses t =
     try_except t (\<lambda>e. case e of
       Domain d \<Rightarrow>
         (case clauses d of
            None \<Rightarrow> None
          | Some (status, detail) \<Rightarrow> Some (raise (HTTPException status detail)))
     | _ \<Rightarrow> None)"

text \<open>A route behind a permission: who calls, what is done, and how it is answered.\<close>

definition s_admin ::
  "'c sessions \<Rightarrow> env \<Rightarrow> string \<Rightarrow> string \<Rightarrow> string option \<Rightarrow> (user \<Rightarrow> ('c, response) db) \<Rightarrow> ('c, response) db" where
  "s_admin S X resource action auth handler = and_then (s_require_permission S X resource action auth) handler"

definition s_answer :: "'c sessions \<Rightarrow> nat \<Rightarrow> ('a \<Rightarrow> body) \<Rightarrow> ('c, 'a) db \<Rightarrow> ('c, response) db" where
  "s_answer S status body t = and_then t (\<lambda>result. pure (status, body result))"

fun s_serve :: "'c sessions \<Rightarrow> env \<Rightarrow> string option \<Rightarrow> request \<Rightarrow> ('c, response) db" where
  "s_serve S X auth (Register email password) =
     (case email_str X email of
        None \<Rightarrow> raise unprocessable
      | Some address \<Rightarrow>
          if length password < 10 then raise unprocessable
          else s_answer S 201 RegisterBody (s_excepting S register_errors (s_auth_register S X address password)))"
| "s_serve S X auth (Login email password) =
     (case email_str X email of
        None \<Rightarrow> raise unprocessable
      | Some address \<Rightarrow> s_answer S 200 TokenBody (s_excepting S login_errors (s_auth_login S X address password)))"
| "s_serve S X auth (Refresh t) =
     s_answer S 200 TokenBody (s_excepting S refresh_errors (s_auth_refresh S X t))"
| "s_serve S X auth (Logout t) = s_answer S 204 (\<lambda>_. EmptyBody) (s_auth_logout S X t)"
| "s_serve S X auth (Authorize r a g) =
     and_then (s_get_current_user S X auth) (\<lambda>u.
     s_answer S 200 DecisionBody (s_authorize S X (usr_id u) r a g))"
| "s_serve S X auth (CreateRole name d g) =
     s_admin S X ''role'' ''manage'' auth (\<lambda>admin.
     s_answer S 201 RoleBody (s_excepting S create_role_errors (s_create_role S X name d g (usr_id admin))))"
| "s_serve S X auth (AssignPermission i p) =
     s_admin S X ''role'' ''manage'' auth (\<lambda>admin.
     s_answer S 204 (\<lambda>_. EmptyBody)
       (s_excepting S assign_permission_errors (s_assign_permission_to_role S X i p (usr_id admin))))"
| "s_serve S X auth (RemovePermission i p) =
     s_admin S X ''role'' ''manage'' auth (\<lambda>admin.
     s_answer S 204 (\<lambda>_. EmptyBody)
       (s_excepting S remove_permission_errors (s_remove_permission_from_role S X i p (usr_id admin))))"
| "s_serve S X auth (MyPermissions g) =
     and_then (s_get_current_user S X auth) (\<lambda>u.
     s_answer S 200 PermissionsBody (execute S (get_user_permissions X (usr_id u) g)))"
| "s_serve S X auth (AssignRole u i g) =
     s_admin S X ''user'' ''manage'' auth (\<lambda>admin.
     s_answer S 204 (\<lambda>_. EmptyBody) (s_excepting S assign_role_errors (s_assign_role S X u i g (usr_id admin))))"
| "s_serve S X auth (RevokeRole u i g) =
     s_admin S X ''user'' ''manage'' auth (\<lambda>admin.
     s_answer S 204 (\<lambda>_. EmptyBody) (s_revoke_role S X u i g (usr_id admin)))"
| "s_serve S X auth (UserPermissions u g) =
     s_admin S X ''user'' ''manage'' auth (\<lambda>_.
     s_answer S 200 PermissionsBody (execute S (get_user_permissions X u g)))"
| "s_serve S X auth (CreateOrganization name) =
     s_admin S X ''organization'' ''manage'' auth (\<lambda>admin.
     s_answer S 201 OrganizationBody
       (s_excepting S create_organization_errors (s_create_organization S X name (usr_id admin))))"
| "s_serve S X auth (AddMember g u) =
     s_admin S X ''organization'' ''manage'' auth (\<lambda>admin.
     s_answer S 204 (\<lambda>_. EmptyBody) (s_excepting S add_member_errors (s_add_member S X u g (usr_id admin))))"
| "s_serve S X auth (RemoveMember g u) =
     s_admin S X ''organization'' ''manage'' auth (\<lambda>admin.
     s_answer S 204 (\<lambda>_. EmptyBody) (s_remove_member S X u g (usr_id admin)))"
| "s_serve S X auth (ListMembers g) =
     s_admin S X ''organization'' ''manage'' auth (\<lambda>_.
     s_answer S 200 MembersBody (s_excepting S list_members_errors (s_list_members S g)))"
| "s_serve S X auth MyOrganizations =
     and_then (s_get_current_user S X auth) (\<lambda>u.
     s_answer S 200 OrganizationsBody (execute S (list_organizations_for_user X (usr_id u))))"
| "s_serve S X auth (ListAuditLogs g u a limit offset) =
     s_admin S X ''audit'' ''view'' auth (\<lambda>_.
     let l = (case limit of None \<Rightarrow> 50 | Some v \<Rightarrow> v); off = (case offset of None \<Rightarrow> 0 | Some v \<Rightarrow> v) in
     if l < 1 \<or> 200 < l \<or> off < 0 then raise unprocessable
     else s_answer S 200 AuditPageBody (s_list_events S g u a l off))"
| "s_serve S X auth Health = pure (200, HealthBody)"

end
