(* ===== verification/Session_Tracking.thy ===== *)
theory Session_Tracking
  imports Sessions Interference Turns_Alone
begin

text \<open>
  Over a session of its own, with its commits and rollbacks, a request does what the sequential
  model says: every repository method leaves the session settled, so the next one finds what
  was written, and what is durable at the end is all that was written.
\<close>

section \<open>Repositories\<close>

text \<open>A new row has a key that no row has, so it is what the query for its key finds.\<close>

lemma insert_new_back:
  assumes "\<And>w r. consistent w r \<Longrightarrow> query r (store r w) = [r]"
    and "insert_new X mk fits consistent store w = (Inr r, w')"
  shows "query r w' = [r]"
  using assms(2) unfolding insert_new_run
  by (rule insert_row_cases) (auto intro: assms(1))

lemma row_back:
  "user_consistent w u \<Longrightarrow> user_rows (usr_id u) (store_user u w) = [u]"
  "role_consistent w r \<Longrightarrow> role_rows (role_id r) (store_role r w) = [r]"
  "user_role_consistent w a \<Longrightarrow> assignment_rows (ur_id a) (store_user_role a w) = [a]"
  "organization_consistent w g \<Longrightarrow> organization_rows (org_id g) (store_organization g w) = [g]"
  "membership_consistent w m \<Longrightarrow> membership_rows (mem_id m) (store_membership m w) = [m]"
  "audit_log_consistent w l \<Longrightarrow> log_rows (log_id l) (store_audit_log l w) = [l]"
  "refresh_token_consistent w t \<Longrightarrow> token_rows (rt_id t) (store_refresh_token t w) = [t]"
  by (simp_all add: user_rows_def role_rows_def assignment_rows_def organization_rows_def
      membership_rows_def log_rows_def token_rows_def store_user_def store_role_def store_user_role_def
      store_organization_def store_membership_def store_audit_log_def store_refresh_token_def
      user_consistent_def role_consistent_def user_role_consistent_def organization_consistent_def
      membership_consistent_def audit_log_consistent_def refresh_token_consistent_def filter_key_none ids_def)

lemma tracks_inserts:
  "tracks S (s_create_user S X email h) (create_user X email h) w"
  "tracks S (s_role_create S X name d g) (role_create X name d g) w"
  "tracks S (s_user_role_assign S X u r g) (user_role_assign X u r g) w"
  "tracks S (s_organization_create S X name) (organization_create X name) w"
  "tracks S (s_membership_add S X u i) (membership_add X u i) w"
  unfolding s_create_user_def create_user_def s_role_create_def role_create_def s_user_role_assign_def
    user_role_assign_def s_organization_create_def organization_create_def s_membership_add_def
    membership_add_def insert_reporting_def
  by (rule tracks_write_reporting [OF statement_insert_new],
      erule insert_new_back [rotated], rule row_back, assumption)+

lemma tracks_records:
  "tracks S (s_audit_record S X ac a tt ti g md) (audit_record X ac a tt ti g md) w"
  "tracks S (s_refresh_token_create S X u h e) (refresh_token_create X u h e) w"
  unfolding s_audit_record_def audit_record_def s_refresh_token_create_def refresh_token_create_def
  by (rule tracks_write_back [OF statement_insert_new],
      erule insert_new_back [rotated], rule row_back, assumption)+

text \<open>Statements the database does not reject.\<close>

lemma statement_accepted: "(\<And>w. \<exists>x. fst (m w) = Inr x) \<Longrightarrow> statement m"
  unfolding statement_def by (metis Inl_Inr_False fst_conv)

lemma accepted:
  "statement (update_tokens P f)" "statement (delete_user_role a)" "statement (delete_membership m)"
  "statement (remove_permission i p)" "statement (update_last_login X u)"
  by (rule statement_accepted,
      simp add: update_tokens_def delete_user_role_def delete_membership_def remove_permission_def Let_def
        update_last_login_run)+

lemma add_permission_parts:
  "add_permission i p =
     and_then (try_except
       (insert_row (\<lambda>_. True) role_permission_consistent store_role_permission
          \<lparr>rp_role_id = i, rp_permission_id = p\<rparr>)
       (\<lambda>e. if e = Sql IntegrityError
            then Some (raise (Repository (DuplicateRolePermissionError
                   (''Role '' @ uuid_str i @ '' already has permission '' @ uuid_str p))))
            else None)) (\<lambda>_. pure ())"
  by (rule ext) (auto simp: add_permission_def run_simps split: prod.split sum.split)

lemma tracks_grants:
  "tracks S (s_add_permission S i p) (add_permission i p) w"
  "tracks S (s_remove_permission S i p) (remove_permission i p) w"
  unfolding s_add_permission_def add_permission_parts s_remove_permission_def
  by (intro tracks_then tracks_commit_reporting statement_insert_row tracks_pure tracks_flush_commit accepted)+

lemma tracks_removals:
  "tracks S (s_user_role_revoke S u r g) (user_role_revoke u r g) w"
  "tracks S (s_membership_remove S u i) (membership_remove u i) w"
  unfolding s_user_role_revoke_def user_role_revoke_def s_membership_remove_def membership_remove_def
  by (intro tracks_then tracks_option tracks_pure tracks_read tracks_flush_commit accepted
      scalar_one_or_none_quiet)+

section \<open>Refresh tokens\<close>

lemma tracks_revoke: "tracks S (s_revoke S X t) (revoke X t) w"
  unfolding s_revoke_def revoke_def
  by (intro tracks_then tracks_in_process tracks_read tracks_flush_commit accepted utc_now_quiet
      token_refresh_quiet)

lemma tracks_cong:
  "tracks S sm m w \<Longrightarrow>
   (\<And>c. transactional S \<Longrightarrow> \<not> refuses S c \<Longrightarrow> sees S c = w \<Longrightarrow> sm' c = sm c) \<Longrightarrow> m' w = m w \<Longrightarrow>
   tracks S sm' m' w"
  unfolding tracks_def settled_def by metis

lemma after_execute:
  "\<not> refuses S c \<Longrightarrow> m (sees S c) = (Inr x, v) \<Longrightarrow> and_then (execute S m) f c = f x (accepted S c v)"
  by (simp add: and_then_run execute_def)

lemma after_return: "m w = (Inr x, v) \<Longrightarrow> and_then m f w = f x v"
  by (simp add: and_then_run)

text \<open>A guarded UPDATE that hits no row leaves nothing to commit.\<close>

lemma update_none: "filter P (refresh_tokens w) = [] \<Longrightarrow> update_tokens P f w = (Inr 0, w)"
  by (simp add: update_tokens_def update_where_none filter_empty_conv)

lemma tracks_guarded_update:
  assumes "\<And>w. tracks S sm m w" and "\<And>n w. tracks S (sk n) (k n) w"
  shows "tracks S (and_then (execute S (update_tokens P f)) (\<lambda>n. if n = 0 then sm else and_then (commit S) (\<lambda>_. sk n)))
    (and_then (update_tokens P f) (\<lambda>n. if n = 0 then m else k n)) w"
proof (cases "filter P (refresh_tokens w) = []")
  case True
  have "tracks S (and_then (execute S (reads (\<lambda>_. 0 :: nat))) (\<lambda>_. sm)) (and_then (reads (\<lambda>_. 0 :: nat)) (\<lambda>_. m)) w"
    by (intro tracks_then tracks_read reads_quiet assms(1))
  then show ?thesis
    by (rule tracks_cong) (simp_all add: after_execute update_none [OF True] reads_run after_return)
next
  case False
  have "tracks S (and_then (flush_commit S (update_tokens P f)) sk) (and_then (update_tokens P f) k) w"
    by (intro tracks_then tracks_flush_commit accepted assms(2))
  then show ?thesis
    by (rule tracks_cong)
      (use False in \<open>simp_all add: after_execute flush_commit_def and_then_assoc update_tokens_run after_return\<close>)
qed

lemma tracks_family_walk: "tracks S (s_family_walk S k X i) (family_walk k X i) w"
proof (induction k arbitrary: i w)
  case (Suc k)
  show ?case
    unfolding s_family_walk.simps family_walk.simps
    by (intro tracks_then tracks_option tracks_pure tracks_read tracks_in_process token_get_quiet utc_now_quiet
        token_refresh_quiet tracks_guarded_update Suc.IH)
qed (simp add: tracks_pure)

lemma tracks_revoke_descendants: "tracks S (s_revoke_descendants S X t) (revoke_descendants X t) w"
  unfolding s_revoke_descendants_def revoke_descendants_def
  by (intro tracks_option tracks_pure tracks_family_walk)

section \<open>Rotation\<close>

lemma tracks_agree: "tracks S sm m w \<Longrightarrow> m w = m' w \<Longrightarrow> tracks S sm m' w"
  by (simp add: tracks_def)

text \<open>Reading a stored row back for nothing.\<close>

lemma tracks_discard:
  assumes "query w \<noteq> []" and "tracks S sm m w"
  shows "tracks S (and_then (execute S (session_refresh query)) (\<lambda>_. sm)) m w"
proof (rule tracks_agree)
  show "and_then (session_refresh query) (\<lambda>_. m) w = m w" by (rule read_back) (rule assms(1))
  have "tracks S sm m w'" if "session_refresh query w = (Inr x, w')" for x w'
    using that assms by (simp add: session_refresh_def split: list.splits)
  then show "tracks S (and_then (execute S (session_refresh query)) (\<lambda>_. sm)) (and_then (session_refresh query) (\<lambda>_. m)) w"
    by (intro tracks_then tracks_read session_refresh_quiet)
qed

lemma transaction_after:
  assumes "obeys quiet m"
  shows "transaction (and_then m f) = and_then m (\<lambda>x. transaction (f x))"
proof (rule ext)
  fix w
  obtain r w1 where m: "m w = (r, w1)" by fastforce
  from obeysD [OF assms m] have "w1\<lparr>draws := n\<rparr> = w\<lparr>draws := n\<rparr>" for n by (auto simp: quiet_iff)
  moreover from this [of "draws w1"] have "w\<lparr>draws := draws w1\<rparr> = w1" by simp
  ultimately show "transaction (and_then m f) w = and_then m (\<lambda>x. transaction (f x)) w"
    using m by (cases r) (simp_all add: transaction_def and_then_run split: prod.split sum.split)
qed

lemma tracks_rotated:
  assumes "token_rows (rt_id n) w = [n]" and "token_rows (rt_id t) w \<noteq> []"
  shows "tracks S (and_then (execute S (token_refresh n)) (\<lambda>n. and_then (execute S (token_refresh t)) (\<lambda>_. pure (Some n))))
    (pure (Some n)) w"
proof -
  have "tracks S (execute S (token_refresh n)) (pure n) w"
    unfolding token_refresh_def
    by (rule tracks_read_back [OF _ refl]) (use assms(1) in \<open>simp add: token_rows_def\<close>)
  moreover have "tracks S (and_then (execute S (token_refresh t)) (\<lambda>_. pure (Some n))) (pure (Some n)) w"
    unfolding token_refresh_def
    by (rule tracks_discard [OF _ tracks_pure]) (use assms(2) in \<open>simp add: token_rows_def\<close>)
  ultimately have "tracks S (and_then (execute S (token_refresh n)) (\<lambda>n. and_then (execute S (token_refresh t)) (\<lambda>_. pure (Some n))))
    (and_then (pure n) (\<lambda>n. pure (Some n))) w"
    by (elim tracks_then) (simp add: pure_run)
  then show ?thesis by simp
qed

text \<open>
  A transaction of three statements: nothing is durable before its commit, and when the second
  is rejected the first is lost with it.
\<close>

lemma tracks_transaction:
  assumes u: "u w = (Inr y, v)" and m: "statement m"
    and k: "\<And>x v1. m v = (Inr x, v1) \<Longrightarrow> \<exists>z v2. k x v1 = (Inr z, v2) \<and> tracks S (tail x) (pure (g x)) v2"
  shows "tracks S
    (and_then (execute S u) (\<lambda>_. and_then (execute S m) (\<lambda>x. and_then (execute S (k x)) (\<lambda>_. and_then (commit S) (\<lambda>_. tail x)))))
    (transaction (and_then u (\<lambda>_. and_then m (\<lambda>x. and_then (k x) (\<lambda>_. pure (g x)))))) w"
    (is "tracks S ?sm ?m w")
proof (rule tracksI)
  fix c r c' assume S: "transactional S" and c: "\<not> refuses S c" "sees S c = w" "durable S c = w"
    and run: "?sm c = (r, c')"
  show "r = fst (?m w) \<and> durable S c' = snd (?m w) \<and> (continues r \<longrightarrow> settled S c')"
  proof (cases "m v")
    case (Pair q v1)
    show ?thesis
    proof (cases q)
      case (Inl e)
      with m Pair have "rejects e" by (auto simp: statement_def)
      with Inl Pair run c u show ?thesis
        by (auto simp: and_then_run execute_def transaction_def rejects_error laws [OF S])
    next
      case (Inr x)
      with k Pair obtain z v2 where kx: "k x v1 = (Inr z, v2)" and tail: "tracks S (tail x) (pure (g x)) v2" by blast
      let ?c = "committed S (accepted S (accepted S (accepted S c v) v1) v2)"
      have "tail x ?c = (r, c')"
        using Inr Pair run c u kx by (simp add: and_then_run execute_def commit_def laws [OF S])
      moreover have "settled S ?c" "sees S ?c = v2" using c by (simp_all add: settled_def laws [OF S])
      ultimately have "r = Inr (g x) \<and> durable S c' = v2 \<and> settled S c'"
        using tail S by (auto simp: tracks_def pure_run)
      with Inr Pair u kx show ?thesis by (simp add: and_then_run transaction_def pure_run)
    qed
  qed
qed

lemma rows_found: "i \<in> set (map k xs) \<Longrightarrow> filter (\<lambda>r. k r = i) xs \<noteq> []"
  by (auto simp: filter_empty_conv)

lemma won_rows:
  assumes "filter (unrevoked_row (rt_id t)) ts \<noteq> []"
    and "refresh_token_create X i h e (w\<lparr>refresh_tokens := update_where P (set_revoked now) ts\<rparr>) = (Inr n, v)"
  shows "filter (\<lambda>r. rt_id r = rt_id n) (update_where (\<lambda>r. rt_id r = rt_id t) (set_replaced j) (refresh_tokens v)) = [n]"
    and "filter (\<lambda>r. rt_id r = rt_id t) (update_where (\<lambda>r. rt_id r = rt_id t) (set_replaced j) (refresh_tokens v)) \<noteq> []"
proof -
  let ?ts = "update_where P (set_revoked now) ts"
  have ids: "ids rt_id ?ts = ids rt_id ts"
    by (metis ids_def list.set_map update_where_map set_revoked_simps(1))
  from assms(2) have v: "refresh_tokens v = ?ts @ [n]" and "rt_id n \<notin> ids rt_id ?ts"
    by (auto simp: refresh_token_create_def insert_new_run insert_row_def store_refresh_token_def
        refresh_token_consistent_def split: if_splits)
  moreover have "rt_id t \<in> ids rt_id ts"
    using assms(1) by (auto simp: filter_empty_conv unrevoked_row_def ids_def intro: rev_image_eqI)
  ultimately have "rt_id n \<notin> rt_id ` set ?ts" "rt_id t \<in> rt_id ` set ?ts"
    using ids by (simp_all add: ids_def)
  then have n: "rt_id n \<noteq> rt_id t" "\<forall>r \<in> set ?ts. rt_id r \<noteq> rt_id n" "\<exists>r \<in> set ?ts. rt_id r = rt_id t"
    by (metis, metis imageI, metis imageE)
  show "filter (\<lambda>r. rt_id r = rt_id n) (update_where (\<lambda>r. rt_id r = rt_id t) (set_replaced j) (refresh_tokens v)) = [n]"
    using n by (simp add: v update_where_def filter_map o_def filter_empty_conv cong: filter_cong)
  show "filter (\<lambda>r. rt_id r = rt_id t) (update_where (\<lambda>r. rt_id r = rt_id t) (set_replaced j) (refresh_tokens v)) \<noteq> []"
    (is "filter ?P ?us \<noteq> []")
  proof -
    have "map rt_id ?us = map rt_id (refresh_tokens v)" by (rule update_where_map) simp
    moreover from n(3) obtain q where "q \<in> set (refresh_tokens v)" "rt_id q = rt_id t" by (auto simp: v)
    ultimately have "rt_id t \<in> set (map rt_id ?us)" by (metis image_eqI list.set_map)
    then show ?thesis by (rule rows_found)
  qed
qed

lemma tracks_rotation_pair: "tracks S (s_create_rotation_pair S X t h e) (create_rotation_pair X t h e) w"
proof -
  define guard where "guard now = update_tokens (unrevoked_row (rt_id t)) (set_revoked now)" for now
  define relink where "relink n = update_tokens (\<lambda>r. rt_id r = rt_id t) (set_replaced (rt_id n))" for n :: refresh_token
  define reread where "reread n = and_then (execute S (token_refresh n)) (\<lambda>n.
    and_then (execute S (token_refresh t)) (\<lambda>_. pure (Some n)))" for n
  define create where "create = refresh_token_create X (rt_user_id t) h e"
  have "tracks S
     (and_then (execute S (guard now)) (\<lambda>rowcount. if rowcount = 0 then pure None
        else and_then (execute S create) (\<lambda>n. and_then (execute S (relink n)) (\<lambda>_. and_then (commit S) (\<lambda>_. reread n)))))
     (transaction (and_then (guard now) (\<lambda>rowcount. if rowcount = 0 then pure None
        else and_then create (\<lambda>n. and_then (relink n) (\<lambda>_. pure (Some n)))))) w" for now w
  proof (cases "filter (unrevoked_row (rt_id t)) (refresh_tokens w) = []")
    case True
    have "tracks S (and_then (execute S (reads (\<lambda>_. 0 :: nat))) (\<lambda>_. pure None)) (and_then (reads (\<lambda>_. 0 :: nat)) (\<lambda>_. pure None)) w"
      by (intro tracks_then tracks_read reads_quiet tracks_pure)
    then show ?thesis
      by (rule tracks_cong)
        (simp_all add: after_execute guard_def update_none [OF True] reads_run transaction_def after_return pure_run)
  next
    case False
    let ?n = "length (filter (unrevoked_row (rt_id t)) (refresh_tokens w))"
    let ?v = "w\<lparr>refresh_tokens := update_where (unrevoked_row (rt_id t)) (set_revoked now) (refresh_tokens w)\<rparr>"
    have g: "guard now w = (Inr ?n, ?v)" by (simp add: guard_def update_tokens_def)
    have "tracks S
       (and_then (execute S (guard now)) (\<lambda>_. and_then (execute S create) (\<lambda>n. and_then (execute S (relink n)) (\<lambda>_. and_then (commit S) (\<lambda>_. reread n)))))
       (transaction (and_then (guard now) (\<lambda>_. and_then create (\<lambda>n. and_then (relink n) (\<lambda>_. pure (Some n)))))) w"
    proof (rule tracks_transaction)
      show "guard now w = (Inr ?n, ?v)" by (rule g)
      show "statement create" unfolding create_def refresh_token_create_def by (rule statement_insert_new)
      show "\<exists>z v2. relink n v1 = (Inr z, v2) \<and> tracks S (reread n) (pure (Some n)) v2" if "create ?v = (Inr n, v1)" for n v1
        using won_rows [OF False that [unfolded create_def]]
        by (auto simp: relink_def update_tokens_def reread_def token_rows_def intro!: tracks_rotated)
    qed
    then show ?thesis
      by (rule tracks_cong) (use False g in \<open>simp_all add: after_execute transaction_def after_return\<close>)
  qed
  then show ?thesis
    unfolding s_create_rotation_pair_def create_rotation_pair_def transaction_after [OF utc_now_quiet]
      guard_def relink_def reread_def create_def
    by (intro tracks_then tracks_in_process utc_now_quiet)
qed

end
