(* ===== verification/Session_Serving.thy ===== *)
theory Session_Serving
  imports Session_Tracking Authorization_Runs
begin

text \<open>
  The services, dependencies and routes over a session, and with them a whole request.
\<close>

section \<open>Handlers\<close>

lemma tracks_handlers:
  assumes "tracks S sm m w" and "\<And>w. tracks S sk k w"
  shows
    "tracks S (try_except sm (\<lambda>e. case e of Repository (DuplicateEmailError _) \<Rightarrow> Some sk | _ \<Rightarrow> None))
       (try_except m (\<lambda>e. case e of Repository (DuplicateEmailError _) \<Rightarrow> Some k | _ \<Rightarrow> None)) w"
    "tracks S (try_except sm (\<lambda>e. case e of Repository (DuplicateRoleNameError _) \<Rightarrow> Some sk | _ \<Rightarrow> None))
       (try_except m (\<lambda>e. case e of Repository (DuplicateRoleNameError _) \<Rightarrow> Some k | _ \<Rightarrow> None)) w"
    "tracks S (try_except sm (\<lambda>e. case e of Repository (DuplicateRoleAssignmentError _) \<Rightarrow> Some sk | _ \<Rightarrow> None))
       (try_except m (\<lambda>e. case e of Repository (DuplicateRoleAssignmentError _) \<Rightarrow> Some k | _ \<Rightarrow> None)) w"
    "tracks S (try_except sm (\<lambda>e. case e of Repository (DuplicateRolePermissionError _) \<Rightarrow> Some sk | _ \<Rightarrow> None))
       (try_except m (\<lambda>e. case e of Repository (DuplicateRolePermissionError _) \<Rightarrow> Some k | _ \<Rightarrow> None)) w"
    "tracks S (try_except sm (\<lambda>e. case e of Repository (DuplicateOrganizationNameError _) \<Rightarrow> Some sk | _ \<Rightarrow> None))
       (try_except m (\<lambda>e. case e of Repository (DuplicateOrganizationNameError _) \<Rightarrow> Some k | _ \<Rightarrow> None)) w"
    "tracks S (try_except sm (\<lambda>e. case e of Repository (DuplicateMembershipError _) \<Rightarrow> Some sk | _ \<Rightarrow> None))
       (try_except m (\<lambda>e. case e of Repository (DuplicateMembershipError _) \<Rightarrow> Some k | _ \<Rightarrow> None)) w"
  by (rule tracks_except [OF assms(1)]; simp add: assms(2) split: exn.split repository_error.split)+

lemma tracks_excepting:
  assumes "tracks S sm m w"
  shows "tracks S (s_excepting S c sm) (excepting c m) w"
  unfolding s_excepting_def excepting_def
  by (rule tracks_except [OF assms]) (auto simp: tracks_raise split: exn.split option.split)

lemmas tracks_flow = tracks_then tracks_option tracks_if tracks_pure tracks_raise

lemmas tracks_statements = tracks_read [OF user_get_quiet(1)] tracks_read [OF user_get_quiet(2)]
  tracks_read [OF token_get_quiet(1)] tracks_read [OF user_role_get_quiet(2)]
  tracks_read [OF require_quiet(1)] tracks_read [OF require_quiet(2)]
  tracks_read [OF role_get_quiet(3)] tracks_read [OF organization_get_quiet(3)]
  tracks_read [OF organization_get_quiet(6)] tracks_read [OF get_user_permissions_quiet]
  tracks_read [OF exists_quiet] tracks_read [OF audit_reads_quiet(1)] tracks_read [OF audit_reads_quiet(2)]
  tracks_in_process [OF utc_now_quiet] tracks_in_process [OF hash_password_quiet]
  tracks_in_process [OF create_access_token_quiet] tracks_in_process [OF generate_refresh_token_quiet]
  tracks_in_process [OF refresh_token_expiry_quiet]

lemmas tracks_repositories = tracks_inserts tracks_records tracks_grants tracks_removals tracks_revoke
  tracks_rotation_pair tracks_revoke_descendants

lemmas tracks_rules = tracks_flow tracks_handlers tracks_statements tracks_repositories

section \<open>The authentication service\<close>

lemma tracks_register: "tracks S (s_auth_register S X email p) (auth_register X email p) w"
  unfolding s_auth_register_def auth_register_def by (intro tracks_rules)

lemma tracks_login_stamp:
  assumes "u \<in> set (users w)" and "\<And>w. tracks S sm m w"
  shows "tracks S (and_then (s_update_last_login S X u) (\<lambda>_. sm)) (and_then (update_last_login X u) (\<lambda>_. m)) w"
  unfolding s_update_last_login_def write_back_def and_then_assoc
  by (rule tracks_then [OF tracks_flush_commit [OF accepted(5)]])
    (rule tracks_discard [OF update_last_login_stored [OF assms(1)] assms(2)])

lemma tracks_issue: "tracks S (s_issue_token_pair S X u) (issue_token_pair X u) w"
  unfolding s_issue_token_pair_def issue_token_pair_def Let_def by (intro tracks_rules)

lemma tracks_login: "tracks S (s_auth_login S X email p) (auth_login X email p) w"
  unfolding s_auth_login_def auth_login_def
  by (rule tracks_then [OF tracks_read [OF user_get_quiet(1)]])
    (auto intro!: tracks_rules tracks_login_stamp tracks_issue dest: user_by_email_stored split: option.split)

lemma tracks_rejection: "tracks S (s_record_rejection S X t reason) (record_rejection X t reason) w"
  unfolding s_record_rejection_def record_rejection_def by (intro tracks_rules)

lemma tracks_handle_revoked: "tracks S (s_handle_revoked_token S X t) (handle_revoked_token X t) w"
  unfolding s_handle_revoked_token_def handle_revoked_token_def by (intro tracks_rules tracks_rejection)

lemma tracks_rotate: "tracks S (s_rotate_token S X t u) (rotate_token X t u) w"
  unfolding s_rotate_token_def rotate_token_def Let_def by (intro tracks_rules tracks_rejection)

lemma tracks_refresh: "tracks S (s_auth_refresh S X p) (auth_refresh X p) w"
  unfolding s_auth_refresh_def auth_refresh_def Let_def
  by (intro tracks_rules tracks_rejection tracks_handle_revoked tracks_rotate)

lemma tracks_logout: "tracks S (s_auth_logout S X p) (auth_logout X p) w"
  unfolding s_auth_logout_def auth_logout_def Let_def by (intro tracks_rules)

section \<open>The other services\<close>

lemma tracks_services:
  "tracks S (s_authorize S X i re a g) (authorize X i re a g) w"
  "tracks S (s_create_role S X name d g actor) (create_role X name d g actor) w"
  "tracks S (s_assign_role S X i r g actor) (assign_role X i r g actor) w"
  "tracks S (s_revoke_role S X i r g actor) (revoke_role X i r g actor) w"
  "tracks S (s_assign_permission_to_role S X r q actor) (assign_permission_to_role X r q actor) w"
  "tracks S (s_remove_permission_from_role S X r q actor) (remove_permission_from_role X r q actor) w"
  "tracks S (s_create_organization S X name actor) (create_organization X name actor) w"
  "tracks S (s_add_member S X i o1 actor) (add_member X i o1 actor) w"
  "tracks S (s_remove_member S X i o1 actor) (remove_member X i o1 actor) w"
  "tracks S (s_list_members S o1) (list_members o1) w"
  "tracks S (s_list_events S g ac' ac l off) (list_events g ac' ac l off) w"
  unfolding s_authorize_def authorize_def s_create_role_def create_role_def s_check_membership_def
    check_membership_def s_assign_role_def assign_role_def s_revoke_role_def revoke_role_def
    s_assign_permission_to_role_def assign_permission_to_role_def s_remove_permission_from_role_def
    remove_permission_from_role_def s_create_organization_def create_organization_def s_add_member_def
    add_member_def s_remove_member_def remove_member_def s_list_members_def list_members_def
    s_list_events_def list_events_def Let_def
  by (intro tracks_rules)+

section \<open>Dependencies and routes\<close>

lemma tracks_current_user: "tracks S (s_get_current_user S X auth) (get_current_user X auth) w"
proof -
  have "obeys quiet (try_except (decode_access_token X token)
      (\<lambda>e. case e of TokenValidationError _ \<Rightarrow> Some (raise unauthorized) | _ \<Rightarrow> None))" for token
    by (intro quieting.try_except decode_access_token_quiet) (auto intro: quieting.raise split: exn.splits)
  moreover have "obeys quiet (try_except (subject_id payload)
      (\<lambda>e. case e of
         Python KeyError \<Rightarrow> Some (raise unauthorized)
       | Python ValueError \<Rightarrow> Some (raise unauthorized)
       | Python TypeError \<Rightarrow> Some (raise unauthorized)
       | _ \<Rightarrow> None))" for payload
    by (intro quieting.try_except subject_id_quiet)
      (auto intro: quieting.raise split: exn.splits python_error.splits)
  ultimately show ?thesis
    unfolding s_get_current_user_def get_current_user_def Let_def
    by (intro tracks_rules tracks_in_process)
qed

lemma tracks_require_permission:
  "tracks S (s_require_permission S X re a auth) (require_permission X re a auth) w"
  unfolding s_require_permission_def require_permission_def
  by (intro tracks_rules tracks_current_user tracks_services)

lemmas tracks_route_rules = tracks_flow tracks_excepting tracks_current_user tracks_require_permission
  tracks_services tracks_register tracks_login tracks_refresh tracks_logout tracks_statements
  tracks_read [OF organization_reads_quiet(2)]

lemma tracks_serve: "tracks S (s_serve S X auth req) (dispatch X auth req) w"
  by (cases req; simp only: s_serve.simps dispatch.simps route_defs s_admin_def s_answer_def
        Let_def; intro tracks_route_rules)

section \<open>A request is a unit of work\<close>

text \<open>
  C11: served over a session of its own, opened and closed by \<open>get_db\<close>, a request gives the
  answer and leaves durable the tables of the sequential model: every write is committed before
  the client hears of it, a rejected INSERT is rolled back before the next statement, and what
  was not committed is not missed.
\<close>

theorem request_is_a_unit_of_work:
  assumes "transactional S"
  shows "get_db S (s_serve S X auth req) w = dispatch X auth req w"
  by (rule get_db_tracks [OF assms tracks_serve])

theorem request_is_a_unit_of_work_witness:
  "get_db plain_sessions (s_serve plain_sessions sample_env None (Register ''a@x.io'' ''long password'')) sample_graph =
   dispatch sample_env None (Register ''a@x.io'' ''long password'') sample_graph"
  by (rule request_is_a_unit_of_work [OF plain_sessions_transactional])

end
