(* ===== verification/Secrets.thy ===== *)
theory Secrets
  imports System
begin

text \<open>
  Two runs of the service that differ in their secrets only: the passwords, the refresh
  tokens, the signing key. As long as the hashes agree, no step can tell them apart, and what
  the two clients see differs in the tokens they are handed and nowhere else.
\<close>

section \<open>Programs that agree\<close>

text \<open>The same state, the same exception or related results.\<close>

definition agrees :: "('a \<Rightarrow> 'a \<Rightarrow> bool) \<Rightarrow> ('s, 'e, 'a) prog \<Rightarrow> ('s, 'e, 'a) prog \<Rightarrow> bool" where
  "agrees R m m' = (\<forall>s. snd (m s) = snd (m' s) \<and> rel_sum (=) R (fst (m s)) (fst (m' s)))"

lemma agrees_refl: "agrees (=) m m"
  by (simp add: agrees_def sum.rel_refl)

lemma agrees_eq: "m = m' \<Longrightarrow> agrees (=) m m'"
  by (simp add: agrees_refl)

lemma agrees_pure: "R x y \<Longrightarrow> agrees R (pure x) (pure y)"
  by (simp add: agrees_def run_simps)

lemma agrees_raise: "agrees R (raise e) (raise e)"
  by (simp add: agrees_def run_simps)

lemma agrees_draw: "(\<And>n. R (f n) (g n)) \<Longrightarrow> agrees R (draw f) (draw g)"
  by (simp add: agrees_def run_simps)

lemma agrees_then:
  assumes "agrees R m m'" and "\<And>x y. R x y \<Longrightarrow> agrees Q (f x) (f' y)"
  shows "agrees Q (and_then m f) (and_then m' f')"
proof -
  have "snd (and_then m f s) = snd (and_then m' f' s) \<and>
      rel_sum (=) Q (fst (and_then m f s)) (fst (and_then m' f' s))" for s
  proof -
    obtain r t r' t' where m: "m s = (r, t)" "m' s = (r', t')" by fastforce
    with assms(1) have t: "t' = t" and r: "rel_sum (=) R r r'"
      unfolding agrees_def by (metis fst_conv snd_conv)+
    from r show ?thesis
    proof (cases rule: rel_sum.cases)
      case (2 x y)
      with assms(2) [of x y] show ?thesis by (simp add: run_simps m t agrees_def)
    qed (simp add: run_simps m t)
  qed
  then show ?thesis by (simp add: agrees_def)
qed

text \<open>After a step that is the same in both runs.\<close>

lemma agrees_after: "m = m' \<Longrightarrow> (\<And>x. agrees Q (f x) (f' x)) \<Longrightarrow> agrees Q (and_then m f) (and_then m' f')"
  by (rule agrees_then [OF agrees_eq]) simp_all

lemma agrees_if: "(b \<Longrightarrow> agrees Q m m') \<Longrightarrow> (\<not> b \<Longrightarrow> agrees Q k k') \<Longrightarrow>
    agrees Q (if b then m else k) (if b then m' else k')"
  by simp

lemma agrees_option: "agrees Q m m' \<Longrightarrow> (\<And>x. agrees Q (f x) (f' x)) \<Longrightarrow>
    agrees Q (case v of None \<Rightarrow> m | Some x \<Rightarrow> f x) (case v of None \<Rightarrow> m' | Some x \<Rightarrow> f' x)"
  by (cases v) simp_all

lemma agrees_excepting: "agrees R m m' \<Longrightarrow> agrees R (excepting c m) (excepting c m')"
proof -
  assume a: "agrees R m m'"
  have "snd (excepting c m s) = snd (excepting c m' s) \<and>
      rel_sum (=) R (fst (excepting c m s)) (fst (excepting c m' s))" for s
  proof -
    obtain r t r' t' where m: "m s = (r, t)" "m' s = (r', t')" by fastforce
    with a have t: "t' = t" and r: "rel_sum (=) R r r'"
      unfolding agrees_def by (metis fst_conv snd_conv)+
    from r show ?thesis
      by (cases rule: rel_sum.cases)
        (auto simp: excepting_def run_simps m t split: exn.split option.split)
  qed
  then show ?thesis by (simp add: agrees_def)
qed

section \<open>Two environments with different secrets\<close>

text \<open>
  The runs may differ in the signing key and what is signed with it, in the random text of
  refresh tokens and in the hash functions; the hash of each refresh token and the verdict on
  each bearer token are the same.
\<close>

definition secrets_apart :: "env \<Rightarrow> env \<Rightarrow> bool" where
  "secrets_apart X Y =
     (Y = X\<lparr>config := (config X)\<lparr>jwt_secret_key := jwt_secret_key (config Y)\<rparr>,
            token_urlsafe := token_urlsafe Y, sha256_hexdigest := sha256_hexdigest Y,
            argon2_hash := argon2_hash Y, argon2_verify := argon2_verify Y,
            jwt_encode := jwt_encode Y, jwt_decode := jwt_decode Y\<rparr> \<and>
      (\<forall>n. sha256_hexdigest Y (token_urlsafe Y n) = sha256_hexdigest X (token_urlsafe X n)) \<and>
      (\<forall>token algs iss claims now.
         jwt_decode Y token (jwt_secret_key (config Y)) algs iss claims now =
         jwt_decode X token (jwt_secret_key (config X)) algs iss claims now))"

text \<open>
  Requests that differ in a secret with the same hash: a password that hashes alike, or that
  every stored hash verifies alike; a refresh token with the same digest.
\<close>

fun carries_secret :: "request \<Rightarrow> bool" where
  "carries_secret (Register _ _) = True"
| "carries_secret (Login _ _) = True"
| "carries_secret (Refresh _) = True"
| "carries_secret (Logout _) = True"
| "carries_secret _ = False"

inductive request_alike :: "env \<Rightarrow> env \<Rightarrow> request \<Rightarrow> request \<Rightarrow> bool" for X :: env and Y :: env where
  register: "(length p' < 10) = (length p < 10) \<Longrightarrow>
    \<forall>q salt. argon2_hash Y q salt p' = argon2_hash X q salt p \<Longrightarrow>
    request_alike X Y (Register e p) (Register e p')"
| login: "\<forall>h. argon2_verify Y h p' = argon2_verify X h p \<Longrightarrow>
    request_alike X Y (Login e p) (Login e p')"
| refresh: "sha256_hexdigest Y t' = sha256_hexdigest X t \<Longrightarrow> request_alike X Y (Refresh t) (Refresh t')"
| logout: "sha256_hexdigest Y t' = sha256_hexdigest X t \<Longrightarrow> request_alike X Y (Logout t) (Logout t')"
| open_request: "\<not> carries_secret r \<Longrightarrow> request_alike X Y r r"

text \<open>What is left of an answer without the tokens.\<close>

fun without_tokens :: "body \<Rightarrow> body" where
  "without_tokens (TokenBody r) = TokenBody (r\<lparr>resp_access_token := '''', resp_refresh_token := ''''\<rparr>)"
| "without_tokens b = b"

definition answer_alike :: "response \<Rightarrow> response \<Rightarrow> bool" where
  "answer_alike r r' = (fst r' = fst r \<and> without_tokens (snd r') = without_tokens (snd r))"

definition pair_alike :: "token_response \<Rightarrow> token_response \<Rightarrow> bool" where
  "pair_alike r r' = (without_tokens (TokenBody r') = without_tokens (TokenBody r))"

lemma settings_apart:
  assumes "secrets_apart X Y"
  shows "gen_random_uuid Y = gen_random_uuid X" "db_now Y = db_now X" "utc_clock Y = utc_clock X"
    "uuid4 Y = uuid4 X" "collate Y = collate X" "email_str Y = email_str X"
    "access_token_ttl_minutes (config Y) = access_token_ttl_minutes (config X)"
    "refresh_token_ttl_days (config Y) = refresh_token_ttl_days (config X)"
    "jwt_algorithm (config Y) = jwt_algorithm (config X)" "jwt_issuer (config Y) = jwt_issuer (config X)"
    "password_hasher Y = password_hasher X"
    "jwt_decode Y token (jwt_secret_key (config Y)) algs iss claims now =
     jwt_decode X token (jwt_secret_key (config X)) algs iss claims now"
proof -
  from assms have Y: "Y = X\<lparr>config := (config X)\<lparr>jwt_secret_key := jwt_secret_key (config Y)\<rparr>,
      token_urlsafe := token_urlsafe Y, sha256_hexdigest := sha256_hexdigest Y,
      argon2_hash := argon2_hash Y, argon2_verify := argon2_verify Y,
      jwt_encode := jwt_encode Y, jwt_decode := jwt_decode Y\<rparr>"
    by (simp add: secrets_apart_def)
  have c: "config Y = (config X)\<lparr>jwt_secret_key := jwt_secret_key (config Y)\<rparr>" by (subst Y) simp
  show "gen_random_uuid Y = gen_random_uuid X" "db_now Y = db_now X" "utc_clock Y = utc_clock X"
    "uuid4 Y = uuid4 X" "collate Y = collate X" "email_str Y = email_str X"
    by (subst Y, simp)+
  show "access_token_ttl_minutes (config Y) = access_token_ttl_minutes (config X)"
    "refresh_token_ttl_days (config Y) = refresh_token_ttl_days (config X)"
    "jwt_algorithm (config Y) = jwt_algorithm (config X)" "jwt_issuer (config Y) = jwt_issuer (config X)"
    by (subst c, simp)+
  show "password_hasher Y = password_hasher X" unfolding password_hasher_def by (subst (1 2 3) c) simp
  show "jwt_decode Y token (jwt_secret_key (config Y)) algs iss claims now =
     jwt_decode X token (jwt_secret_key (config X)) algs iss claims now"
    using assms by (simp add: secrets_apart_def)
qed

section \<open>Steps that see no secret\<close>

lemma orders_apart:
  assumes "secrets_apart X Y"
  shows "by_resource_action Y = by_resource_action X" and "by_org_name Y = by_org_name X"
    and "insert_new Y mk fits consistent store = insert_new X mk fits consistent store"
  by (intro ext, simp add: settings_apart [OF assms] by_resource_action_def by_org_name_def insert_new_def)+

lemma inserts_apart:
  assumes "secrets_apart X Y"
  shows "utc_now Y = utc_now X" "create_user Y e h = create_user X e h"
    "refresh_token_create Y i h t = refresh_token_create X i h t"
    "audit_record Y a ac tt ti og md = audit_record X a ac tt ti og md"
    "role_create Y n d g = role_create X n d g" "user_role_assign Y v j g = user_role_assign X v j g"
    "organization_create Y n = organization_create X n" "membership_add Y v o1 = membership_add X v o1"
  by (simp_all add: settings_apart [OF assms] orders_apart [OF assms] utc_now_def create_user_def
      refresh_token_create_def audit_record_def role_create_def user_role_assign_def
      organization_create_def membership_add_def insert_reporting_def)

lemma repositories_apart:
  assumes "secrets_apart X Y"
  shows "update_last_login Y u = update_last_login X u" "revoke Y r = revoke X r"
    "create_rotation_pair Y r h t = create_rotation_pair X r h t"
    "get_permissions_for_user Y v g = get_permissions_for_user X v g"
    "get_organizations_for_user Y v = get_organizations_for_user X v"
    "access_token_ttl_seconds Y = access_token_ttl_seconds X" "refresh_token_expiry Y = refresh_token_expiry X"
    "decode_access_token Y token = decode_access_token X token"
  by (simp_all add: settings_apart [OF assms] orders_apart [OF assms] inserts_apart [OF assms]
      update_last_login_def revoke_def create_rotation_pair_def get_permissions_for_user_def
      get_organizations_for_user_def access_token_ttl_seconds_def refresh_token_expiry_def
      decode_access_token_def cong: if_cong)

lemma family_walk_apart:
  assumes "secrets_apart X Y"
  shows "family_walk k Y i = family_walk k X i"
  by (induction k arbitrary: i) (simp_all add: inserts_apart [OF assms] cong: option.case_cong if_cong)

lemma services_apart:
  assumes "secrets_apart X Y"
  shows "record_rejection Y t reason = record_rejection X t reason"
    "handle_revoked_token Y t = handle_revoked_token X t"
    "authorize Y v re a g = authorize X v re a g"
    "create_role Y n d g actor = create_role X n d g actor"
    "assign_role Y v i g actor = assign_role X v i g actor"
    "revoke_role Y v i g actor = revoke_role X v i g actor"
    "assign_permission_to_role Y i q actor = assign_permission_to_role X i q actor"
    "remove_permission_from_role Y i q actor = remove_permission_from_role X i q actor"
    "get_user_permissions Y v g = get_user_permissions X v g"
    "create_organization Y n actor = create_organization X n actor"
    "add_member Y v o1 actor = add_member X v o1 actor"
    "remove_member Y v o1 actor = remove_member X v o1 actor"
    "list_organizations_for_user Y v = list_organizations_for_user X v"
    "get_current_user Y auth = get_current_user X auth"
  by (simp_all add: inserts_apart [OF assms] repositories_apart [OF assms] family_walk_apart [OF assms]
      record_rejection_def handle_revoked_token_def revoke_descendants_def authorize_def create_role_def
      assign_role_def revoke_role_def assign_permission_to_role_def remove_permission_from_role_def
      get_user_permissions_def create_organization_def add_member_def remove_member_def
      list_organizations_for_user_def get_current_user_def check_membership_def
      cong: if_cong option.case_cong exn.case_cong repository_error.case_cong)

lemma open_requests_apart:
  assumes "secrets_apart X Y" and "\<not> carries_secret req"
  shows "dispatch Y auth req = dispatch X auth req"
proof -
  have "require_permission Y r a auth = require_permission X r a auth" for r a
    by (simp add: require_permission_def services_apart [OF assms(1)])
  with assms(2) show ?thesis
    by (cases req) (simp_all add: route_defs services_apart [OF assms(1)])
qed

section \<open>Steps that see a secret\<close>

lemma tokens_apart:
  assumes "secrets_apart X Y"
  shows "agrees (\<lambda>_ _. True) (create_access_token X i) (create_access_token Y i)"
    and "agrees (\<lambda>raw raw'. hash_refresh_token Y raw' = hash_refresh_token X raw)
      (generate_refresh_token X) (generate_refresh_token Y)"
proof -
  show "agrees (\<lambda>_ _. True) (create_access_token X i) (create_access_token Y i)"
    unfolding create_access_token_def inserts_apart [OF assms] settings_apart [OF assms]
    by (intro agrees_after refl agrees_pure TrueI)
  show "agrees (\<lambda>raw raw'. hash_refresh_token Y raw' = hash_refresh_token X raw)
      (generate_refresh_token X) (generate_refresh_token Y)"
    unfolding generate_refresh_token_def hash_refresh_token_def
    by (rule agrees_draw) (use assms in \<open>simp add: secrets_apart_def\<close>)
qed

lemma issue_apart:
  assumes "secrets_apart X Y"
  shows "agrees pair_alike (issue_token_pair X u) (issue_token_pair Y u)"
  unfolding issue_token_pair_def Let_def
  by (rule agrees_then [OF tokens_apart(1) [OF assms]], rule agrees_then [OF tokens_apart(2) [OF assms]])
    (simp add: repositories_apart [OF assms] inserts_apart [OF assms],
     intro agrees_after refl agrees_pure, simp add: pair_alike_def)

lemma rotate_apart:
  assumes "secrets_apart X Y"
  shows "agrees pair_alike (rotate_token X t u) (rotate_token Y t u)"
proof -
  note eqs = repositories_apart [OF assms] inserts_apart [OF assms] services_apart [OF assms]
  show ?thesis
    unfolding rotate_token_def Let_def
  proof (rule agrees_then [OF tokens_apart(2) [OF assms]], rule agrees_after)
    fix raw raw' expires_at
    assume h: "hash_refresh_token Y raw' = hash_refresh_token X raw"
    show "agrees pair_alike
     (and_then (create_rotation_pair X t (hash_refresh_token X raw) expires_at) (\<lambda>new_token.
      case new_token of
        None \<Rightarrow> and_then (record_rejection X t ''concurrent_rotation_lost'') (\<lambda>_. raise invalid_refresh_token)
      | Some _ \<Rightarrow>
          and_then (audit_record X REFRESH_TOKEN_ROTATED (Some (usr_id u)) (Some ''user'')
            (Some (usr_id u)) None None) (\<lambda>_.
          and_then (create_access_token X (uuid_str (usr_id u))) (\<lambda>access_token.
          pure \<lparr>resp_access_token = access_token, resp_refresh_token = raw,
               resp_token_type = ''bearer'', resp_expires_in = access_token_ttl_seconds X\<rparr>))))
     (and_then (create_rotation_pair Y t (hash_refresh_token Y raw') expires_at) (\<lambda>new_token.
      case new_token of
        None \<Rightarrow> and_then (record_rejection Y t ''concurrent_rotation_lost'') (\<lambda>_. raise invalid_refresh_token)
      | Some _ \<Rightarrow>
          and_then (audit_record Y REFRESH_TOKEN_ROTATED (Some (usr_id u)) (Some ''user'')
            (Some (usr_id u)) None None) (\<lambda>_.
          and_then (create_access_token Y (uuid_str (usr_id u))) (\<lambda>access_token.
          pure \<lparr>resp_access_token = access_token, resp_refresh_token = raw',
               resp_token_type = ''bearer'', resp_expires_in = access_token_ttl_seconds Y\<rparr>))))"
      unfolding h eqs
      by (intro agrees_after agrees_option refl agrees_raise agrees_then [OF tokens_apart(1) [OF assms]]
          agrees_pure) (simp add: pair_alike_def)
  qed (simp add: eqs)
qed

lemma register_apart:
  assumes "secrets_apart X Y" and "\<And>q salt. argon2_hash Y q salt p' = argon2_hash X q salt p"
  shows "auth_register Y e p' = auth_register X e p"
  by (simp add: auth_register_def hash_password_def assms(2) settings_apart [OF assms(1)]
      inserts_apart [OF assms(1)] cong: exn.case_cong repository_error.case_cong)

lemma login_apart:
  assumes "secrets_apart X Y" and "\<forall>h. argon2_verify Y h p' = argon2_verify X h p"
  shows "agrees pair_alike (auth_login X e p) (auth_login Y e p')"
proof -
  have "verify_password Y p' h = verify_password X p h" for h
    using assms(2) by (simp add: verify_password_def)
  then show ?thesis
    unfolding auth_login_def inserts_apart [OF assms(1)] repositories_apart [OF assms(1)]
    by (auto intro!: agrees_after agrees_option agrees_if agrees_raise issue_apart [OF assms(1)])
qed

lemma refresh_apart:
  assumes "secrets_apart X Y" and "sha256_hexdigest Y t' = sha256_hexdigest X t"
  shows "agrees pair_alike (auth_refresh X t) (auth_refresh Y t')"
  unfolding auth_refresh_def Let_def hash_refresh_token_def assms(2) inserts_apart [OF assms(1)]
    services_apart [OF assms(1)]
  by (intro agrees_after agrees_option agrees_if agrees_raise refl rotate_apart [OF assms(1)])

lemma logout_apart:
  assumes "secrets_apart X Y" and "sha256_hexdigest Y t' = sha256_hexdigest X t"
  shows "auth_logout Y t' = auth_logout X t"
  by (simp add: auth_logout_def hash_refresh_token_def assms(2) inserts_apart [OF assms(1)]
      repositories_apart [OF assms(1)] cong: option.case_cong if_cong)

lemma answer_apart:
  "agrees pair_alike m m' \<Longrightarrow>
   agrees answer_alike (and_then m (\<lambda>r. pure (st, TokenBody r))) (and_then m' (\<lambda>r. pure (st, TokenBody r)))"
  by (erule agrees_then) (simp add: agrees_pure answer_alike_def pair_alike_def)

lemma agrees_same: "m = m' \<Longrightarrow> agrees answer_alike m m'"
  by (auto simp: agrees_def answer_alike_def intro!: sum.rel_refl)

text \<open>One request.\<close>

lemma dispatch_apart:
  assumes "secrets_apart X Y" and "request_alike X Y req req'"
  shows "agrees answer_alike (dispatch X auth req) (dispatch Y auth req')"
  using assms(2)
proof cases
  case (register p' p e)
  have "auth_register Y a p' = auth_register X a p" for a by (rule register_apart [OF assms(1)]) (use register(4) in blast)
  then show ?thesis
    unfolding register(1,2) dispatch.simps route_register_def settings_apart [OF assms(1)] register(3)
    by (intro agrees_same) (simp cong: option.case_cong if_cong)
next
  case (login p' p e)
  show ?thesis
    unfolding login(1,2) dispatch.simps route_login_def settings_apart [OF assms(1)]
    by (intro agrees_option agrees_raise answer_apart agrees_excepting login_apart [OF assms(1) login(3)])
next
  case (refresh t' t)
  show ?thesis
    unfolding refresh(1,2) dispatch.simps route_refresh_def
    by (intro answer_apart agrees_excepting refresh_apart [OF assms(1) refresh(3)])
next
  case (logout t' t)
  show ?thesis
    unfolding logout(1,2) dispatch.simps route_logout_def
    by (rule agrees_same) (simp add: logout_apart [OF assms(1) logout(3)])
next
  case open_request
  with open_requests_apart [OF assms(1)] show ?thesis by (intro agrees_same) simp
qed

section \<open>Sequences of requests\<close>

text \<open>Requests with their headers, served one after the other; the results, in order.\<close>

fun serve_each ::
  "env \<Rightarrow> (string option \<times> request) list \<Rightarrow> world \<Rightarrow> (exn + response) list \<times> world" where
  "serve_each X [] w = ([], w)"
| "serve_each X ((auth, req) # reqs) w =
     (let (r, w') = dispatch X auth req w; (rs, w'') = serve_each X reqs w' in (r # rs, w''))"

end
