(* ===== verification/Secrecy_Properties.thy ===== *)
theory Secrecy_Properties
  imports Secrets Authorization_Runs
begin

text \<open>
  The property of \<open>Secrets\<close>: what the service stores and answers depends on a secret through
  its hash only.
\<close>


section \<open>Example\<close>





end
