(* ===== verification/Spec2Isabelle.thy ===== *)
theory Spec2Isabelle
  imports System_Properties Auth_Properties Session_Properties Authorization_Properties
    Repository_Properties Organization_Properties Concurrency_Properties Interleaving_Properties
    Seed_Properties Migration_Properties Http_Properties Session_Serving Secrecy_Properties
begin

text \<open>
  SecureIAM, an identity and access management service on FastAPI, SQLAlchemy and PostgreSQL:
  accounts and sessions, role-based permissions that can be scoped to an organization,
  organizations with members, and an append-only audit log.

  \<^bold>\<open>The program.\<close> A request reaches a route of \<open>src/app/api/v1\<close>. The dependencies of
  \<open>src/app/core/dependencies.py\<close> find the caller and check the permission the route demands.
  The route calls one service of \<open>src/app/domain/services\<close>; the services hold the rules and
  call the repositories of \<open>src/app/repositories\<close>, one per table; each state change is
  recorded in the audit log. The tables come from the migrations of
  \<open>src/app/db/migrations/versions\<close>, which also seed the first roles and permissions.

  \<^bold>\<open>The model.\<close> A coroutine is a function from the state to a result, an exception or a
  value, and the new state (\<open>prog\<close> and its combinators in \<open>Prelude\<close>): what was committed
  before an exception stays. The state \<open>world\<close> is the nine tables as lists of rows in
  insertion order, and the number of draws made from the random sources and clocks. What is
  not in the repository is the record \<open>env\<close>: the settings, the sources of ids and tokens,
  the clocks, argon2, SHA-256, PyJWT, the email validator and the database's collation. An
  INSERT checks what PostgreSQL checks: column lengths, primary keys, unique indexes and
  foreign keys (\<open>Database\<close>).

  Theories and what they model:
  \<^item> \<open>Prelude\<close>, \<open>Python\<close>: programs, two-state relations along them, keyed tables;
    string methods, \<open>uuid.UUID\<close>, datetimes.
  \<^item> \<open>Database\<close>, \<open>Integrity\<close>: \<open>domain/models\<close>, the exceptions of
    \<open>domain/exceptions.py\<close> and \<open>repositories/exceptions.py\<close>, \<open>core/config.py\<close>; the
    integrity \<open>db_ok\<close> of the database and that each kind of statement keeps it.
  \<^item> \<open>Security\<close>: \<open>core/security.py\<close>, \<open>core/time.py\<close>, \<open>domain/audit_actions.py\<close>.
  \<^item> \<open>User_Repository\<close>, \<open>Refresh_Token_Repository\<close>, \<open>Role_Repository\<close> (with
    permissions), \<open>User_Role_Repository\<close>, \<open>Organization_Repository\<close> (with memberships),
    \<open>Audit_Log_Repository\<close>: the files of the same names under \<open>repositories\<close>.
  \<^item> \<open>Auth_Service\<close>, \<open>Authorization_Service\<close>, \<open>Organization_Service\<close> (with
    \<open>audit_log_service.py\<close>): the services, with their return types of \<open>domain/schemas\<close>.
  \<^item> \<open>Api\<close>: \<open>core/dependencies.py\<close>, every route of \<open>api/v1\<close> with its status codes, and
    \<open>main.py\<close> as one function \<open>dispatch\<close>.
  \<^item> \<open>Schemas\<close>, \<open>Http\<close>: the request and response models of \<open>api/v1/schemas\<close> as values, with
    what it means to have a declared type and to be validated; the routes as they are declared,
    the routers in registration order, and an HTTP request from its path to its answer
    (\<open>http_app\<close>, which runs \<open>dispatch\<close>).
  \<^item> \<open>Concurrency\<close>: \<open>refresh\<close> and \<open>logout\<close> as sequences of statements between which
    other requests run; the step relation \<open>interleaved\<close> and schedules of turns.
  \<^item> \<open>Threads\<close>, \<open>Turns\<close>: threads that can be interrupted, and every repository, service
    and route once more as a thread (the names with \<open>t_\<close>), each database statement a turn of
    its own; \<open>serve\<close> is the application, \<open>together\<close> any number of its requests on one database.
  \<^item> \<open>Unit_Of_Work\<close>, \<open>Sessions\<close>: \<open>get_db\<close> of \<open>db/session.py\<close>, and every repository, service and
    route over a database session (the names with \<open>s_\<close>), with each flush, commit and rollback
    where the code has it; \<open>s_serve\<close> is the application.
  \<^item> \<open>Schema\<close>, \<open>Migrations\<close>, \<open>Models\<close>: the schema as a value, Alembic's operations on
    it, the four schema migrations with the chain of revisions, and the tables the
    declarative models describe.
  \<^item> \<open>Seeds\<close>: the three data migrations, statement by statement.

  Contracts are locales. \<open>history\<close> (\<open>Prelude\<close>) is a reflexive and transitive relation
  between states; its rules push an invariant, a frame or a growing log through a program, and
  it is interpreted for each of these. \<open>entity_store\<close>, \<open>link_store\<close> and
  \<open>queried_link_store\<close> (\<open>Interfaces\<close>) are what the services rely on in a repository: a table
  with a natural key, and a table that is a set of keys; the repositories interpret them.
  \<open>seeding\<close> (\<open>Seeds\<close>) is a table filled by single inserts, interpreted for roles and
  permissions.

  \<^bold>\<open>The lemmas.\<close> \<open>Auth_Runs\<close>, \<open>Session_Runs\<close>, \<open>Authorization_Runs\<close>, \<open>Requests\<close>,
  \<open>Answers\<close> and \<open>Seed_Runs\<close> state what an operation returns and stores on every branch.
  \<open>Frames\<close> says what a call leaves alone. \<open>System\<close> collects what every request preserves,
  \<open>Token_Hashes\<close> why stored hashes do not repeat. \<open>Turns_Alone\<close> shows that a thread with
  nobody else about does what its coroutine does. \<open>Interference\<close> is the rely and the guarantee
  of every statement (\<open>carries_on\<close>), \<open>Promises\<close> and \<open>Request_Promises\<close> derive from it how each
  service and each route can end beside others, with a rule for every combinator; \<open>Races\<close>
  follows single interleavings. \<open>Session_Tracking\<close> and \<open>Session_Serving\<close> show for each method
  over a session that it \<open>tracks\<close> the one of the sequential model. \<open>Secrets\<close> compares two runs
  step by step. \<open>Http_Runs\<close> shows that validated arguments hold what a handler
  reads and that its value fits the response model. The properties are in the theories named
  \<open>_Properties\<close>:
  \<^item> \<open>System_Properties\<close>: invariants over every sequence of requests (integrity, chain
    shape, scopes of roles, unique hashes, an append-only log); every protected route is
    mediated by its permission; an issued access token identifies its account; every request
    ends in a documented status; every administrative change is attributed.
  \<^item> \<open>Auth_Properties\<close>, \<open>Session_Properties\<close>: registration, login, rotation, replay, logout.
  \<^item> \<open>Authorization_Properties\<close>, \<open>Organization_Properties\<close>, \<open>Repository_Properties\<close>: what
    the check decides and how assignments, revocations, memberships and removals change it;
    the pages of the audit log; the repositories as sets and maps.
  \<^item> \<open>Concurrency_Properties\<close>: no interleaving rotates a token twice, every request ends,
    and two races after which a session is still live.
  \<^item> \<open>Interleaving_Properties\<close>: any number of requests of any kind, interleaved statement by
    statement: alone a request refines \<open>dispatch\<close>, together they keep every invariant and end
    in documented statuses whatever the schedule, and the one race that ends in a 500.
  \<^item> \<open>Http_Properties\<close>: every answer has its declared type, every request can be sent over
    HTTP and reaches its handler unchanged, and any other is refused without effect.
  \<^item> \<open>Session_Serving\<close>: with its own commits and rollbacks a request refines \<open>dispatch\<close>.
  \<^item> \<open>Secrecy_Properties\<close>: what is stored, logged and answered depends on a secret through its
    hash only.
  \<^item> \<open>Seed_Properties\<close>, \<open>Migration_Properties\<close>: the seeded catalogue and what its roles
    open, the way back, and the migrated schema against the models.

  \<^bold>\<open>Hypotheses.\<close> \<open>db_ok\<close>, \<open>ledger_ok\<close>, \<open>scopes_ok\<close> and \<open>hashes_ok\<close> are invariants: they
  hold of the empty database and every request keeps them. \<open>collision_free X n\<close>: the first
  \<open>n\<close> ids and token hashes drawn are distinct. \<open>argon2_ok\<close>: a hash fits its column and
  verifies. \<open>sha256_ok\<close>: a digest has 64 digits. \<open>jwt_accepts\<close>: PyJWT decodes what it has
  signed until it expires. \<open>subjects_are_strings\<close>: PyJWT, as pinned, refuses a subject that
  is no string. \<open>tokens_are_compact\<close>: a token is not empty and has no space at its ends.
  \<open>reads_text\<close>: pydantic reads the canonical text of a UUID and the digits of an integer.
  \<open>transactional\<close>: SQLAlchemy's session sees what it has written, makes it durable on commit,
  refuses statements after one was rejected until it is rolled back. \<open>secrets_apart\<close> and
  \<open>request_alike\<close> describe two runs whose secrets differ and whose hashes agree.
  \<open>fits_columns\<close>: texts without a length limit in the request models fit their columns.
  The environment of \<open>Sample\<close> has all of them, and the witnesses run in it.

  \<^bold>\<open>Bounds.\<close> The family walk has the 25 iterations of the code as fuel, and what happens
  beyond them is a property. A request of \<open>Concurrency\<close> needs at most 78 turns: three for
  each iteration, one to look the token up, two to record; one of \<open>Turns\<close>, where the reads
  of a lookup and every row read back are turns too, at most 80. A request draws at most ten values
  from the sources.

  \<^bold>\<open>Readings.\<close> ORDER BY keeps tied rows in table order, and no property depends on it. A
  row the session has loaded is kept by SQLAlchemy's identity map on a later query; a single
  request reads no row that another has changed, so this shows in \<open>Concurrency\<close> only,
  and \<open>Turns\<close> only, where it is the parameter \<open>fresh\<close>. \<open>create_rotation_pair\<close> is one piece
  there, since its first UPDATE locks the row until the commit. An INSERT or UPDATE and its
  commit are one turn, \<open>session.refresh\<close> is the next; in \<open>Sessions\<close> they are statements of their
  own. FastAPI calls \<open>get_db\<close> once for a request, so all its repositories share one session; a DELETE of a row that is already
  gone is no error. The data migrations run on the finished
  schema, and \<open>now()\<close> is one value for a migration. Of FastAPI and pydantic the model takes
  what they document: the first route in registration order that has the verb and matches the
  path segment by segment; a body that is not readable JSON is refused first, then the
  dependencies run, then path, query and body are validated; fields are read by name, the last of
  two equal names counts, and undeclared ones are ignored. The conversion of a value that is not
  of the declared type is a parameter (\<open>conversion\<close>), and a request no route takes is left to
  the framework (\<open>Unrouted\<close>: 404, 405, a redirect or its documentation pages). An address is
  handed on as it was sent, and the handler normalizes it.

  \<^bold>\<open>Not modelled.\<close> Engine and session factory of \<open>db/session.py\<close>, the constructors and
  providers that only pass the session on, Alembic's set-up in \<open>db/migrations/env.py\<close> (its
  transaction is \<open>transaction\<close>), the reading of \<open>.env\<close>, \<open>__repr__\<close>, and the rendering of an
  answer's values as JSON text. Tests, Docker and CI files are not part of the program.
\<close>

end
